(* ===== verification/Prelude.thy ===== *)
theory Prelude
  imports Main "HOL-Library.Word" "HOL-Library.Sublist"
begin

text \<open>
  The vocabulary every component shares: bytes, the 64-bit wrap-around of Go's
  \<open>time.Duration\<close>, little- and big-endian byte strings (\<open>encoding/binary\<close> and
  \<open>math/big\<close>), and the lemmas about them. Nothing in this theory is specific to the
  provider; the definitions are the parts of the Go standard library that the program
  calls, written out so that the components above can be evaluated.

  A Go \<open>string\<close> is a sequence of bytes, so it is a HOL \<open>string\<close>, one \<open>char\<close> per
  byte; a \<open>[]byte\<close> is a list of \<open>8 word\<close>.
\<close>

named_theorems go_simps "equations that evaluate the shared byte and integer operations"

type_synonym byte = "8 word"

section \<open>64-bit integers\<close>

text \<open>\<open>int64\<close> arithmetic (Go's \<open>time.Duration\<close>): the two's complement wrap-around.\<close>

definition wrap64 :: "int \<Rightarrow> int" where
  "wrap64 x = (x + 2 ^ 63) mod 2 ^ 64 - 2 ^ 63"

lemma wrap64_id: "- (2 ^ 63) \<le> x \<Longrightarrow> x < 2 ^ 63 \<Longrightarrow> wrap64 x = x"
  by (simp add: wrap64_def)

lemma wrap64_range: "- (2 ^ 63) \<le> wrap64 x \<and> wrap64 x < 2 ^ 63"
  by (simp add: wrap64_def)

lemma sint_negative: "sint (w :: 32 word) < 0 \<longleftrightarrow> 2 ^ 31 \<le> unat w"
proof -
  have "sint w < 0 \<longleftrightarrow> drop_bit 31 w \<noteq> 0"
    using bit_last_iff [of w] drop_bit_eq_zero_iff_not_bit_last [of w] by simp
  also have "\<dots> \<longleftrightarrow> unat (drop_bit 31 w) \<noteq> 0" by (simp only: unat_eq_0 not_not)
  also have "\<dots> \<longleftrightarrow> 2 ^ 31 \<le> unat w"
    by (simp add: unat_drop_bit_eq drop_bit_eq_div [of 31 "unat w"] div_eq_0_iff not_less)
  finally show ?thesis .
qed

lemma wrap64_sint: "wrap64 x = sint (word_of_int x :: 64 word)"
  by (simp add: wrap64_def sint_sbintrunc' signed_take_bit_eq_take_bit_shift take_bit_eq_mod)

section \<open>Byte strings as numbers\<close>

text \<open>Little-endian: the last byte is the most significant one.\<close>

fun le_nat :: "byte list \<Rightarrow> nat" where
  "le_nat [] = 0"
| "le_nat (b # bs) = unat b + 256 * le_nat bs"

fun le_bytes :: "nat \<Rightarrow> nat \<Rightarrow> byte list" where
  "le_bytes 0 n = []"
| "le_bytes (Suc k) n = word_of_nat n # le_bytes k (n div 256)"

definition be_nat :: "byte list \<Rightarrow> nat" where
  "be_nat bs = le_nat (rev bs)"

definition be_fixed :: "nat \<Rightarrow> nat \<Rightarrow> byte list" where
  "be_fixed k n = rev (le_bytes k n)"

text \<open>\<open>(*big.Int).Bytes\<close>: the absolute value, big-endian, no leading zero; 0 is empty.\<close>

fun big_bytes :: "nat \<Rightarrow> byte list" where
  "big_bytes n = (if n = 0 then [] else big_bytes (n div 256) @ [word_of_nat n])"

declare big_bytes.simps [simp del]

text \<open>\<open>(*big.Int).BitLen\<close>: the number of bits of the absolute value; 0 has none.\<close>

fun bit_len :: "nat \<Rightarrow> nat" where
  "bit_len n = (if n = 0 then 0 else Suc (bit_len (n div 2)))"

declare bit_len.simps [simp del]

text \<open>\<open>binary.LittleEndian.PutUint32\<close> and \<open>PutUint16\<close>.\<close>

definition put_u32 :: "32 word \<Rightarrow> byte list" where
  "put_u32 v = le_bytes 4 (unat v)"

definition put_u16 :: "16 word \<Rightarrow> byte list" where
  "put_u16 v = le_bytes 2 (unat v)"

lemma unat_byte_of_nat: "unat (word_of_nat n :: byte) = n mod 256"
  by (simp add: unat_of_nat)

lemma unat_byte_less: "unat (b :: byte) < 256"
  using unsigned_less [of b] by simp

lemma length_le_bytes [simp]: "length (le_bytes k n) = k"
  by (induction k arbitrary: n) auto

lemma length_be_fixed [simp]: "length (be_fixed k n) = k"
  by (simp add: be_fixed_def)

lemma length_put_u32 [simp]: "length (put_u32 v) = 4"
  by (simp add: put_u32_def)

lemma length_put_u16 [simp]: "length (put_u16 v) = 2"
  by (simp add: put_u16_def)

lemma le_nat_le_bytes: "le_nat (le_bytes k n) = n mod 256 ^ k"
proof (induction k arbitrary: n)
  case 0
  then show ?case by simp
next
  case (Suc k)
  have "n mod 256 + 256 * (n div 256 mod 256 ^ k) = n mod (256 * 256 ^ k)"
    by (simp add: mod_mult2_eq)
  with Suc show ?case by (simp add: unat_byte_of_nat)
qed

lemma le_bytes_le_nat: "le_bytes (length bs) (le_nat bs) = bs"
proof (induction bs)
  case Nil
  then show ?case by simp
next
  case (Cons b bs)
  have "(word_of_nat (unat b + 256 * le_nat bs) :: byte) = b"
    using unat_byte_less [of b] by (subst word_unat_eq_iff, subst unat_byte_of_nat) simp
  moreover have "(unat b + 256 * le_nat bs) div 256 = le_nat bs"
    using unat_byte_less [of b] by simp
  ultimately show ?case using Cons by simp
qed

lemma le_nat_less: "le_nat bs < 256 ^ length bs"
proof (induction bs)
  case Nil
  then show ?case by simp
next
  case (Cons b bs)
  then have "256 * Suc (le_nat bs) \<le> 256 * 256 ^ length bs" by (intro mult_le_mono2) simp
  with unat_byte_less [of b] show ?case by simp
qed

lemma le_nat_append: "le_nat (xs @ ys) = le_nat xs + 256 ^ length xs * le_nat ys"
  by (induction xs) (auto simp: algebra_simps)

lemma le_nat_replicate_0 [simp]: "le_nat (replicate k 0) = 0"
  by (induction k) auto

lemma be_nat_be_fixed: "be_nat (be_fixed k n) = n mod 256 ^ k"
  by (simp add: be_nat_def be_fixed_def le_nat_le_bytes)

lemma be_fixed_be_nat: "be_fixed (length bs) (be_nat bs) = bs"
  by (metis be_fixed_def be_nat_def le_bytes_le_nat length_rev rev_rev_ident)

lemma be_nat_less: "be_nat bs < 256 ^ length bs"
  using le_nat_less [of "rev bs"] by (simp add: be_nat_def)

lemma be_nat_Nil [simp]: "be_nat [] = 0"
  by (simp add: be_nat_def)

lemma be_nat_snoc: "be_nat (bs @ [b]) = 256 * be_nat bs + unat b"
  by (simp add: be_nat_def)

lemma be_nat_Cons: "be_nat (b # bs) = 256 ^ length bs * unat b + be_nat bs"
  by (simp add: be_nat_def le_nat_append)

lemma be_nat_zeros [simp]: "be_nat (replicate k 0 @ bs) = be_nat bs"
  by (simp add: be_nat_def le_nat_append)

text \<open>Padding on the left with zeros is the fixed-width encoding of the same number.\<close>

lemma pad_eq_be_fixed:
  assumes "length bs \<le> k"
  shows "replicate (k - length bs) 0 @ bs = be_fixed k (be_nat bs)"
proof -
  have "be_fixed (length (replicate (k - length bs) 0 @ bs)) (be_nat (replicate (k - length bs) 0 @ bs))
      = replicate (k - length bs) 0 @ bs"
    by (rule be_fixed_be_nat)
  with assms show ?thesis by simp
qed

lemma be_nat_big_bytes [simp]: "be_nat (big_bytes n) = n"
proof (induction n rule: big_bytes.induct)
  case (1 n)
  then show ?case
    by (subst big_bytes.simps) (simp add: be_nat_snoc unat_byte_of_nat)
qed

lemma big_bytes_0 [simp]: "big_bytes 0 = []"
  by (simp add: big_bytes.simps)

lemma big_bytes_eq_Nil [simp]: "big_bytes n = [] \<longleftrightarrow> n = 0"
  by (subst big_bytes.simps) simp

lemma big_bytes_length: "length (big_bytes n) \<le> k \<longleftrightarrow> n < 256 ^ k"
proof (induction n arbitrary: k rule: big_bytes.induct)
  case (1 n)
  show ?case
  proof (cases "n = 0")
    case True
    then show ?thesis by simp
  next
    case False
    then have eq: "length (big_bytes n) = Suc (length (big_bytes (n div 256)))"
      by (subst big_bytes.simps) simp
    show ?thesis
    proof (cases k)
      case 0
      with False eq show ?thesis by simp
    next
      case (Suc j)
      have "length (big_bytes (n div 256)) \<le> j \<longleftrightarrow> n div 256 < 256 ^ j"
        using False by (rule "1")
      also have "\<dots> \<longleftrightarrow> n < 256 ^ j * 256"
        by (simp add: div_less_iff_less_mult)
      finally show ?thesis using eq Suc by (simp add: mult.commute)
    qed
  qed
qed

lemma big_bytes_hd: "n \<noteq> 0 \<Longrightarrow> hd (big_bytes n) \<noteq> 0"
proof (induction n rule: big_bytes.induct)
  case (1 n)
  show ?case
  proof (cases "n div 256 = 0")
    case True
    then have "n < 256" by (simp add: div_eq_0_iff)
    with "1.prems" have "(word_of_nat n :: byte) \<noteq> 0"
      by (metis mod_less unat_byte_of_nat unat_0)
    with True "1.prems" show ?thesis by (subst big_bytes.simps) simp
  next
    case False
    with "1" show ?thesis by (subst big_bytes.simps) simp
  qed
qed

lemma pad_big_bytes:
  assumes "length (big_bytes n) \<le> k"
  shows "replicate (k - length (big_bytes n)) 0 @ big_bytes n = be_fixed k n"
    and "replicate (k - length (big_bytes n)) 0 @ big_bytes n @ ys = be_fixed k n @ ys"
  using pad_eq_be_fixed [OF assms] by simp_all

lemma le_nat_put_u32: "le_nat (put_u32 v) = unat v"
proof -
  have "unat v < 256 ^ 4" using unsigned_less [of v] by simp
  then show ?thesis by (simp add: put_u32_def le_nat_le_bytes)
qed

lemma take_be_fixed_append [simp]: "take k (be_fixed k n @ xs) = be_fixed k n"
  by simp

lemma bit_len_le: "bit_len n \<le> k \<longleftrightarrow> n < 2 ^ k"
proof (induction n arbitrary: k rule: bit_len.induct)
  case (1 n)
  show ?case
  proof (cases "n = 0 \<or> k = 0")
    case True
    then show ?thesis by (subst bit_len.simps) auto
  next
    case False
    then obtain j where k: "k = Suc j" by (cases k) auto
    from False have "bit_len (n div 2) \<le> j \<longleftrightarrow> n div 2 < 2 ^ j" by (intro "1") auto
    also have "\<dots> \<longleftrightarrow> n < 2 ^ j * 2" by (simp add: div_less_iff_less_mult)
    finally show ?thesis using False k by (subst bit_len.simps) (simp add: mult.commute)
  qed
qed

text \<open>The bytes of a number are as many as its bits need: \<open>len(x.Bytes()) = (x.BitLen() + 7) / 8\<close>.\<close>

lemma length_big_bytes: "length (big_bytes n) = (bit_len n + 7) div 8"
proof (rule antisym)
  have iff: "length (big_bytes n) \<le> k \<longleftrightarrow> bit_len n \<le> 8 * k" for k
    by (simp add: big_bytes_length bit_len_le power_mult)
  have "bit_len n \<le> 8 * ((bit_len n + 7) div 8)" by linarith
  then show "length (big_bytes n) \<le> (bit_len n + 7) div 8" by (simp add: iff)
  have "bit_len n \<le> 8 * length (big_bytes n)" using iff [of "length (big_bytes n)"] by simp
  then show "(bit_len n + 7) div 8 \<le> length (big_bytes n)" by linarith
qed

text \<open>Writing and reading at an offset of a byte slice.\<close>

definition put_at :: "nat \<Rightarrow> byte list \<Rightarrow> byte list \<Rightarrow> byte list" where
  "put_at off bs out = take off out @ bs @ drop (off + length bs) out"

definition u32_at :: "nat \<Rightarrow> byte list \<Rightarrow> nat" where
  "u32_at off bs = le_nat (take 4 (drop off bs))"

section \<open>The contract of an encoder\<close>

text \<open>
  An encoder with a decoder that reads back what it wrote. It is interpreted for each wire
  format of the program (key blobs, DER signatures, base64, URL path segments).
\<close>

locale codec =
  fixes enc :: "'a \<Rightarrow> 'b"
    and dec :: "'b \<Rightarrow> 'a option"
    and valid :: "'a \<Rightarrow> bool"
  assumes dec_enc: "valid x \<Longrightarrow> dec (enc x) = Some x"
begin

lemma enc_inject:
  assumes "valid x" and "valid y" and "enc x = enc y"
  shows "x = y"
  using assms by (metis dec_enc option.inject)

end

end
