(* ===== verification/Runtime.thy ===== *)
theory Runtime
  imports Prelude
begin

text \<open>
  The Go runtime as the program sees it. The string functions of \<open>strings\<close> and
  \<open>strconv\<close> that the program calls are written out, as are the parts of the library in \<open>Encoding\<close>,
  \<open>Utf8\<close>, \<open>Utf16\<close>, \<open>File_Path\<close>, \<open>Nist_Curves\<close>, \<open>Duration\<close>, \<open>Json_Text\<close>, \<open>Net_Address\<close> and
  \<open>Sha256\<close>. What the source only calls and does not contain (the Unicode case tables, X.509 and PEM
  parsing, \<open>url.Parse\<close>) are the fields of the record \<open>go_rt\<close>: every
  definition that uses one takes the record as its first argument, and every theorem
  holds for all of them.
\<close>

section \<open>Data the runtime exchanges with the program\<close>

text \<open>A JSON document; a number keeps its literal, an object its order.\<close>

datatype json =
    JNull
  | JBool bool
  | JNum string
  | JStr string
  | JArr "json list"
  | JObj "(string \<times> json) list"

text \<open>
  \<open>crypto.PublicKey\<close> as the type switches of the program see it: an RSA key (modulus,
  exponent), an ECDSA key (\<open>Curve.Params().BitSize\<close>, X, Y), any other dynamic type (its
  \<open>%T\<close> name).
\<close>

datatype public_key =
    RSAKey nat int
  | ECKey nat nat nat
  | OtherKey string

record go_rt =
  rt_int_bits :: nat                       \<comment> \<open>the width of \<open>int\<close>: 64 on amd64, 32 on 386\<close>
  rt_lower :: "string \<Rightarrow> string"              \<comment> \<open>\<open>strings.ToLower\<close> outside ASCII\<close>
  rt_upper :: "string \<Rightarrow> string"              \<comment> \<open>\<open>strings.ToUpper\<close> outside ASCII\<close>
  rt_quote :: "string \<Rightarrow> string"              \<comment> \<open>\<open>strconv.Quote\<close> outside ASCII\<close>
  rt_fold :: "string \<Rightarrow> string"               \<comment> \<open>\<open>encoding/json\<close> key folding outside ASCII\<close>
  rt_pem :: "string \<Rightarrow> byte list option"      \<comment> \<open>\<open>pem.Decode\<close>, the first block's bytes\<close>
  rt_x509 :: "byte list \<Rightarrow> string + public_key" \<comment> \<open>\<open>x509.ParseCertificate\<close>, its public key\<close>
  rt_cert_pool :: "string \<Rightarrow> bool"            \<comment> \<open>\<open>AppendCertsFromPEM\<close> found a certificate\<close>
  rt_url :: "string \<Rightarrow> string + (string \<times> string)" \<comment> \<open>\<open>url.Parse\<close>: scheme and host\<close>

text \<open>
  What the process reads from the operating system: its environment (an unset variable reads
  as the empty string), files, executable, host, account and command line.
\<close>

datatype file_result = FileData string | FileNotExist | FileError string

record os_env =
  os_windows :: bool                          \<comment> \<open>\<open>runtime.GOOS == "windows"\<close>\<close>
  os_getenv :: "string \<Rightarrow> string"
  os_file :: "string \<Rightarrow> file_result"
  os_can_append :: "string \<Rightarrow> bool"         \<comment> \<open>\<open>os.OpenFile\<close> for appending succeeds\<close>
  os_executable :: "string option"
  os_hostname :: string
  os_username :: "string option"              \<comment> \<open>\<open>user.Current().Username\<close>\<close>
  os_args :: "string list"
  os_command_line :: "string option"          \<comment> \<open>\<open>windows.GetCommandLine\<close>, \<open>None\<close> for a null pointer\<close>
  os_decompose :: "string \<Rightarrow> string list option" \<comment> \<open>\<open>windows.DecomposeCommandLine\<close>\<close>

section \<open>Strings\<close>

definition string_bytes :: "string \<Rightarrow> byte list" where
  "string_bytes s = map (\<lambda>c. word_of_nat (of_char c)) s"

abbreviation ord :: "char \<Rightarrow> nat" where
  "ord c \<equiv> of_char c"

definition is_ascii :: "string \<Rightarrow> bool" where
  "is_ascii s = list_all (\<lambda>c. ord c < 128) s"

definition lower_char :: "char \<Rightarrow> char" where
  "lower_char c = (if 65 \<le> ord c \<and> ord c \<le> 90 then char_of (ord c + 32) else c)"

definition upper_char :: "char \<Rightarrow> char" where
  "upper_char c = (if 97 \<le> ord c \<and> ord c \<le> 122 then char_of (ord c - 32) else c)"

text \<open>Both functions have an ASCII fast path and fall back to the Unicode tables.\<close>

definition to_lower :: "go_rt \<Rightarrow> string \<Rightarrow> string" where
  "to_lower G s = (if is_ascii s then map lower_char s else rt_lower G s)"

definition to_upper :: "go_rt \<Rightarrow> string \<Rightarrow> string" where
  "to_upper G s = (if is_ascii s then map upper_char s else rt_upper G s)"

text \<open>\<open>strings.TrimSpace\<close>: the UTF-8 encodings of the code points \<open>unicode.IsSpace\<close> accepts.\<close>

definition bytes_string :: "nat list \<Rightarrow> string" where
  "bytes_string ns = map char_of ns"

definition space_runes :: "string list" where
  "space_runes = map bytes_string
     ([[9], [10], [11], [12], [13], [32], [194, 133], [194, 160], [225, 154, 128]]
      @ map (\<lambda>k. [226, 128, k]) [128..<139]
      @ [[226, 128, 168], [226, 128, 169], [226, 128, 175], [226, 129, 159], [227, 128, 128]])"

function trim_runes :: "string list \<Rightarrow> string \<Rightarrow> string" where
  "trim_runes rs s = (case find (\<lambda>r. r \<noteq> [] \<and> prefix r s) rs of
       None \<Rightarrow> s
     | Some r \<Rightarrow> trim_runes rs (drop (length r) s))"
  by pat_completeness auto
termination
  by (relation "measure (\<lambda>(rs, s). length s)") (auto simp: find_Some_iff prefix_def)

declare trim_runes.simps [simp del]

definition trim_space :: "string \<Rightarrow> string" where
  "trim_space s = rev (trim_runes (map rev space_runes) (rev (trim_runes space_runes s)))"

definition trim_right_char :: "char \<Rightarrow> string \<Rightarrow> string" where
  "trim_right_char c s = rev (dropWhile (\<lambda>x. x = c) (rev s))"

text \<open>\<open>strings.Cut\<close> and \<open>strings.Index\<close> for a one-byte separator, \<open>strings.Join\<close>.\<close>

definition cut_char :: "char \<Rightarrow> string \<Rightarrow> string \<times> string \<times> bool" where
  "cut_char c s = (case dropWhile (\<lambda>x. x \<noteq> c) s of
       [] \<Rightarrow> (s, '''', False)
     | _ # rest \<Rightarrow> (takeWhile (\<lambda>x. x \<noteq> c) s, rest, True))"

definition index_char :: "char \<Rightarrow> string \<Rightarrow> nat option" where
  "index_char c s = (if c \<in> set s then Some (length (takeWhile (\<lambda>x. x \<noteq> c) s)) else None)"

fun join_strings :: "string \<Rightarrow> string list \<Rightarrow> string" where
  "join_strings sep [] = ''''"
| "join_strings sep [x] = x"
| "join_strings sep (x # y # ys) = x @ sep @ join_strings sep (y # ys)"

text \<open>Decimal and hexadecimal digits; \<open>%d\<close> of an integer.\<close>

fun nat_string :: "nat \<Rightarrow> string" where
  "nat_string n = (if n < 10 then [char_of (48 + n)] else nat_string (n div 10) @ [char_of (48 + n mod 10)])"

declare nat_string.simps [simp del]

definition int_string :: "int \<Rightarrow> string" where
  "int_string i = (if i < 0 then ''-'' @ nat_string (nat (- i)) else nat_string (nat i))"

definition hex_digit :: "nat \<Rightarrow> char" where
  "hex_digit d = (if d < 10 then char_of (48 + d) else char_of (87 + d))"

definition hex_encode :: "byte list \<Rightarrow> string" where
  "hex_encode bs = concat (map (\<lambda>b. [hex_digit (unat b div 16), hex_digit (unat b mod 16)]) bs)"

text \<open>\<open>%q\<close>: \<open>strconv.Quote\<close>.\<close>

definition quote_char :: "char \<Rightarrow> string" where
  "quote_char c =
     (let n = ord c in
      if n = 34 \<or> n = 92 then [char_of (92::nat), c]
      else if n = 7 then [char_of (92::nat), CHR ''a'']
      else if n = 8 then [char_of (92::nat), CHR ''b'']
      else if n = 12 then [char_of (92::nat), CHR ''f'']
      else if n = 10 then [char_of (92::nat), CHR ''n'']
      else if n = 13 then [char_of (92::nat), CHR ''r'']
      else if n = 9 then [char_of (92::nat), CHR ''t'']
      else if n = 11 then [char_of (92::nat), CHR ''v'']
      else if n < 32 \<or> n = 127 then [char_of (92::nat), CHR ''x'', hex_digit (n div 16), hex_digit (n mod 16)]
      else [c])"

definition go_quote :: "go_rt \<Rightarrow> string \<Rightarrow> string" where
  "go_quote G s =
     (if is_ascii s then CHR 0x22 # concat (map quote_char s) @ [CHR 0x22] else rt_quote G s)"

section \<open>Lemmas\<close>

lemma cut_char_absent: "c \<notin> set s \<Longrightarrow> cut_char c s = (s, '''', False)"
proof -
  assume "c \<notin> set s"
  then have empty: "dropWhile (\<lambda>x. x \<noteq> c) s = []" by auto
  show ?thesis unfolding cut_char_def empty by simp
qed

lemma cut_char_present: "c \<notin> set k \<Longrightarrow> cut_char c (k @ c # v) = (k, v, True)"
proof -
  assume "c \<notin> set k"
  then have "dropWhile (\<lambda>x. x \<noteq> c) (k @ c # v) = c # v" "takeWhile (\<lambda>x. x \<noteq> c) (k @ c # v) = k"
    by (auto simp: dropWhile_append takeWhile_append)
  then show ?thesis by (simp add: cut_char_def)
qed

lemma cut_char_cases:
  obtains (absent) "c \<notin> set s" "cut_char c s = (s, '''', False)"
  | (present) k v where "s = k @ c # v" "c \<notin> set k" "cut_char c s = (k, v, True)"
proof (cases "c \<in> set s")
  case True
  then obtain k v where "s = k @ c # v" "c \<notin> set k" by (meson split_list_first)
  then show ?thesis by (metis cut_char_present present)
next
  case False
  then show ?thesis by (simp add: cut_char_absent absent)
qed

text \<open>A space rune holds no printable ASCII byte, so text that starts and ends with one is not trimmed.\<close>

lemma space_rune_bytes:
  "r \<in> set space_runes \<Longrightarrow> c \<in> set r \<Longrightarrow> ord c \<le> 32 \<or> 128 \<le> ord c"
  by (auto simp: space_runes_def bytes_string_def)

lemma trim_runes_none: "(\<And>r. r \<in> set rs \<Longrightarrow> r \<noteq> [] \<Longrightarrow> \<not> prefix r s) \<Longrightarrow> trim_runes rs s = s"
  by (subst trim_runes.simps) (auto split: option.splits simp: find_Some_iff)

lemma trim_space_id:
  assumes "s \<noteq> []" and "32 < ord (hd s)" "ord (hd s) < 128" and "32 < ord (last s)" "ord (last s) < 128"
  shows "trim_space s = s"
proof -
  have hd: "\<not> prefix r s" if "r \<in> set space_runes" "r \<noteq> []" for r
  proof
    assume "prefix r s"
    with that(2) have "hd s = hd r" by (auto simp: prefix_def)
    with that space_rune_bytes [of r "hd r"] assms show False by auto
  qed
  have last: "\<not> prefix r (rev s)" if mem: "r \<in> set (map rev space_runes)" and ne: "r \<noteq> []" for r
  proof
    assume "prefix r (rev s)"
    with ne have "last s = hd r" by (metis append_is_Nil_conv hd_append2 hd_rev prefix_def)
    moreover obtain q where "q \<in> set space_runes" and "r = rev q" using mem by auto
    moreover from \<open>r = rev q\<close> ne have "hd r \<in> set q" by (metis hd_in_set set_rev)
    ultimately show False using space_rune_bytes [of q "hd r"] assms by auto
  qed
  have "trim_runes space_runes s = s" by (rule trim_runes_none) (rule hd)
  moreover have "trim_runes (map rev space_runes) (rev s) = rev s" by (rule trim_runes_none) (rule last)
  ultimately show ?thesis by (simp add: trim_space_def)
qed

lemma nat_string_nonempty: "nat_string n \<noteq> []"
  by (subst nat_string.simps) simp

lemma int_string_nonempty: "int_string i \<noteq> []"
  by (simp add: int_string_def nat_string_nonempty)

lemma length_hex_encode: "length (hex_encode bs) = 2 * length bs"
  by (induction bs) (auto simp: hex_encode_def)

lemma hex_digit_inj: "a < 16 \<Longrightarrow> b < 16 \<Longrightarrow> hex_digit a = hex_digit b \<Longrightarrow> a = b"
proof -
  assume ab: "a < 16" "b < 16" and eq: "hex_digit a = hex_digit b"
  have "ord (hex_digit x) = (if x < 10 then 48 + x else 87 + x)" if "x < 16" for x
    using that by (simp add: hex_digit_def)
  with ab eq show ?thesis by (auto split: if_splits dest!: arg_cong [of _ _ ord])
qed

lemma hex_encode_inj: "hex_encode xs = hex_encode ys \<Longrightarrow> xs = ys"
proof (induction xs arbitrary: ys)
  case Nil
  then show ?case by (cases ys) (auto simp: hex_encode_def)
next
  case (Cons x xs)
  then obtain y zs where ys: "ys = y # zs" by (cases ys) (auto simp: hex_encode_def)
  from Cons.prems ys
  have "hex_digit (unat x div 16) = hex_digit (unat y div 16)"
    "hex_digit (unat x mod 16) = hex_digit (unat y mod 16)"
    and rest: "hex_encode xs = hex_encode zs"
    by (auto simp: hex_encode_def)
  then have "unat x div 16 = unat y div 16" "unat x mod 16 = unat y mod 16"
    using unat_byte_less [of x] unat_byte_less [of y] by (auto intro!: hex_digit_inj)
  then have "unat x = unat y" by (metis div_mult_mod_eq)
  then have "x = y" by (simp add: word_unat_eq_iff)
  with ys Cons.IH [OF rest] show ?case by simp
qed

end
