(* ===== verification/Encoding.thy ===== *)
theory Encoding
  imports Runtime
begin

text \<open>
  The two text encodings of the wire: \<open>base64.StdEncoding\<close> (digests and signatures) and
  \<open>url.PathEscape\<close> (the signer ID inside a URL). Each is interpreted as a \<open>codec\<close>: what is
  sent is read back unchanged, and distinct values are sent as distinct text.
\<close>

section \<open>Base64\<close>

definition b64_char :: "nat \<Rightarrow> char" where
  "b64_char n = (if n < 26 then char_of (65 + n) else if n < 52 then char_of (71 + n)
     else if n < 62 then char_of (n - 4) else if n = 62 then CHR ''+'' else CHR ''/'')"

definition b64_value :: "char \<Rightarrow> nat option" where
  "b64_value c = (let n = ord c in
     if 65 \<le> n \<and> n \<le> 90 then Some (n - 65)
     else if 97 \<le> n \<and> n \<le> 122 then Some (n - 71)
     else if 48 \<le> n \<and> n \<le> 57 then Some (n + 4)
     else if n = 43 then Some 62
     else if n = 47 then Some 63
     else None)"

fun b64_encode :: "byte list \<Rightarrow> string" where
  "b64_encode [] = ''''"
| "b64_encode [a] =
     [b64_char (unat a div 4), b64_char (unat a mod 4 * 16), CHR ''='', CHR ''='']"
| "b64_encode [a, b] =
     [b64_char (unat a div 4), b64_char (unat a mod 4 * 16 + unat b div 16),
      b64_char (unat b mod 16 * 4), CHR ''='']"
| "b64_encode (a # b # c # rest) =
     [b64_char (unat a div 4), b64_char (unat a mod 4 * 16 + unat b div 16),
      b64_char (unat b mod 16 * 4 + unat c div 64), b64_char (unat c mod 64)] @ b64_encode rest"

text \<open>The decoder skips line breaks, wants whole quads and allows padding in the last one only.\<close>

fun b64_quads :: "string \<Rightarrow> byte list option" where
  "b64_quads [] = Some []"
| "b64_quads (c1 # c2 # c3 # c4 # rest) =
     (case (b64_value c1, b64_value c2) of
        (Some v1, Some v2) \<Rightarrow>
          (let x = word_of_nat (v1 * 4 + v2 div 16) in
           if c4 = CHR ''='' \<and> rest = [] then
             (if c3 = CHR ''='' then Some [x]
              else (case b64_value c3 of None \<Rightarrow> None
                | Some v3 \<Rightarrow> Some [x, word_of_nat (v2 mod 16 * 16 + v3 div 4)]))
           else (case (b64_value c3, b64_value c4) of
               (Some v3, Some v4) \<Rightarrow>
                 map_option (\<lambda>bs. x # word_of_nat (v2 mod 16 * 16 + v3 div 4) #
                   word_of_nat (v3 mod 4 * 64 + v4) # bs) (b64_quads rest)
             | _ \<Rightarrow> None))
      | _ \<Rightarrow> None)"
| "b64_quads _ = None"

definition b64_decode :: "string \<Rightarrow> byte list option" where
  "b64_decode s = b64_quads (filter (\<lambda>c. ord c \<noteq> 10 \<and> ord c \<noteq> 13) s)"

lemma b64_value_char [simp]: "n < 64 \<Longrightarrow> b64_value (b64_char n) = Some n"
  by (simp add: b64_value_def b64_char_def Let_def) presburger

lemma b64_char_not_pad: "n < 64 \<Longrightarrow> b64_char n \<noteq> CHR ''=''"
proof
  assume "n < 64" and "b64_char n = CHR ''=''"
  then have "b64_value (CHR ''='') = Some n" by (metis b64_value_char)
  then show False by (simp add: b64_value_def)
qed

lemma b64_char_visible: "n < 64 \<Longrightarrow> ord (b64_char n) \<noteq> 10 \<and> ord (b64_char n) \<noteq> 13"
  by (auto simp: b64_char_def)

lemma word_of_nat_parts:
  "n = unat (b :: byte) \<Longrightarrow> (word_of_nat n :: byte) = b"
  by simp

text \<open>The four 6-bit digits of three bytes, in range.\<close>

lemma byte_div_less [simp]:
  fixes a :: byte
  shows "unat a div 4 < 64" "unat a div 16 < 16" "unat a div 64 < 4"
  using unat_byte_less [of a] by (simp_all add: less_mult_imp_div_less)

lemma b64_digit_less [simp]:
  fixes a b :: byte
  shows "unat a mod 4 * 16 + unat b div 16 < 64" "unat a mod 4 * 16 < 64"
    "unat a mod 16 * 4 + unat b div 64 < 64" "unat a mod 16 * 4 < 64" "unat a mod 64 < 64"
proof -
  have "unat a mod 4 < 4" "unat a mod 16 < 16" "unat b div 16 < 16" "unat b div 64 < 4"
    by simp_all
  then show "unat a mod 4 * 16 + unat b div 16 < 64" "unat a mod 4 * 16 < 64"
    "unat a mod 16 * 4 + unat b div 64 < 64" "unat a mod 16 * 4 < 64" "unat a mod 64 < 64"
    by (linarith | simp)+
qed

lemma b64_quads_encode: "b64_quads (b64_encode bs) = Some bs"
  by (induction bs rule: b64_encode.induct)
    (simp_all add: Let_def word_of_nat_parts b64_char_not_pad add.assoc [symmetric] del: of_nat_add of_nat_mult)

lemma b64_encode_visible: "c \<in> set (b64_encode bs) \<Longrightarrow> ord c \<noteq> 10 \<and> ord c \<noteq> 13"
  by (induction bs rule: b64_encode.induct) (auto simp: b64_char_visible)

lemma b64_decode_encode: "b64_decode (b64_encode bs) = Some bs"
proof -
  have "filter (\<lambda>c. ord c \<noteq> 10 \<and> ord c \<noteq> 13) (b64_encode bs) = b64_encode bs"
    by (rule filter_True) (auto dest: b64_encode_visible)
  then show ?thesis by (simp add: b64_decode_def b64_quads_encode)
qed

interpretation b64: codec b64_encode b64_decode "\<lambda>_. True"
  by unfold_locales (rule b64_decode_encode)

section \<open>URL path segments\<close>

definition segment_char :: "char \<Rightarrow> bool" where
  "segment_char c \<longleftrightarrow>
     (let n = ord c in 97 \<le> n \<and> n \<le> 122 \<or> 65 \<le> n \<and> n \<le> 90 \<or> 48 \<le> n \<and> n \<le> 57) \<or>
     c \<in> set ''-_.~$&+:=@''"

definition hex_upper :: "nat \<Rightarrow> char" where
  "hex_upper d = (if d < 10 then char_of (48 + d) else char_of (55 + d))"

definition PathEscape :: "string \<Rightarrow> string" where
  "PathEscape s = concat (map (\<lambda>c. if segment_char c then [c]
     else [CHR ''%'', hex_upper (ord c div 16), hex_upper (ord c mod 16)]) s)"

definition hex_value :: "char \<Rightarrow> nat option" where
  "hex_value c = (let n = ord c in
     if 48 \<le> n \<and> n \<le> 57 then Some (n - 48)
     else if 65 \<le> n \<and> n \<le> 70 then Some (n - 55)
     else if 97 \<le> n \<and> n \<le> 102 then Some (n - 87)
     else None)"

text \<open>How the server reads a segment: \<open>%XX\<close> is a byte.\<close>

fun path_unescape :: "string \<Rightarrow> string option" where
  "path_unescape [] = Some []"
| "path_unescape (c # rest) =
     (if c = CHR ''%'' then
        (case rest of
           h # l # rest' \<Rightarrow>
             (case (hex_value h, hex_value l) of
                (Some x, Some y) \<Rightarrow> map_option ((#) (char_of (16 * x + y))) (path_unescape rest')
              | _ \<Rightarrow> None)
         | _ \<Rightarrow> None)
      else map_option ((#) c) (path_unescape rest))"

lemma hex_value_upper [simp]: "n < 16 \<Longrightarrow> hex_value (hex_upper n) = Some n"
  by (simp add: hex_value_def hex_upper_def Let_def)

lemma ord_div_16: "ord c div 16 < 16"
proof -
  have "ord c < 256" by (rule nat_of_char_less_256)
  then show ?thesis by presburger
qed

lemma path_unescape_PathEscape: "path_unescape (PathEscape s) = Some s"
proof (induction s)
  case Nil
  then show ?case by (simp add: PathEscape_def)
next
  case (Cons c s)
  have "16 * (ord c div 16) + ord c mod 16 = ord c" by simp
  moreover have "segment_char c \<Longrightarrow> c \<noteq> CHR ''%''" by (auto simp: segment_char_def)
  ultimately show ?case using Cons ord_div_16 [of c] by (simp add: PathEscape_def)
qed

interpretation path: codec PathEscape path_unescape "\<lambda>_. True"
  by unfold_locales (rule path_unescape_PathEscape)

lemma hex_upper_segment: "n < 16 \<Longrightarrow> segment_char (hex_upper n)"
  by (simp add: segment_char_def hex_upper_def)

lemma PathEscape_chars: "c \<in> set (PathEscape s) \<Longrightarrow> segment_char c \<or> c = CHR ''%''"
proof -
  assume "c \<in> set (PathEscape s)"
  then obtain d where d: "c \<in> set (if segment_char d then [d]
      else [CHR ''%'', hex_upper (ord d div 16), hex_upper (ord d mod 16)])"
    unfolding PathEscape_def set_concat set_map by blast
  have "segment_char (hex_upper (ord d div 16))" "segment_char (hex_upper (ord d mod 16))"
    using ord_div_16 [of d] by (auto intro: hex_upper_segment)
  with d show ?thesis by (auto split: if_splits)
qed

lemma PathEscape_no_delimiter: "CHR ''/'' \<notin> set (PathEscape s)" "CHR ''?'' \<notin> set (PathEscape s)"
  using PathEscape_chars [of "CHR ''/''" s] PathEscape_chars [of "CHR ''?''" s]
  by (auto simp: segment_char_def)

end
