(* ===== verification/Utf8.thy ===== *)
theory Utf8
  imports Runtime
begin

text \<open>
  UTF-8 as \<open>unicode/utf8\<close> reads and writes it: \<open>RuneStart\<close>, the length of the first well-formed
  sequence of a string (\<open>DecodeRune\<close>), well-formed strings, and the encoding of a code point.
\<close>

section \<open>Reading\<close>

text \<open>\<open>utf8.RuneStart\<close>: not a continuation byte.\<close>

definition rune_start :: "char \<Rightarrow> bool" where
  "rune_start c \<longleftrightarrow> \<not> (128 \<le> ord c \<and> ord c < 192)"

text \<open>The length of the well-formed UTF-8 sequence at the start of a string.\<close>

definition continuation :: "char \<Rightarrow> bool" where
  "continuation c \<longleftrightarrow> 128 \<le> ord c \<and> ord c < 192"

definition second_byte :: "nat \<Rightarrow> char \<Rightarrow> bool" where
  "second_byte n c \<longleftrightarrow> continuation c \<and> (n = 224 \<longrightarrow> 160 \<le> ord c) \<and> (n = 237 \<longrightarrow> ord c < 160) \<and>
     (n = 240 \<longrightarrow> 144 \<le> ord c) \<and> (n = 244 \<longrightarrow> ord c < 144)"

fun first_rune :: "string \<Rightarrow> nat option" where
  "first_rune [] = None"
| "first_rune (c # s) =
     (let n = ord c in
      if n < 128 then Some 1
      else if 194 \<le> n \<and> n \<le> 223 then
        (case s of c1 # _ \<Rightarrow> if continuation c1 then Some 2 else None | _ \<Rightarrow> None)
      else if 224 \<le> n \<and> n \<le> 239 then
        (case s of c1 # c2 # _ \<Rightarrow> if second_byte n c1 \<and> continuation c2 then Some 3 else None | _ \<Rightarrow> None)
      else if 240 \<le> n \<and> n \<le> 244 then
        (case s of c1 # c2 # c3 # _ \<Rightarrow>
           if second_byte n c1 \<and> continuation c2 \<and> continuation c3 then Some 4 else None | _ \<Rightarrow> None)
      else None)"

lemma first_rune_bounds: "first_rune s = Some k \<Longrightarrow> 0 < k \<and> k \<le> 4 \<and> k \<le> length s"
  by (cases s) (auto simp: Let_def split: if_splits list.splits)

lemma first_rune_start: "first_rune s = Some k \<Longrightarrow> rune_start (s ! 0)"
  by (cases s) (auto simp: Let_def rune_start_def split: if_splits list.splits)

lemma first_rune_continuation:
  "first_rune s = Some k \<Longrightarrow> 0 < i \<Longrightarrow> i < k \<Longrightarrow> \<not> rune_start (s ! i)"
  by (cases s)
    (auto simp: Let_def rune_start_def second_byte_def continuation_def nth_Cons'
      split: if_splits list.splits)

lemma first_rune_take: "first_rune s = Some k \<Longrightarrow> k \<le> n \<Longrightarrow> first_rune (take n s) = Some k"
  by (cases s) (auto simp: Let_def take_Cons' split: if_splits list.splits)

function utf8_valid :: "string \<Rightarrow> bool" where
  "utf8_valid s = (s = [] \<or> (case first_rune s of None \<Rightarrow> False | Some k \<Rightarrow> utf8_valid (drop k s)))"
  by pat_completeness auto
termination
  by (relation "measure length") (auto dest: first_rune_bounds)

declare utf8_valid.simps [simp del]

lemma utf8_valid_Nil [simp]: "utf8_valid []"
  by (simp add: utf8_valid.simps)

lemma utf8_valid_take:
  "utf8_valid s \<Longrightarrow> n < length s \<Longrightarrow> rune_start (s ! n) \<Longrightarrow> utf8_valid (take n s)"
proof (induction s arbitrary: n rule: utf8_valid.induct)
  case (1 s)
  show ?case
  proof (cases "n = 0")
    case True
    then show ?thesis by simp
  next
    case False
    from "1.prems" obtain k where k: "first_rune s = Some k" and rest: "utf8_valid (drop k s)"
      by (subst (asm) utf8_valid.simps) (auto split: option.splits)
    have kn: "k \<le> n"
      using first_rune_continuation [OF k, of n] False "1.prems"(3) by (metis neq0_conv not_less)
    have "utf8_valid (take (n - k) (drop k s))"
      using "1.prems"(2,3) kn k rest by (intro "1.IH") auto
    then have "utf8_valid (drop k (take n s))" by (simp add: drop_take)
    moreover have "first_rune (take n s) = Some k" using k kn by (rule first_rune_take)
    ultimately show ?thesis by (subst utf8_valid.simps) simp
  qed
qed

lemma utf8_valid_near_start:
  "utf8_valid s \<Longrightarrow> n < length s \<Longrightarrow> \<exists>m \<le> n. n \<le> m + 3 \<and> rune_start (s ! m)"
proof (induction s arbitrary: n rule: utf8_valid.induct)
  case (1 s)
  from "1.prems" obtain k where k: "first_rune s = Some k" and rest: "utf8_valid (drop k s)"
    by (subst (asm) utf8_valid.simps) (auto split: option.splits)
  show ?case
  proof (cases "n < k")
    case True
    with first_rune_bounds [OF k] first_rune_start [OF k] show ?thesis
      by (intro exI [of _ 0]) auto
  next
    case False
    have "\<exists>m \<le> n - k. n - k \<le> m + 3 \<and> rune_start (drop k s ! m)"
      using "1.prems"(2) False k rest by (intro "1.IH") auto
    then obtain m where "m \<le> n - k" "n - k \<le> m + 3" "rune_start (s ! (k + m))"
      using first_rune_bounds [OF k] by auto
    with False show ?thesis by (intro exI [of _ "k + m"]) auto
  qed
qed

lemma first_rune_append: "first_rune s = Some k \<Longrightarrow> first_rune (take k s @ t) = Some k"
  by (cases s) (auto simp: Let_def split: if_splits list.splits)

lemma first_rune_ascii: "ord c < 128 \<Longrightarrow> first_rune (c # s) = Some 1"
  by simp

lemma first_rune_multi:
  assumes "first_rune (c # s) = Some k" and "\<not> ord c < 128" and "b \<in> set (take k (c # s))"
  shows "128 \<le> ord b"
  using assms by (auto simp: Let_def second_byte_def continuation_def split: if_splits list.splits)

lemma utf8_valid_ascii: "is_ascii s \<Longrightarrow> utf8_valid s"
proof (induction s)
  case (Cons c s)
  then show ?case by (subst utf8_valid.simps) (simp add: is_ascii_def)
qed simp

declare first_rune.simps(2) [simp del]

section \<open>Writing\<close>

text \<open>\<open>utf8.EncodeRune\<close> of a code point that is no surrogate, and U+FFFD, which stands for text that is
  not UTF-8.\<close>

definition encode_rune :: "nat \<Rightarrow> string" where
  "encode_rune n =
     (if n < 0x80 then bytes_string [n]
      else if n < 0x800 then bytes_string [0xC0 + n div 64, 0x80 + n mod 64]
      else if n < 0x10000 then bytes_string [0xE0 + n div 4096, 0x80 + n div 64 mod 64, 0x80 + n mod 64]
      else bytes_string [0xF0 + n div 262144, 0x80 + n div 4096 mod 64, 0x80 + n div 64 mod 64, 0x80 + n mod 64])"

definition replacement :: string where
  "replacement = bytes_string [0xEF, 0xBF, 0xBD]"

end
