(* ===== verification/Errors.thy ===== *)
theory Errors
  imports Runtime
begin

text \<open>
  \<open>internal/infisical/errors.go\<close>: the error values of the engine. A Go \<open>error\<close> is a
  value of the datatype \<open>go_error\<close>, whose constructors are the error types the program
  declares, the \<open>fmt.Errorf\<close> errors it builds (with and without \<open>%w\<close>), the sentinel
  \<open>errBadHandle\<close> of \<open>cmd/ksp\<close>, and the errors of the standard library it passes on.
  \<open>errors.As\<close> and \<open>errors.Is\<close> search the \<open>Unwrap\<close> chain (\<open>error_chain\<close>).

  The locale \<open>transparent_wrapper\<close> is the contract of an error type that adds a message to
  the error it carries and stays out of the way of \<open>errors.As\<close>; the four approval
  outcomes are interpretations of it, and whatever is proved from it (the HTTP status stays
  visible, here and in the status mapping of the provider) holds for each of them.
\<close>

section \<open>Error values\<close>

record api_error =
  ae_Operation :: string
  ae_StatusCode :: int
  ae_Message :: string
  ae_Code :: string
  ae_HasPendingRequest :: bool

datatype go_error =
    APIError api_error
  | RequestError string go_error
  | ApprovalRequestOpenedError go_error string string
  | ApprovalRequestPendingError go_error
  | ApprovalNotConfiguredError go_error
  | ApprovalRequestFailedError go_error go_error
  | ErrBadHandle
  | Errorf string
  | WrapErrorf string go_error
  | StdError string

type_synonym 'a result = "go_error + 'a"

definition ErrorCodeApprovalRequired :: string where
  "ErrorCodeApprovalRequired = ''ApprovalRequired''"

definition IsApprovalRequired :: "api_error \<Rightarrow> bool" where
  "IsApprovalRequired e \<longleftrightarrow> ae_StatusCode e = 403 \<and> ae_Code e = ErrorCodeApprovalRequired"

text \<open>The \<open>Error\<close> methods.\<close>

primrec error_text :: "go_error \<Rightarrow> string" where
  "error_text (APIError e) =
     ae_Operation e @ '' failed: HTTP '' @ int_string (ae_StatusCode e) @ '': '' @ ae_Message e"
| "error_text (RequestError operation err) = operation @ '' failed: '' @ error_text err"
| "error_text (ApprovalRequestOpenedError err requestID status) =
     error_text err @ '' (approval request '' @ requestID @ '' is '' @ status @ '')''"
| "error_text (ApprovalRequestPendingError err) =
     error_text err @ '' (an approval request is already awaiting review)''"
| "error_text (ApprovalNotConfiguredError err) =
     error_text err @ '' (no approval block is configured, so no request was opened)''"
| "error_text (ApprovalRequestFailedError err requestErr) =
     error_text err @ '' (opening an approval request also failed: '' @ error_text requestErr @ '')''"
| "error_text ErrBadHandle = ''invalid handle''"
| "error_text (Errorf message) = message"
| "error_text (WrapErrorf message err) = message"
| "error_text (StdError message) = message"

text \<open>The \<open>Unwrap\<close> methods; an \<open>APIError\<close> has none, and \<open>RequestErr\<close> is not unwrapped.\<close>

fun unwrap :: "go_error \<Rightarrow> go_error option" where
  "unwrap (RequestError operation err) = Some err"
| "unwrap (ApprovalRequestOpenedError err requestID status) = Some err"
| "unwrap (ApprovalRequestPendingError err) = Some err"
| "unwrap (ApprovalNotConfiguredError err) = Some err"
| "unwrap (ApprovalRequestFailedError err requestErr) = Some err"
| "unwrap (WrapErrorf message err) = Some err"
| "unwrap _ = None"

section \<open>\<open>errors.As\<close> and \<open>errors.Is\<close>\<close>

text \<open>The errors visited, outermost first.\<close>

function error_chain :: "go_error \<Rightarrow> go_error list" where
  "error_chain e = (case unwrap e of None \<Rightarrow> [e] | Some e' \<Rightarrow> e # error_chain e')"
  by pat_completeness auto
termination
  by (relation "measure size") (auto elim!: unwrap.elims)

declare error_chain.simps [simp del]

fun is_api :: "go_error \<Rightarrow> bool" where
  "is_api (APIError e) = True"
| "is_api _ = False"

fun is_request_error :: "go_error \<Rightarrow> bool" where
  "is_request_error (RequestError operation err) = True"
| "is_request_error _ = False"

fun is_opened :: "go_error \<Rightarrow> bool" where
  "is_opened (ApprovalRequestOpenedError err requestID status) = True"
| "is_opened _ = False"

fun is_pending :: "go_error \<Rightarrow> bool" where
  "is_pending (ApprovalRequestPendingError err) = True"
| "is_pending _ = False"

fun is_not_configured :: "go_error \<Rightarrow> bool" where
  "is_not_configured (ApprovalNotConfiguredError err) = True"
| "is_not_configured _ = False"

fun is_request_failed :: "go_error \<Rightarrow> bool" where
  "is_request_failed (ApprovalRequestFailedError err requestErr) = True"
| "is_request_failed _ = False"

definition errors_as :: "(go_error \<Rightarrow> bool) \<Rightarrow> go_error \<Rightarrow> go_error option" where
  "errors_as p e = find p (error_chain e)"

definition as_api :: "go_error \<Rightarrow> api_error option" where
  "as_api e = (case errors_as is_api e of Some (APIError a) \<Rightarrow> Some a | _ \<Rightarrow> None)"

definition is_bad_handle :: "go_error \<Rightarrow> bool" where
  "is_bad_handle e \<longleftrightarrow> errors_as (\<lambda>x. x = ErrBadHandle) e \<noteq> None"

definition IsApprovalOutcome :: "go_error \<Rightarrow> bool" where
  "IsApprovalOutcome err \<longleftrightarrow>
     errors_as is_opened err \<noteq> None \<or> errors_as is_pending err \<noteq> None \<or>
     errors_as is_not_configured err \<noteq> None \<or> errors_as is_request_failed err \<noteq> None"

lemma error_chain_leaf: "unwrap e = None \<Longrightarrow> error_chain e = [e]"
  by (subst error_chain.simps) simp

lemma error_chain_unwrap: "unwrap e = Some e' \<Longrightarrow> error_chain e = e # error_chain e'"
  by (subst error_chain.simps) simp

lemma errors_as_leaf: "unwrap e = None \<Longrightarrow> errors_as p e = (if p e then Some e else None)"
  by (simp add: errors_as_def error_chain_leaf)

lemma errors_as_unwrap:
  "unwrap e = Some e' \<Longrightarrow> errors_as p e = (if p e then Some e else errors_as p e')"
  by (simp add: errors_as_def error_chain_unwrap)

text \<open>One equation per constructor: \<open>errors.As\<close> computes by simplification.\<close>

lemma errors_as_simps [simp]:
  "errors_as p (APIError a) = (if p (APIError a) then Some (APIError a) else None)"
  "errors_as p (RequestError op e) =
     (if p (RequestError op e) then Some (RequestError op e) else errors_as p e)"
  "errors_as p (ApprovalRequestOpenedError e i s) =
     (if p (ApprovalRequestOpenedError e i s) then Some (ApprovalRequestOpenedError e i s) else errors_as p e)"
  "errors_as p (ApprovalRequestPendingError e) =
     (if p (ApprovalRequestPendingError e) then Some (ApprovalRequestPendingError e) else errors_as p e)"
  "errors_as p (ApprovalNotConfiguredError e) =
     (if p (ApprovalNotConfiguredError e) then Some (ApprovalNotConfiguredError e) else errors_as p e)"
  "errors_as p (ApprovalRequestFailedError e r) =
     (if p (ApprovalRequestFailedError e r) then Some (ApprovalRequestFailedError e r) else errors_as p e)"
  "errors_as p ErrBadHandle = (if p ErrBadHandle then Some ErrBadHandle else None)"
  "errors_as p (Errorf m) = (if p (Errorf m) then Some (Errorf m) else None)"
  "errors_as p (WrapErrorf m e) = (if p (WrapErrorf m e) then Some (WrapErrorf m e) else errors_as p e)"
  "errors_as p (StdError m) = (if p (StdError m) then Some (StdError m) else None)"
  by (simp_all add: errors_as_leaf errors_as_unwrap)

lemma as_api_simps [simp]:
  "as_api (APIError a) = Some a"
  "as_api (RequestError op e) = as_api e"
  "as_api (ApprovalRequestOpenedError e i s) = as_api e"
  "as_api (ApprovalRequestPendingError e) = as_api e"
  "as_api (ApprovalNotConfiguredError e) = as_api e"
  "as_api (ApprovalRequestFailedError e r) = as_api e"
  "as_api ErrBadHandle = None"
  "as_api (Errorf m) = None"
  "as_api (WrapErrorf m e) = as_api e"
  "as_api (StdError m) = None"
  by (simp_all add: as_api_def)

lemma is_bad_handle_simps [simp]:
  "is_bad_handle (APIError a) = False"
  "is_bad_handle (RequestError op e) = is_bad_handle e"
  "is_bad_handle (ApprovalRequestOpenedError e i s) = is_bad_handle e"
  "is_bad_handle (ApprovalRequestPendingError e) = is_bad_handle e"
  "is_bad_handle (ApprovalNotConfiguredError e) = is_bad_handle e"
  "is_bad_handle (ApprovalRequestFailedError e r) = is_bad_handle e"
  "is_bad_handle ErrBadHandle = True"
  "is_bad_handle (Errorf m) = False"
  "is_bad_handle (WrapErrorf m e) = is_bad_handle e"
  "is_bad_handle (StdError m) = False"
  by (simp_all add: is_bad_handle_def)

text \<open>A chain ends in one leaf, so it carries an API error or the sentinel, never both.\<close>

lemma as_api_not_bad_handle: "as_api e = Some a \<Longrightarrow> \<not> is_bad_handle e"
  by (induction e) auto

section \<open>The contract of a wrapping error\<close>

locale transparent_wrapper =
  fixes wrap :: "go_error \<Rightarrow> go_error"
  assumes unwrap_wrap: "unwrap (wrap e) = Some e"
    and wrap_not_api: "\<not> is_api (wrap e)"
    and wrap_not_bad: "wrap e \<noteq> ErrBadHandle"
begin

lemma errors_as_wrap: "errors_as p (wrap e) = (if p (wrap e) then Some (wrap e) else errors_as p e)"
  by (simp add: errors_as_unwrap unwrap_wrap)

lemma as_api_wrap: "as_api (wrap e) = as_api e"
  by (simp add: as_api_def errors_as_wrap wrap_not_api)

lemma is_bad_handle_wrap: "is_bad_handle (wrap e) = is_bad_handle e"
  by (simp add: is_bad_handle_def errors_as_wrap wrap_not_bad)

end

text \<open>A wrapper whose own type is one of the approval outcomes.\<close>

locale approval_outcome = transparent_wrapper +
  assumes outcome: "is_opened (wrap e) \<or> is_pending (wrap e) \<or> is_not_configured (wrap e) \<or> is_request_failed (wrap e)"
begin

lemma IsApprovalOutcome_wrap: "IsApprovalOutcome (wrap e)"
  using outcome [of e] by (auto simp: IsApprovalOutcome_def errors_as_wrap)

end

interpretation opened: approval_outcome "\<lambda>e. ApprovalRequestOpenedError e requestID status"
  for requestID status
  by unfold_locales auto

interpretation pending: approval_outcome ApprovalRequestPendingError
  by unfold_locales auto

interpretation not_configured: approval_outcome ApprovalNotConfiguredError
  by unfold_locales auto

interpretation request_failed: approval_outcome "\<lambda>e. ApprovalRequestFailedError e requestErr"
  for requestErr
  by unfold_locales auto

interpretation request_error: transparent_wrapper "RequestError operation"
  for operation
  by unfold_locales auto

interpretation wrap_errorf: transparent_wrapper "WrapErrorf message"
  for message
  by unfold_locales auto

end
