(* ===== verification/Float64.thy ===== *)
theory Float64
  imports Prelude
begin

text \<open>
  The arithmetic on \<open>float64\<close> that \<open>time.ParseDuration\<close> needs: products and quotients of
  non-negative numbers, rounded to 53 bits, half to even. A number is a fraction with the
  denominator a power of two. The exponent is not bounded: where it would leave the range of
  \<open>float64\<close> here (a scale above 10 ^ 308), a quotient is zero, infinitely small or a subnormal
  number in Go, and truncates to zero in both.
\<close>

type_synonym float64 = "nat \<times> nat"

text \<open>The nearest integer to a fraction, the even one of two.\<close>

definition round_even :: "nat \<Rightarrow> nat \<Rightarrow> nat" where
  "round_even n d =
     (let q = n div d; r = n mod d in
      if d < 2 * r \<or> (2 * r = d \<and> odd q) then Suc q else q)"

text \<open>The power of two that scales a fraction to an integral part of 53 bits.\<close>

definition float_shift :: "nat \<Rightarrow> nat \<Rightarrow> int" where
  "float_shift n d =
     (let s = 53 - (int (bit_len n) - int (bit_len d)) in
      if 2 ^ 53 * (d * 2 ^ nat (- s)) \<le> n * 2 ^ nat s then s - 1 else s)"

definition float_of :: "nat \<Rightarrow> nat \<Rightarrow> float64" where
  "float_of n d =
     (if n = 0 then (0, 1)
      else let s = float_shift n d; m = round_even (n * 2 ^ nat s) (d * 2 ^ nat (- s))
        in (m * 2 ^ nat (- s), 2 ^ nat s))"

definition float_mult :: "float64 \<Rightarrow> float64 \<Rightarrow> float64" where
  "float_mult a b = float_of (fst a * fst b) (snd a * snd b)"

definition float_div :: "float64 \<Rightarrow> float64 \<Rightarrow> float64" where
  "float_div a b = float_of (fst a * snd b) (snd a * fst b)"

text \<open>\<open>uint64(x)\<close>: towards zero.\<close>

definition float_trunc :: "float64 \<Rightarrow> nat" where
  "float_trunc a = fst a div snd a"

section \<open>Rounding\<close>

lemma round_even_exact: "0 < d \<Longrightarrow> round_even (q * d) d = q"
  by (simp add: round_even_def)

lemma round_even_near:
  assumes "0 < d"
  shows "2 * n \<le> 2 * round_even n d * d + d" and "2 * round_even n d * d \<le> 2 * n + d"
proof -
  define q r where "q = n div d" and "r = n mod d"
  then have n: "n = q * d + r" and r: "r < d" using assms by simp_all
  have round: "round_even n d = (if d < 2 * r \<or> (2 * r = d \<and> odd q) then Suc q else q)"
    by (simp add: round_even_def q_def r_def Let_def)
  show "2 * n \<le> 2 * round_even n d * d + d" "2 * round_even n d * d \<le> 2 * n + d"
    unfolding round unfolding n using r by (auto simp: algebra_simps)
qed

lemma float_examples:
  "float_of 1 10 = (0x1999999999999A, 2 ^ 56)" "float_of 3 2 = (3 * 2 ^ 51, 2 ^ 52)"
  "float_of (2 ^ 53 + 1) 1 = (2 ^ 53, 1)" "float_of (2 ^ 53 + 3) 1 = (2 ^ 53 + 4, 1)"
  by (simp_all add: float_of_def float_shift_def round_even_def bit_len.simps Let_def)

end
