(* ===== verification/Sample_Runtime.thy ===== *)
theory Sample_Runtime
  imports Runtime
begin

text \<open>
  A concrete runtime, on which theorems are evaluated. The library functions are replaced by small
  total functions; nothing is proved about these values beyond what an evaluation needs.
\<close>

definition sample_rt :: go_rt where
  "sample_rt =
     \<lparr>rt_int_bits = 64, rt_lower = id, rt_upper = id, rt_quote = id, rt_fold = id,
      rt_pem = (\<lambda>s. if s = '''' then None else Some (string_bytes s)),
      rt_x509 = (\<lambda>bs. if bs = string_bytes ''P256'' then Inr (ECKey 256 1 2) else Inr (RSAKey 3233 17)),
      rt_cert_pool = (\<lambda>_. True),
      rt_url = (\<lambda>u. Inr (''https'', u))\<rparr>"

end
