(* ===== verification/Duration.thy ===== *)
theory Duration
  imports Errors Float64 Sample_Runtime
begin

text \<open>
  \<open>parseApprovalDuration\<close> of \<open>internal/infisical/session.go\<close>, with \<open>strconv.Atoi\<close> and
  \<open>time.ParseDuration\<close> written out. A \<open>time.Duration\<close> is an \<open>int\<close> of nanoseconds in the
  \<open>int64\<close> range; a multiplication wraps.
\<close>

section \<open>Units\<close>

definition Second :: int where
  "Second = 1000000000"

definition Minute :: int where
  "Minute = 60 * Second"

definition Hour :: int where
  "Hour = 60 * Minute"

lemmas duration_units = Second_def Minute_def Hour_def

section \<open>\<open>strconv.Atoi\<close>\<close>

definition is_digit :: "char \<Rightarrow> bool" where
  "is_digit c \<longleftrightarrow> 48 \<le> ord c \<and> ord c \<le> 57"

definition digits_value :: "nat \<Rightarrow> string \<Rightarrow> nat" where
  "digits_value acc s = foldl (\<lambda>x c. 10 * x + (ord c - 48)) acc s"

definition split_sign :: "string \<Rightarrow> bool \<times> string" where
  "split_sign s = (case s of
       [] \<Rightarrow> (False, [])
     | c # r \<Rightarrow> if c = CHR ''-'' then (True, r) else if c = CHR ''+'' then (False, r) else (False, s))"

definition int_range :: "go_rt \<Rightarrow> int \<Rightarrow> bool" where
  "int_range G i \<longleftrightarrow> - (2 ^ (rt_int_bits G - 1)) \<le> i \<and> i < 2 ^ (rt_int_bits G - 1)"

definition Atoi :: "go_rt \<Rightarrow> string \<Rightarrow> int option" where
  "Atoi G s =
     (let (neg, ds) = split_sign s;
          v = (if neg then - int (digits_value 0 ds) else int (digits_value 0 ds))
      in if ds = [] \<or> \<not> list_all is_digit ds \<or> \<not> int_range G v then None else Some v)"

section \<open>\<open>time.ParseDuration\<close>\<close>

fun leading_int :: "nat \<Rightarrow> string \<Rightarrow> (nat \<times> string) option" where
  "leading_int x [] = Some (x, [])"
| "leading_int x (c # s) =
     (if \<not> is_digit c then Some (x, c # s)
      else if 2 ^ 63 div 10 < x then None
      else let x' = 10 * x + (ord c - 48) in
        if 2 ^ 63 < x' then None else leading_int x' s)"

text \<open>The scale of a fraction is a \<open>float64\<close>.\<close>

fun leading_fraction :: "nat \<Rightarrow> float64 \<Rightarrow> bool \<Rightarrow> string \<Rightarrow> nat \<times> float64 \<times> string" where
  "leading_fraction x scale overflow [] = (x, scale, [])"
| "leading_fraction x scale overflow (c # s) =
     (if \<not> is_digit c then (x, scale, c # s)
      else if overflow then leading_fraction x scale True s
      else if (2 ^ 63 - 1) div 10 < x then leading_fraction x scale True s
      else let y = 10 * x + (ord c - 48) in
        if 2 ^ 63 < y then leading_fraction x scale True s
        else leading_fraction y (float_mult scale (10, 1)) False s)"

definition duration_unit :: "string \<Rightarrow> nat option" where
  "duration_unit u =
     (if u = ''ns'' then Some 1
      else if u = ''us'' \<or> u = bytes_string [194, 181, 115] \<or> u = bytes_string [206, 188, 115] then Some 1000
      else if u = ''ms'' then Some 1000000
      else if u = ''s'' then Some 1000000000
      else if u = ''m'' then Some 60000000000
      else if u = ''h'' then Some 3600000000000
      else None)"

text \<open>\<open>uint64(float64(f) * (float64(unit) / scale))\<close>\<close>

definition fraction_value :: "nat \<Rightarrow> float64 \<Rightarrow> nat \<Rightarrow> nat" where
  "fraction_value f scale unit = float_trunc (float_mult (float_of f 1) (float_div (float_of unit 1) scale))"

text \<open>One number with its unit: nanoseconds and the rest of the string.\<close>

definition duration_component :: "string \<Rightarrow> string + (nat \<times> string)" where
  "duration_component s =
     (let invalid = Inl ''time: invalid duration'' in
      if s = [] \<or> \<not> (hd s = CHR ''.'' \<or> is_digit (hd s)) then invalid
      else case leading_int 0 s of
          None \<Rightarrow> invalid
        | Some (v, s1) \<Rightarrow>
            (let pre = (length s1 \<noteq> length s);
                 (f, scale, s2, post) =
                   (if s1 \<noteq> [] \<and> hd s1 = CHR ''.'' then
                      (let (f, scale, rem) = leading_fraction 0 (1, 1) False (tl s1)
                       in (f, scale, rem, length rem \<noteq> length (tl s1)))
                    else (0, (1, 1), s1, False));
                 u = takeWhile (\<lambda>c. c \<noteq> CHR ''.'' \<and> \<not> is_digit c) s2;
                 s3 = dropWhile (\<lambda>c. c \<noteq> CHR ''.'' \<and> \<not> is_digit c) s2
             in if \<not> pre \<and> \<not> post then invalid
                else if u = [] then Inl ''time: missing unit in duration''
                else case duration_unit u of
                    None \<Rightarrow> Inl ''time: unknown unit in duration''
                  | Some unit \<Rightarrow>
                      if 2 ^ 63 div unit < v then invalid
                      else if 0 < f then
                        (let v2 = (v * unit + fraction_value f scale unit) mod 2 ^ 64 in
                         if 2 ^ 63 < v2 then invalid else Inr (v2, s3))
                      else Inr (v * unit, s3)))"

lemma leading_int_length: "leading_int x s = Some (v, r) \<Longrightarrow> length r \<le> length s"
  by (induction x s arbitrary: v r rule: leading_int.induct) (auto simp: Let_def le_SucI split: if_splits)

lemma leading_fraction_length: "leading_fraction x k b s = (v, sc, r) \<Longrightarrow> length r \<le> length s"
  by (induction x k b s arbitrary: v sc r rule: leading_fraction.induct)
    (auto simp: Let_def le_SucI split: if_splits)

lemma duration_component_length:
  assumes "duration_component s = Inr (v, r)"
  shows "length r < length s"
proof -
  have strict: "length (dropWhile P q) < n" if "takeWhile P q \<noteq> []" "length q \<le> n" for P q n
  proof -
    have "length (takeWhile P q @ dropWhile P q) = length q" by (simp only: takeWhile_dropWhile_id)
    moreover have "0 < length (takeWhile P q)" using that(1) by simp
    ultimately show ?thesis using that(2) by (simp only: length_append)
  qed
  show ?thesis
    using assms unfolding duration_component_def Let_def
    by (force split: if_splits option.splits prod.splits
        dest!: leading_int_length leading_fraction_length intro!: strict)
qed

function duration_loop :: "nat \<Rightarrow> string \<Rightarrow> string + nat" where
  "duration_loop d s =
     (if s = [] then Inr d
      else case duration_component s of
          Inl e \<Rightarrow> Inl e
        | Inr (v, rest) \<Rightarrow>
            (let d' = (d + v) mod 2 ^ 64 in
             if 2 ^ 63 < d' then Inl ''time: invalid duration'' else duration_loop d' rest))"
  by pat_completeness auto
termination
  by (relation "measure (\<lambda>(d, s). length s)") (auto dest: duration_component_length)

declare duration_loop.simps [simp del]

definition ParseDuration :: "string \<Rightarrow> int result" where
  "ParseDuration s =
     (let (neg, s1) = split_sign s in
      if s1 = ''0'' then Inr 0
      else if s1 = [] then Inl (StdError ''time: invalid duration'')
      else case duration_loop 0 s1 of
          Inl e \<Rightarrow> Inl (StdError e)
        | Inr d \<Rightarrow>
            if neg then Inr (- int d)
            else if 2 ^ 63 - 1 < d then Inl (StdError ''time: invalid duration'')
            else Inr (int d))"

section \<open>\<open>parseApprovalDuration\<close>\<close>

definition parseApprovalDuration :: "go_rt \<Rightarrow> string \<Rightarrow> int result" where
  "parseApprovalDuration G duration =
     (if suffix ''d'' duration then
        (case Atoi G (take (length duration - 1) duration) of
           None \<Rightarrow> Inl (Errorf (''invalid duration: '' @ duration))
         | Some count \<Rightarrow> Inr (wrap64 (wrap64 (count * 24) * Hour)))
      else ParseDuration duration)"

section \<open>Decimal numerals\<close>

lemma digits_value_Nil [simp]: "digits_value acc [] = acc"
  by (simp add: digits_value_def)

lemma digits_value_Cons [simp]: "digits_value acc (c # s) = digits_value (10 * acc + (ord c - 48)) s"
  by (simp add: digits_value_def)

lemma digits_value_snoc [simp]: "digits_value acc (s @ [c]) = 10 * digits_value acc s + (ord c - 48)"
  by (simp add: digits_value_def)

lemma digits_value_ge: "acc \<le> digits_value acc s"
proof (induction s arbitrary: acc)
  case Nil
  then show ?case by simp
next
  case (Cons c s)
  have "acc \<le> 10 * acc + (ord c - 48)" by simp
  also have "\<dots> \<le> digits_value (10 * acc + (ord c - 48)) s" by (rule Cons.IH)
  finally show ?case by simp
qed

lemma is_digit_char: "(d :: nat) < 10 \<Longrightarrow> is_digit (char_of (48 + d))"
  by (simp add: is_digit_def)

lemma nat_string_digits: "list_all is_digit (nat_string n)"
proof (induction n rule: nat_string.induct)
  case (1 n)
  then show ?case by (subst nat_string.simps) (simp add: is_digit_char)
qed

lemma digits_value_nat_string: "digits_value 0 (nat_string n) = n"
proof (induction n rule: nat_string.induct)
  case (1 n)
  have "48 + n mod 10 < 256" by (rule order.strict_trans [of _ 58]) simp_all
  with 1 show ?case by (subst nat_string.simps) simp
qed

lemma split_sign_digit: "s \<noteq> [] \<Longrightarrow> is_digit (hd s) \<Longrightarrow> split_sign s = (False, s)"
  by (cases s) (auto simp: split_sign_def is_digit_def)

lemma nat_string_hd: "is_digit (hd (nat_string n @ s))"
  using nat_string_digits [of n] nat_string_nonempty [of n] by (cases "nat_string n") auto

lemma Atoi_nat_string: "int_range G (int n) \<Longrightarrow> Atoi G (nat_string n) = Some (int n)"
  using nat_string_hd [of n "[]"]
  by (simp add: Atoi_def split_sign_digit nat_string_nonempty nat_string_digits digits_value_nat_string Let_def)

lemma leading_int_digits:
  assumes "list_all is_digit ds" and "digits_value x ds \<le> 2 ^ 63"
    and "r = [] \<or> \<not> is_digit (hd r)"
  shows "leading_int x (ds @ r) = Some (digits_value x ds, r)"
  using assms
proof (induction ds arbitrary: x)
  case Nil
  then show ?case by (cases r) auto
next
  case (Cons c ds)
  let ?x = "10 * x + (ord c - 48)"
  have "?x \<le> digits_value ?x ds" by (rule digits_value_ge)
  with Cons.prems have le: "?x \<le> 2 ^ 63" by simp
  then have "10 * x \<le> 2 ^ 63" by linarith
  then have "\<not> 2 ^ 63 div 10 < x" by linarith
  with le Cons show ?case by (simp add: Let_def)
qed

text \<open>A numeral followed by one unit letter.\<close>

lemma duration_loop_unit:
  assumes u: "duration_unit [u] = Some k" and lt: "n * k < 2 ^ 63"
  shows "duration_loop 0 (nat_string n @ [u]) = Inr (n * k)"
proof -
  from u have k: "0 < k" and nd: "\<not> is_digit u" and dot: "u \<noteq> CHR ''.''"
    by (auto simp: duration_unit_def is_digit_def bytes_string_def split: if_splits)
  from k have "n \<le> n * k" by simp
  with lt have "n \<le> 2 ^ 63" by linarith
  with nd have li: "leading_int 0 (nat_string n @ [u]) = Some (n, [u])"
    using leading_int_digits [of "nat_string n" 0 "[u]"]
    by (simp add: nat_string_digits digits_value_nat_string)
  have "n \<le> 2 ^ 63 div k" using lt k by (simp add: less_eq_div_iff_mult_less_eq)
  then have "duration_component (nat_string n @ [u]) = Inr (n * k, [])"
    using li nat_string_hd [of n "[u]"] u nd dot nat_string_nonempty [of n]
    by (simp add: duration_component_def Let_def)
  with lt show ?thesis
    by (subst duration_loop.simps) (simp add: nat_string_nonempty Let_def duration_loop.simps)
qed

lemma ParseDuration_unit:
  assumes "duration_unit [u] = Some k" and "n * k < 2 ^ 63"
  shows "ParseDuration (nat_string n @ [u]) = Inr (int n * int k)"
proof -
  have "nat_string n @ [u] \<noteq> ''0''"
    using nat_string_nonempty [of n] by (cases "nat_string n") auto
  moreover have "\<not> 2 ^ 63 - 1 < n * k" using assms(2) by linarith
  ultimately show ?thesis
    using assms duration_loop_unit [OF assms] nat_string_hd [of n "[u]"]
    by (simp add: ParseDuration_def split_sign_digit nat_string_nonempty Let_def)
qed

lemma parseApprovalDuration_days:
  "int_range G (int n) \<Longrightarrow>
     parseApprovalDuration G (nat_string n @ ''d'') = Inr (wrap64 (wrap64 (int n * 24) * Hour))"
  by (simp add: parseApprovalDuration_def suffix_def Atoi_nat_string)

text \<open>Numbers with a fraction.\<close>

lemma ParseDuration_fraction:
  "ParseDuration ''1.5h'' = Inr 5400000000000" "ParseDuration ''0.1s'' = Inr 100000000"
  "ParseDuration ''-1.25ms'' = Inr (- 1250000)"
  by (simp_all add: ParseDuration_def split_sign_def duration_loop.simps duration_component_def is_digit_def
      duration_unit_def fraction_value_def float_trunc_def float_mult_def float_div_def float_of_def float_shift_def
      round_even_def bit_len.simps bytes_string_def Let_def)

section \<open>Approval windows\<close>

text \<open>An approval window written in days or in hours is read as that many days or hours, up to the
  292 years a duration can hold.\<close>

lemma approval_duration_value:
  assumes "int_range G (int n)" and "n \<le> 106751"
  shows "parseApprovalDuration G (nat_string n @ ''d'') = Inr (int n * 24 * Hour) \<and>
    parseApprovalDuration G (nat_string n @ ''h'') = Inr (int n * Hour)"
proof -
  have "wrap64 (int n * 24) = int n * 24" "wrap64 (int n * 24 * Hour) = int n * 24 * Hour"
    using assms(2) by (simp_all add: wrap64_id duration_units)
  moreover have "duration_unit [CHR ''h''] = Some 3600000000000" "n * 3600000000000 < 2 ^ 63"
    using assms(2) by (simp_all add: duration_unit_def bytes_string_def)
  ultimately show ?thesis
    using ParseDuration_unit [of "CHR ''h''" 3600000000000 n]
    by (simp add: parseApprovalDuration_days [OF assms(1)])
      (simp add: parseApprovalDuration_def suffix_def duration_units)
qed

end
