(* ===== verification/Json_Text.thy ===== *)
theory Json_Text
  imports Encoding Utf8 Duration "HOL-Library.Monad_Syntax"
begin

text \<open>
  The text of a JSON document as \<open>encoding/json\<close> reads it, for \<open>Unmarshal\<close> of the configuration
  file and of error bodies: tokens, then a machine with a stack of open arrays and objects (at most
  10000 of them). A syntax error anywhere makes the whole text unreadable. The last section has a
  writer and the round trip.
\<close>

section \<open>Tokens\<close>

datatype token = OpenObject | CloseObject | OpenArray | CloseArray | Colon | Comma | Lit json

definition json_space :: "char \<Rightarrow> bool" where
  "json_space c \<longleftrightarrow> ord c \<in> {9, 10, 13, 32}"

text \<open>Numbers: the literal is kept, and what follows it.\<close>

definition lex_digits :: "string \<Rightarrow> (string \<times> string) option" where
  "lex_digits s = (let ds = takeWhile is_digit s in if ds = [] then None else Some (ds, dropWhile is_digit s))"

definition lex_int :: "string \<Rightarrow> (string \<times> string) option" where
  "lex_int s = (case s of CHR ''0'' # rest \<Rightarrow> Some (''0'', rest) | _ \<Rightarrow> lex_digits s)"

definition lex_frac :: "string \<Rightarrow> (string \<times> string) option" where
  "lex_frac s = (case s of
       CHR ''.'' # rest \<Rightarrow> do { (ds, rest) \<leftarrow> lex_digits rest; Some (CHR ''.'' # ds, rest) }
     | _ \<Rightarrow> Some ([], s))"

definition lex_sign :: "char set \<Rightarrow> string \<Rightarrow> string \<times> string" where
  "lex_sign signs s = (case s of c # rest \<Rightarrow> if c \<in> signs then ([c], rest) else ([], s) | [] \<Rightarrow> ([], s))"

definition lex_exp :: "string \<Rightarrow> (string \<times> string) option" where
  "lex_exp s = (case lex_sign {CHR ''e'', CHR ''E''} s of
       ([], _) \<Rightarrow> Some ([], s)
     | (e, rest) \<Rightarrow>
         (case lex_sign {CHR ''+'', CHR ''-''} rest of
            (sg, rest) \<Rightarrow> do { (ds, rest) \<leftarrow> lex_digits rest; Some (e @ sg @ ds, rest) }))"

definition lex_number :: "string \<Rightarrow> (string \<times> string) option" where
  "lex_number s = (case lex_sign {CHR ''-''} s of
       (sg, rest) \<Rightarrow> do {
         (ds, rest) \<leftarrow> lex_int rest;
         (fr, rest) \<leftarrow> lex_frac rest;
         (ex, rest) \<leftarrow> lex_exp rest;
         Some (sg @ ds @ fr @ ex, rest) })"

text \<open>Strings: the scanner finds the closing quote and checks escapes and control characters.\<close>

fun hex4 :: "string \<Rightarrow> nat option" where
  "hex4 (a # b # c # d # s) = do {
     a \<leftarrow> hex_value a; b \<leftarrow> hex_value b; c \<leftarrow> hex_value c; d \<leftarrow> hex_value d;
     Some (((a * 16 + b) * 16 + c) * 16 + d) }"
| "hex4 _ = None"

abbreviation quote_mark :: char where "quote_mark \<equiv> CHR 0x22"
abbreviation backslash :: char where "backslash \<equiv> CHR 0x5C"

definition escape_value :: "char \<Rightarrow> char option" where
  "escape_value e =
     (if e = quote_mark \<or> e = backslash \<or> e = CHR ''/'' then Some e
      else if e = CHR ''b'' then Some (CHR 0x08)
      else if e = CHR ''f'' then Some (CHR 0x0C)
      else if e = CHR ''n'' then Some (CHR 0x0A)
      else if e = CHR ''r'' then Some (CHR 0x0D)
      else if e = CHR ''t'' then Some (CHR 0x09)
      else None)"

function scan_string :: "string \<Rightarrow> (string \<times> string) option" where
  "scan_string [] = None"
| "scan_string (c # s) =
     (if c = quote_mark then Some ([], s)
      else if ord c < 32 then None
      else if c = backslash then
        (case s of
           [] \<Rightarrow> None
         | e # s' \<Rightarrow>
             if escape_value e \<noteq> None then do { (raw, rest) \<leftarrow> scan_string s'; Some (c # e # raw, rest) }
             else if e = CHR ''u'' \<and> hex4 s' \<noteq> None
             then do { (raw, rest) \<leftarrow> scan_string (drop 4 s'); Some (c # e # take 4 s' @ raw, rest) }
             else None)
      else do { (raw, rest) \<leftarrow> scan_string s; Some (c # raw, rest) })"
  by pat_completeness auto
termination by (relation "measure length") auto

text \<open>
  What a scanned string stands for: escapes are replaced, a surrogate pair is one code point, and a
  surrogate alone or a byte that is not UTF-8 is U+FFFD.
\<close>

definition low_surrogate :: "string \<Rightarrow> nat option" where
  "low_surrogate s = (case s of
       c # e # s' \<Rightarrow>
         if c = backslash \<and> e = CHR ''u'' then do {
           u \<leftarrow> hex4 s';
           if 0xDC00 \<le> u \<and> u < 0xE000 then Some (u - 0xDC00) else None }
         else None
     | _ \<Rightarrow> None)"

definition unicode_escape :: "string \<Rightarrow> string \<times> nat" where
  "unicode_escape s = (case hex4 s of
       None \<Rightarrow> ([], 0)
     | Some u \<Rightarrow>
         if u < 0xD800 \<or> 0xE000 \<le> u then (encode_rune u, 4)
         else (case (if u < 0xDC00 then low_surrogate (drop 4 s) else None) of
                 Some v \<Rightarrow> (encode_rune (0x10000 + (u - 0xD800) * 1024 + v), 10)
               | None \<Rightarrow> (replacement, 4)))"

function unquote :: "string \<Rightarrow> string" where
  "unquote [] = []"
| "unquote (c # s) =
     (if c = backslash then
        (case s of
           [] \<Rightarrow> []
         | e # s' \<Rightarrow>
             (case escape_value e of
                Some v \<Rightarrow> v # unquote s'
              | None \<Rightarrow> (let (u, n) = unicode_escape s' in u @ unquote (drop n s'))))
      else (case first_rune (c # s) of
              Some k \<Rightarrow> take k (c # s) @ unquote (drop k (c # s))
            | None \<Rightarrow> replacement @ unquote s))"
  by pat_completeness auto
termination
  by (relation "measure length") (auto dest: first_rune_bounds)

declare scan_string.simps [simp del] unquote.simps [simp del]

lemma scan_string_shorter: "scan_string s = Some (raw, rest) \<Longrightarrow> length rest < length s"
proof (induction s arbitrary: raw rest rule: scan_string.induct)
  case (2 c s)
  show ?case
  proof (cases "c = backslash")
    case False
    with 2 show ?thesis
      by (auto simp: scan_string.simps(2) bind_eq_Some_conv split: if_splits intro: less_SucI)
  next
    case True
    then obtain e s' where s: "s = e # s'"
      using "2.prems" by (cases s) (auto simp: scan_string.simps(2))
    show ?thesis
    proof (cases "escape_value e")
      case (Some v)
      with "2.prems" True s obtain raw' where "scan_string s' = Some (raw', rest)"
        by (auto simp: scan_string.simps(2) bind_eq_Some_conv split: if_splits)
      from "2.IH"(1) [OF _ _ True s _ this] True Some s show ?thesis by auto
    next
      case None
      with "2.prems" True s obtain raw' where "scan_string (drop 4 s') = Some (raw', rest)" "e = CHR ''u''" "hex4 s' \<noteq> None"
        by (auto simp: scan_string.simps(2) bind_eq_Some_conv split: if_splits)
      from "2.IH"(2) [OF _ _ True s _ _ this(1)] True None s this(2,3) show ?thesis by auto
    qed
  qed
qed (simp add: scan_string.simps)

lemma lex_digits_shorter: "lex_digits s = Some (a, r) \<Longrightarrow> length r < length s"
proof -
  assume digits: "lex_digits s = Some (a, r)"
  then have "takeWhile is_digit s \<noteq> []" "r = dropWhile is_digit s"
    by (auto simp: lex_digits_def Let_def split: if_splits)
  moreover have "length (takeWhile is_digit s) + length (dropWhile is_digit s) = length s"
    by (metis length_append takeWhile_dropWhile_id)
  ultimately show ?thesis by (cases "takeWhile is_digit s") auto
qed

lemma lex_sign_shorter: "lex_sign cs s = (a, r) \<Longrightarrow> length r \<le> length s"
  by (auto simp: lex_sign_def split: list.splits if_splits)

lemma lex_number_shorter: "lex_number s = Some (a, r) \<Longrightarrow> length r < length s"
proof -
  assume "lex_number s = Some (a, r)"
  then obtain sg r1 ds r2 fr r3 ex where "lex_sign {CHR ''-''} s = (sg, r1)" "lex_int r1 = Some (ds, r2)"
    "lex_frac r2 = Some (fr, r3)" "lex_exp r3 = Some (ex, r)"
    by (auto simp: lex_number_def bind_eq_Some_conv split: prod.splits)
  moreover from this(2) have "length r2 < length r1"
    by (auto simp: lex_int_def dest: lex_digits_shorter split: list.splits char.splits bool.splits)
  moreover from calculation(3) have "length r3 \<le> length r2"
    by (auto simp: lex_frac_def bind_eq_Some_conv dest!: lex_digits_shorter split: list.splits char.splits bool.splits)
  moreover from calculation(4) have "length r \<le> length r3"
    by (auto simp: lex_exp_def bind_eq_Some_conv dest!: lex_digits_shorter lex_sign_shorter
        split: list.splits prod.splits)
  ultimately show ?thesis using lex_sign_shorter by fastforce
qed

definition json_words :: "(string \<times> token) list" where
  "json_words =
     [(''{'', OpenObject), (''}'', CloseObject), (''['', OpenArray), ('']'', CloseArray), ('':'', Colon), ('','', Comma),
      (''null'', Lit JNull), (''true'', Lit (JBool True)), (''false'', Lit (JBool False))]"

function json_lex :: "string \<Rightarrow> token list option" where
  "json_lex [] = Some []"
| "json_lex (c # s) =
     (if json_space c then json_lex s
      else if c = quote_mark then do {
        (raw, rest) \<leftarrow> scan_string s; ts \<leftarrow> json_lex rest; Some (Lit (JStr (unquote raw)) # ts) }
      else case find (\<lambda>(word, t). prefix word (c # s)) json_words of
        Some (word, t) \<Rightarrow> do { ts \<leftarrow> json_lex (drop (length word - 1) s); Some (t # ts) }
      | None \<Rightarrow> do { (lit, rest) \<leftarrow> lex_number (c # s); ts \<leftarrow> json_lex rest; Some (Lit (JNum lit) # ts) })"
  by pat_completeness auto
termination
  by (relation "measure length") (auto dest: scan_string_shorter lex_number_shorter)

section \<open>The machine\<close>

text \<open>
  What is open: an array with its elements so far, an object with its members so far, and before the
  value of a member also its key. The mode says what may come next; after an opening bracket the
  closing one may.
\<close>

datatype frame = InArray "json list" | InObject "(string \<times> json) list" | InMember "(string \<times> json) list" string

datatype mode = WantValue | WantValueOrClose | WantKey | WantKeyOrClose | WantColon | GotValue json

definition max_nesting :: nat where
  "max_nesting = 10000"

definition push :: "mode \<Rightarrow> frame \<Rightarrow> frame list \<Rightarrow> (mode \<times> frame list) option" where
  "push m f fs = (if length fs < max_nesting then Some (m, f # fs) else None)"

definition start_value :: "token \<Rightarrow> frame list \<Rightarrow> (mode \<times> frame list) option" where
  "start_value t fs = (case t of
       Lit j \<Rightarrow> Some (GotValue j, fs)
     | OpenArray \<Rightarrow> push WantValueOrClose (InArray []) fs
     | OpenObject \<Rightarrow> push WantKeyOrClose (InObject []) fs
     | _ \<Rightarrow> None)"

fun parse_step :: "token \<Rightarrow> mode \<times> frame list \<Rightarrow> (mode \<times> frame list) option" where
  "parse_step t (WantValue, fs) = start_value t fs"
| "parse_step CloseArray (WantValueOrClose, InArray js # fs) = Some (GotValue (JArr js), fs)"
| "parse_step t (WantValueOrClose, fs) = start_value t fs"
| "parse_step (Lit (JStr k)) (WantKey, InObject kvs # fs) = Some (WantColon, InMember kvs k # fs)"
| "parse_step (Lit (JStr k)) (WantKeyOrClose, InObject kvs # fs) = Some (WantColon, InMember kvs k # fs)"
| "parse_step CloseObject (WantKeyOrClose, InObject kvs # fs) = Some (GotValue (JObj kvs), fs)"
| "parse_step Colon (WantColon, fs) = Some (WantValue, fs)"
| "parse_step Comma (GotValue j, InArray js # fs) = Some (WantValue, InArray (js @ [j]) # fs)"
| "parse_step CloseArray (GotValue j, InArray js # fs) = Some (GotValue (JArr (js @ [j])), fs)"
| "parse_step Comma (GotValue j, InMember kvs k # fs) = Some (WantKey, InObject (kvs @ [(k, j)]) # fs)"
| "parse_step CloseObject (GotValue j, InMember kvs k # fs) = Some (GotValue (JObj (kvs @ [(k, j)])), fs)"
| "parse_step _ _ = None"

fun parse_tokens :: "token list \<Rightarrow> mode \<times> frame list \<Rightarrow> json option" where
  "parse_tokens [] st = (case st of (GotValue j, []) \<Rightarrow> Some j | _ \<Rightarrow> None)"
| "parse_tokens (t # ts) st = do { st \<leftarrow> parse_step t st; parse_tokens ts st }"

definition json_parse :: "string \<Rightarrow> json option" where
  "json_parse s = do { ts \<leftarrow> json_lex s; parse_tokens ts (WantValue, []) }"

declare json_lex.simps [simp del]

section \<open>The writer\<close>

text \<open>
  A compact writer, as specification: quotes, backslashes and control characters are escaped. It is
  read back for documents whose numbers are literals of JSON, whose strings are UTF-8 and whose
  nesting is within the limit.
\<close>

definition escape_char :: "char \<Rightarrow> string" where
  "escape_char c =
     (if c = quote_mark \<or> c = backslash then [backslash, c]
      else if ord c < 32 then [backslash, CHR ''u'', CHR ''0'', CHR ''0'', hex_digit (ord c div 16), hex_digit (ord c mod 16)]
      else [c])"

definition escape :: "string \<Rightarrow> string" where
  "escape s = concat (map escape_char s)"

fun token_text :: "token \<Rightarrow> string" where
  "token_text OpenObject = ''{''"
| "token_text CloseObject = ''}''"
| "token_text OpenArray = ''[''"
| "token_text CloseArray = '']''"
| "token_text Colon = '':''"
| "token_text Comma = '',''"
| "token_text (Lit (JBool b)) = (if b then ''true'' else ''false'')"
| "token_text (Lit (JNum lit)) = lit"
| "token_text (Lit (JStr s)) = quote_mark # escape s @ [quote_mark]"
| "token_text (Lit _) = ''null''"

fun separate :: "token list list \<Rightarrow> token list" where
  "separate [] = []"
| "separate [ts] = ts"
| "separate (ts # us # tss) = ts @ Comma # separate (us # tss)"

fun json_tokens :: "json \<Rightarrow> token list" where
  "json_tokens (JArr js) = OpenArray # separate (map json_tokens js) @ [CloseArray]"
| "json_tokens (JObj kvs) =
     OpenObject # separate (map (\<lambda>(k, j). Lit (JStr k) # Colon # json_tokens j) kvs) @ [CloseObject]"
| "json_tokens j = [Lit j]"

definition json_render :: "json \<Rightarrow> string" where
  "json_render j = concat (map token_text (json_tokens j))"

fun nesting :: "json \<Rightarrow> nat" where
  "nesting (JArr js) = Suc (Max (set (0 # map nesting js)))"
| "nesting (JObj kvs) = Suc (Max (set (0 # map (\<lambda>(k, j). nesting j) kvs)))"
| "nesting _ = 0"

fun well_formed :: "json \<Rightarrow> bool" where
  "well_formed (JArr js) = list_all well_formed js"
| "well_formed (JObj kvs) = list_all (\<lambda>(k, j). utf8_valid k \<and> well_formed j) kvs"
| "well_formed (JStr s) = utf8_valid s"
| "well_formed (JNum lit) = (lex_number lit = Some (lit, []))"
| "well_formed _ = True"

section \<open>The machine reads the tokens of a document\<close>

lemma nesting_elements:
  "j \<in> set js \<Longrightarrow> nesting j < nesting (JArr js)"
  "(k, j) \<in> set kvs \<Longrightarrow> nesting j < nesting (JObj kvs)"
  by (force simp: less_Suc_eq_le intro: Max_ge)+

lemma start_value_tokens: "t \<noteq> CloseArray \<Longrightarrow> parse_step t (WantValueOrClose, fs) = start_value t fs"
  by (cases t) auto

lemma json_tokens_hd: "\<exists>t ts. json_tokens j = t # ts \<and> t \<noteq> CloseArray"
  by (cases j) auto

lemma parse_first:
  "parse_tokens (json_tokens j @ ts) (WantValueOrClose, fs) = parse_tokens (json_tokens j @ ts) (WantValue, fs)"
  using json_tokens_hd [of j] by (auto simp: start_value_tokens)

lemma parse_elements:
  assumes "\<And>j fs ts. j \<in> set js \<Longrightarrow> length fs = n \<Longrightarrow>
      parse_tokens (json_tokens j @ ts) (WantValue, fs) = parse_tokens ts (GotValue j, fs)"
    and "js \<noteq> []" and "length fs + 1 = n"
  shows "parse_tokens (separate (map json_tokens js) @ CloseArray # ts) (WantValue, InArray acc # fs) =
    parse_tokens ts (GotValue (JArr (acc @ js)), fs)"
  using assms
proof (induction js arbitrary: acc)
  case (Cons j js)
  have j: "parse_tokens (json_tokens j @ ts) (WantValue, InArray acc # fs) = parse_tokens ts (GotValue j, InArray acc # fs)" for ts acc
    using Cons.prems(1,3) by simp
  show ?case
  proof (cases js)
    case Nil
    then show ?thesis by (simp add: j)
  next
    case (Cons j' js')
    then show ?thesis using Cons.IH [of "acc @ [j]"] Cons.prems by (simp add: j)
  qed
qed simp

lemma parse_members:
  assumes "\<And>k j fs ts. (k, j) \<in> set kvs \<Longrightarrow> length fs = n \<Longrightarrow>
      parse_tokens (json_tokens j @ ts) (WantValue, fs) = parse_tokens ts (GotValue j, fs)"
    and "kvs \<noteq> []" and "length fs + 1 = n" and "m = WantKey \<or> m = WantKeyOrClose"
  shows "parse_tokens (separate (map (\<lambda>(k, j). Lit (JStr k) # Colon # json_tokens j) kvs) @ CloseObject # ts)
      (m, InObject acc # fs) = parse_tokens ts (GotValue (JObj (acc @ kvs)), fs)"
  using assms
proof (induction kvs arbitrary: acc m)
  case (Cons kv kvs)
  obtain k j where kv: "kv = (k, j)" by (cases kv)
  have j: "parse_tokens (json_tokens j @ ts) (WantValue, InMember acc k # fs) = parse_tokens ts (GotValue j, InMember acc k # fs)" for ts acc
    using Cons.prems(1) [of k j] Cons.prems(3) kv by simp
  have key: "parse_step (Lit (JStr k)) (m, InObject acc # fs) = Some (WantColon, InMember acc k # fs)" for acc
    using Cons.prems(4) by auto
  show ?case
  proof (cases kvs)
    case Nil
    then show ?thesis by (simp add: j key kv)
  next
    case (Cons kv' kvs')
    have "parse_tokens (separate (map (\<lambda>(k, j). Lit (JStr k) # Colon # json_tokens j) kvs) @ CloseObject # ts)
        (WantKey, InObject (acc @ [(k, j)]) # fs) = parse_tokens ts (GotValue (JObj ((acc @ [(k, j)]) @ kvs)), fs)"
      using Cons.prems(1,3) Cons by (intro Cons.IH) auto
    then show ?thesis by (simp add: j key kv Cons)
  qed
qed simp

lemma parse_json_tokens:
  "nesting j + length fs \<le> max_nesting \<Longrightarrow>
     parse_tokens (json_tokens j @ ts) (WantValue, fs) = parse_tokens ts (GotValue j, fs)"
proof (induction j arbitrary: fs ts rule: json_tokens.induct)
  case (1 js)
  then have room: "length fs < max_nesting" by simp
  show ?case
  proof (cases "js = []")
    case True
    then show ?thesis using room by (simp add: start_value_def push_def)
  next
    case False
    have "parse_tokens (json_tokens j @ ts') (WantValue, fs') = parse_tokens ts' (GotValue j, fs')"
      if "j \<in> set js" "length fs' = Suc (length fs)" for j fs' ts'
      using that "1.prems" nesting_elements(1) [OF that(1)] by (intro "1.IH") (simp_all del: nesting.simps)
    from parse_elements [OF this False, where fs = fs and ts = ts and acc = "[]"] False room show ?thesis
      by (cases js; cases "tl js") (simp_all add: start_value_def push_def parse_first flip: append.assoc)
  qed
next
  case (2 kvs)
  then have room: "length fs < max_nesting" by simp
  show ?case
  proof (cases "kvs = []")
    case True
    then show ?thesis using room by (simp add: start_value_def push_def)
  next
    case False
    have "parse_tokens (json_tokens j @ ts') (WantValue, fs') = parse_tokens ts' (GotValue j, fs')"
      if "(k, j) \<in> set kvs" "length fs' = Suc (length fs)" for k j fs' ts'
      using that "2.prems" nesting_elements(2) [OF that(1)] by (intro "2.IH") (auto simp del: nesting.simps)
    from parse_members [OF this False, where fs = fs and m = WantKeyOrClose and ts = ts and acc = "[]"] room show ?thesis
      by (simp add: start_value_def push_def)
  qed
qed (simp_all add: start_value_def)

section \<open>The scanner reads what the writer wrote\<close>

lemma take_drop_4: "take 4 (a # b # c # d # s) = [a, b, c, d]" "drop 4 (a # b # c # d # s) = s"
  by (simp_all add: eval_nat_numeral)

lemma hex_value_digit: "d < 16 \<Longrightarrow> hex_value (hex_digit d) = Some d"
  by (simp add: hex_value_def hex_digit_def)

lemma hex4_escape:
  assumes "ord c < (32 :: nat)"
  shows "hex4 (CHR ''0'' # CHR ''0'' # hex_digit (ord c div 16) # hex_digit (ord c mod 16) # s) = Some (ord c)"
proof -
  have "ord c div 16 < (16 :: nat)" using assms by (simp add: less_mult_imp_div_less)
  then show ?thesis by (simp add: hex_value_digit) (simp add: hex_value_def)
qed

lemma escape_value_u: "escape_value (CHR ''u'') = None"
  by (simp add: escape_value_def)

lemma escape_simps [simp]: "escape [] = []" "escape (c # s) = escape_char c @ escape s"
  by (simp_all add: escape_def)

lemma scan_string_escape: "scan_string (escape s @ quote_mark # t) = Some (escape s, t)"
proof (induction s)
  case Nil
  then show ?case by (simp add: scan_string.simps)
next
  case (Cons c s)
  consider (special) "c = quote_mark \<or> c = backslash" | (control) "ord c < (32 :: nat)" "c \<noteq> quote_mark" "c \<noteq> backslash"
    | (plain) "\<not> ord c < (32 :: nat)" "c \<noteq> quote_mark" "c \<noteq> backslash" by blast
  then show ?case
  proof cases
    case special
    then have "escape_value c = Some c" by (auto simp: escape_value_def)
    with special Cons.IH show ?thesis by (simp add: escape_char_def scan_string.simps(2))
  next
    case control
    then show ?thesis
      using Cons.IH hex4_escape [OF control(1)]
      by (simp add: escape_char_def scan_string.simps(2) escape_value_u take_drop_4)
  next
    case plain
    then show ?thesis using Cons.IH by (simp add: escape_char_def scan_string.simps(2))
  qed
qed

lemma unquote_escape_char:
  assumes "ord c < (128 :: nat)"
  shows "unquote (escape_char c @ s) = c # unquote s"
proof -
  consider (special) "c = quote_mark \<or> c = backslash" | (control) "ord c < (32 :: nat)" "c \<noteq> quote_mark" "c \<noteq> backslash"
    | (plain) "\<not> ord c < (32 :: nat)" "c \<noteq> quote_mark" "c \<noteq> backslash" by blast
  then show ?thesis
  proof cases
    case special
    then have "escape_value c = Some c" by (auto simp: escape_value_def)
    with special show ?thesis by (simp add: escape_char_def unquote.simps(2))
  next
    case control
    then show ?thesis
      using hex4_escape [OF control(1)]
      by (simp add: escape_char_def unquote.simps(2) escape_value_u unicode_escape_def encode_rune_def
          bytes_string_def take_drop_4)
  next
    case plain
    then show ?thesis using assms by (simp add: escape_char_def unquote.simps(2) first_rune_ascii)
  qed
qed

lemma escape_multibyte: "\<forall>b \<in> set s. 128 \<le> ord b \<Longrightarrow> escape (s @ t) = s @ escape t"
  by (induction s) (auto simp: escape_char_def)

lemma unquote_escape: "utf8_valid s \<Longrightarrow> unquote (escape s) = s"
proof (induction s rule: utf8_valid.induct)
  case (1 s)
  show ?case
  proof (cases s)
    case Nil
    then show ?thesis by (simp add: unquote.simps)
  next
    case (Cons c s')
    with "1.prems" obtain k where k: "first_rune s = Some k" and rest: "utf8_valid (drop k s)"
      by (subst (asm) utf8_valid.simps) (auto split: option.splits)
    have IH: "unquote (escape (drop k s)) = drop k s" using Cons k rest by (intro "1.IH") auto
    show ?thesis
    proof (cases "ord c < (128 :: nat)")
      case True
      with k Cons have "k = 1" by (simp add: first_rune_ascii)
      with True Cons IH show ?thesis by (simp add: unquote_escape_char)
    next
      case False
      with k Cons first_rune_multi have high: "\<forall>b \<in> set (take k s). 128 \<le> ord b" by blast
      then have "escape s = take k s @ escape (drop k s)"
        using escape_multibyte [of "take k s" "drop k s"] by simp
      moreover obtain b where "take k s = c # b" using first_rune_bounds [OF k] Cons by (cases k) auto
      moreover have "c \<noteq> backslash" using False by auto
      ultimately show ?thesis
        using first_rune_append [OF k, of "escape (drop k s)"] IH first_rune_bounds [OF k]
        by (simp add: unquote.simps(2)) (metis append_take_drop_id append_Cons append_eq_conv_conj length_take min.absorb2)
    qed
  qed
qed

text \<open>A literal ends where no character of a number follows.\<close>

definition ends_number :: "string \<Rightarrow> bool" where
  "ends_number t \<longleftrightarrow> (\<forall>c s. t = c # s \<longrightarrow> \<not> is_digit c \<and> c \<notin> set ''.eE+-'')"

lemma lex_digits_append:
  assumes "lex_digits s = Some (a, r)" and "ends_number t"
  shows "lex_digits (s @ t) = Some (a, r @ t)"
proof (cases "dropWhile is_digit s")
  case Nil
  then have s: "\<forall>c \<in> set s. is_digit c" "takeWhile is_digit s = s" by (auto simp: dropWhile_eq_Nil_conv)
  have "takeWhile is_digit t = []" "dropWhile is_digit t = t"
    using assms(2) by (cases t; simp add: ends_number_def)+
  with assms(1) s show ?thesis
    by (auto simp: lex_digits_def Let_def takeWhile_append dropWhile_append split: if_splits)
next
  case (Cons c q)
  then have "\<not> is_digit c" "c \<in> set s"
    using hd_dropWhile [of is_digit s] set_dropWhileD [of c is_digit s] by auto
  then have "takeWhile is_digit (s @ t) = takeWhile is_digit s" "dropWhile is_digit (s @ t) = dropWhile is_digit s @ t"
    by (auto simp: takeWhile_append1 dropWhile_append1)
  with assms(1) show ?thesis by (auto simp: lex_digits_def Let_def split: if_splits)
qed

lemma lex_int_append:
  assumes "lex_int s = Some (a, r)" and "ends_number t"
  shows "lex_int (s @ t) = Some (a, r @ t)"
proof (cases s)
  case Nil
  with assms(1) show ?thesis by (simp add: lex_int_def lex_digits_def)
next
  case (Cons c q)
  show ?thesis
  proof (cases "c = CHR ''0''")
    case True
    with Cons assms show ?thesis by (auto simp: lex_int_def)
  next
    case False
    have "lex_int (c # q) = lex_digits (c # q)" "lex_int (c # q @ t) = lex_digits (c # q @ t)"
      using False by (auto simp: lex_int_def split: char.splits bool.splits)
    with assms lex_digits_append [of s a r t] Cons show ?thesis by simp
  qed
qed

lemma lex_frac_append:
  assumes "lex_frac s = Some (a, r)" and "ends_number t"
  shows "lex_frac (s @ t) = Some (a, r @ t)"
proof (cases "\<exists>q. s = CHR ''.'' # q")
  case True
  with assms lex_digits_append [OF _ assms(2)] show ?thesis
    by (auto simp: lex_frac_def bind_eq_Some_conv)
next
  case False
  have plain: "lex_frac u = Some ([], u)" if "\<nexists>q. u = CHR ''.'' # q" for u
    using that by (auto simp: lex_frac_def split: list.splits char.splits bool.splits)
  have "\<nexists>q. s @ t = CHR ''.'' # q" using False assms(2) by (cases s) (auto simp: ends_number_def)
  with False assms(1) plain show ?thesis by simp
qed

lemma lex_sign_append:
  assumes "lex_sign cs s = (a, r)" and "s \<noteq> [] \<or> \<not> (\<exists>c q. t = c # q \<and> c \<in> cs)"
  shows "lex_sign cs (s @ t) = (a, r @ t)"
  using assms by (cases s; cases t) (auto simp: lex_sign_def split: if_splits)

lemma lex_exp_append:
  assumes "lex_exp s = Some (a, r)" and "ends_number t"
  shows "lex_exp (s @ t) = Some (a, r @ t)"
proof -
  obtain e q where e: "lex_sign {CHR ''e'', CHR ''E''} s = (e, q)" by force
  have e': "lex_sign {CHR ''e'', CHR ''E''} (s @ t) = (e, q @ t)"
    using assms(2) by (intro lex_sign_append [OF e]) (auto simp: ends_number_def)
  show ?thesis
  proof (cases e)
    case Nil
    with e e' assms(1) show ?thesis by (auto simp: lex_exp_def)
  next
    case (Cons c e1)
    obtain sg p where sg: "lex_sign {CHR ''+'', CHR ''-''} q = (sg, p)" by force
    have "lex_sign {CHR ''+'', CHR ''-''} (q @ t) = (sg, p @ t)"
      using assms(2) by (intro lex_sign_append [OF sg]) (auto simp: ends_number_def)
    with e e' sg Cons assms(1) lex_digits_append [OF _ assms(2)] show ?thesis
      by (auto simp: lex_exp_def bind_eq_Some_conv)
  qed
qed

lemma lex_number_append:
  assumes "lex_number s = Some (a, r)" and "ends_number t"
  shows "lex_number (s @ t) = Some (a, r @ t)"
proof -
  obtain sg q where sg: "lex_sign {CHR ''-''} s = (sg, q)" by force
  have "lex_sign {CHR ''-''} (s @ t) = (sg, q @ t)"
    using assms(2) by (intro lex_sign_append [OF sg]) (auto simp: ends_number_def)
  with sg assms lex_int_append lex_frac_append lex_exp_append show ?thesis
    by (fastforce simp: lex_number_def bind_eq_Some_conv)
qed

lemma lex_number_start:
  assumes "lex_number s = Some (a, r)"
  obtains c q where "s = c # q" "is_digit c \<or> c = CHR ''-''"
proof (cases s)
  case Nil
  with assms show ?thesis by (simp add: lex_number_def lex_sign_def lex_int_def lex_digits_def)
next
  case (Cons c q)
  have "is_digit c" if "c \<noteq> CHR ''-''" "\<not> is_digit c"
  proof -
    have "lex_int (c # q) = None"
      using that(2) by (auto simp: lex_int_def lex_digits_def is_digit_def split: char.splits bool.splits)
    with assms Cons that(1) show ?thesis by (simp add: lex_number_def lex_sign_def)
  qed
  with Cons that show thesis by blast
qed

fun token_ok :: "token \<Rightarrow> bool" where
  "token_ok (Lit (JNum lit)) = (lex_number lit = Some (lit, []))"
| "token_ok (Lit (JStr s)) = utf8_valid s"
| "token_ok (Lit (JArr js)) = False"
| "token_ok (Lit (JObj kvs)) = False"
| "token_ok _ = True"

lemma lex_word:
  assumes "(word, t) \<in> set json_words"
  shows "json_lex (word @ s) = map_option ((#) t) (json_lex s)"
  using assms
  by (cases "json_lex s") (auto simp: json_words_def json_lex.simps(2) json_space_def)

lemma lex_number_token:
  assumes "lex_number lit = Some (lit, [])" and "ends_number s"
  shows "json_lex (lit @ s) = map_option ((#) (Lit (JNum lit))) (json_lex s)"
proof -
  obtain c q where lit: "lit = c # q" and c: "is_digit c \<or> c = CHR ''-''" using lex_number_start [OF assms(1)] .
  from c have "\<not> json_space c" "c \<noteq> quote_mark" by (auto simp: json_space_def is_digit_def)
  moreover have "c \<notin> set ''{}[]:,ntf''" using c by (auto simp: is_digit_def)
  then have "find (\<lambda>(word, t). prefix word (c # q @ s)) json_words = None" by (simp add: json_words_def eq_commute [of _ c])
  moreover have "lex_number (c # q @ s) = Some (lit, s)"
    using lex_number_append [OF assms] by (simp add: lit)
  ultimately have "json_lex (c # q @ s) = do { ts \<leftarrow> json_lex s; Some (Lit (JNum lit) # ts) }"
    unfolding lit by (subst json_lex.simps(2)) simp
  then show ?thesis by (cases "json_lex s") (simp_all add: lit)
qed

lemma lex_token:
  assumes "token_ok t" and "\<And>lit. t = Lit (JNum lit) \<Longrightarrow> ends_number s"
  shows "json_lex (token_text t @ s) = map_option ((#) t) (json_lex s)"
proof (cases "(token_text t, t) \<in> set json_words")
  case True
  then show ?thesis by (rule lex_word)
next
  case False
  with assms(1) consider (num) lit where "t = Lit (JNum lit)" | (str) u where "t = Lit (JStr u)"
    by (cases t rule: token_ok.cases) (auto simp: json_words_def split: if_splits)
  then show ?thesis
  proof cases
    case num
    with assms lex_number_token show ?thesis by simp
  next
    case str
    with assms(1) show ?thesis
      by (cases "json_lex s") (simp_all add: json_lex.simps(2) json_space_def scan_string_escape unquote_escape)
  qed
qed

text \<open>In the tokens of a document no literal follows a number.\<close>

primrec separated :: "token list \<Rightarrow> bool" where
  "separated [] = True"
| "separated (t # ts) = ((\<forall>j j' ts'. t = Lit j \<longrightarrow> ts \<noteq> Lit j' # ts') \<and> separated ts)"

lemma lex_tokens:
  "list_all token_ok ts \<Longrightarrow> separated ts \<Longrightarrow> json_lex (concat (map token_text ts)) = Some ts"
proof (induction ts)
  case Nil
  then show ?case by (simp add: json_lex.simps(1))
next
  case (Cons t ts)
  have "ends_number (concat (map token_text ts))" if "t = Lit (JNum lit)" for lit
  proof (cases ts)
    case (Cons u us)
    with Cons.prems(2) that show ?thesis by (cases u) (auto simp: ends_number_def is_digit_def)
  qed (simp add: ends_number_def)
  from lex_token [OF _ this] Cons show ?case by simp
qed

lemma separated_append:
  "separated (ts @ us) \<longleftrightarrow> separated ts \<and> separated us \<and>
     (\<forall>j j' us'. ts \<noteq> [] \<longrightarrow> last ts = Lit j \<longrightarrow> us \<noteq> Lit j' # us')"
  by (induction ts) (auto simp: append_eq_Cons_conv neq_Nil_conv)

lemma separated_separate: "\<forall>ts \<in> set tss. separated ts \<Longrightarrow> separated (separate tss)"
  by (induction tss rule: separate.induct) (auto simp: separated_append)

lemma separated_close: "separated ts \<Longrightarrow> \<forall>j. t \<noteq> Lit j \<Longrightarrow> separated (ts @ [t])"
  by (simp add: separated_append)

lemma json_tokens_separated: "separated (json_tokens j)"
  by (induction j rule: json_tokens.induct) (force intro!: separated_close separated_separate)+

lemma separate_tokens: "set (separate tss) \<subseteq> insert Comma (\<Union> (set ` set tss))"
  by (induction tss rule: separate.induct) auto

lemma json_tokens_ok: "well_formed j \<Longrightarrow> list_all token_ok (json_tokens j)"
proof (induction j rule: json_tokens.induct)
  case (1 js)
  then show ?case using separate_tokens [of "map json_tokens js"] by (fastforce simp: list_all_iff)
next
  case (2 kvs)
  then have "list_all token_ok (Lit (JStr k) # Colon # json_tokens j)" if "(k, j) \<in> set kvs" for k j
    using that by (force simp: list_all_iff)
  with separate_tokens [of "map (\<lambda>(k, j). Lit (JStr k) # Colon # json_tokens j) kvs"]
  show ?case by (fastforce simp: list_all_iff)
qed simp_all

lemma json_parse_render:
  assumes "well_formed j" and "nesting j \<le> max_nesting"
  shows "json_parse (json_render j) = Some j"
proof -
  have "json_lex (json_render j) = Some (json_tokens j)"
    unfolding json_render_def using assms(1) by (intro lex_tokens json_tokens_ok json_tokens_separated)
  moreover have "parse_tokens (json_tokens j) (WantValue, []) = Some j"
    using parse_json_tokens [of j "[]" "[]"] assms(2) by simp
  ultimately show ?thesis by (simp add: json_parse_def)
qed

interpretation json_codec: codec json_render json_parse "\<lambda>j. well_formed j \<and> nesting j \<le> max_nesting"
  by unfold_locales (simp add: json_parse_render)

end
