(* ===== verification/Json_Decode.thy ===== *)
theory Json_Decode
  imports Json_Text
begin

text \<open>
  \<open>encoding/json\<close>'s \<open>Unmarshal\<close> of a parsed document into a Go struct, as far as the
  program's structs need it: an exact key match, else a case-folded one; members applied in
  order, so a later duplicate wins; \<open>null\<close> leaves a field alone; a value of the wrong type
  leaves the field alone too and makes \<open>Unmarshal\<close> return an error, but the rest of the
  document is still decoded.
\<close>

type_synonym 'a decoding = "'a \<times> bool"

definition fold_key :: "go_rt \<Rightarrow> string \<Rightarrow> string" where
  "fold_key G s = (if is_ascii s then map upper_char s else rt_fold G s)"

definition resolve_key :: "go_rt \<Rightarrow> string list \<Rightarrow> string \<Rightarrow> string option" where
  "resolve_key G names key =
     (if key \<in> set names then Some key
      else find (\<lambda>n. fold_key G n = fold_key G key) names)"

definition decode_string :: "json \<Rightarrow> string \<Rightarrow> string decoding" where
  "decode_string j old = (case j of JNull \<Rightarrow> (old, True) | JStr s \<Rightarrow> (s, True) | _ \<Rightarrow> (old, False))"

definition decode_bool :: "json \<Rightarrow> bool \<Rightarrow> bool decoding" where
  "decode_bool j old = (case j of JNull \<Rightarrow> (old, True) | JBool b \<Rightarrow> (b, True) | _ \<Rightarrow> (old, False))"

definition decode_int :: "go_rt \<Rightarrow> json \<Rightarrow> int \<Rightarrow> int decoding" where
  "decode_int G j old = (case j of
       JNull \<Rightarrow> (old, True)
     | JNum lit \<Rightarrow> (case Atoi G lit of Some i \<Rightarrow> (i, True) | None \<Rightarrow> (old, False))
     | _ \<Rightarrow> (old, False))"

definition decode_string_list :: "json \<Rightarrow> string list \<Rightarrow> string list decoding" where
  "decode_string_list j old = (case j of
       JNull \<Rightarrow> ([], True)
     | JArr js \<Rightarrow> (map (\<lambda>e. fst (decode_string e '''')) js, list_all (\<lambda>e. snd (decode_string e '''')) js)
     | _ \<Rightarrow> (old, False))"

fun decode_members ::
  "go_rt \<Rightarrow> string list \<Rightarrow> (string \<Rightarrow> json \<Rightarrow> 'a \<Rightarrow> 'a decoding) \<Rightarrow> (string \<times> json) list \<Rightarrow> 'a decoding \<Rightarrow> 'a decoding"
where
  "decode_members G names set_field [] st = st"
| "decode_members G names set_field ((key, j) # kvs) (x, ok) =
     decode_members G names set_field kvs
       (case resolve_key G names key of
          None \<Rightarrow> (x, ok)
        | Some name \<Rightarrow> (let (x', ok') = set_field name j x in (x', ok \<and> ok')))"

definition decode_struct ::
  "go_rt \<Rightarrow> string list \<Rightarrow> (string \<Rightarrow> json \<Rightarrow> 'a \<Rightarrow> 'a decoding) \<Rightarrow> json \<Rightarrow> 'a \<Rightarrow> 'a decoding"
where
  "decode_struct G names set_field j old = (case j of
       JNull \<Rightarrow> (old, True)
     | JObj kvs \<Rightarrow> decode_members G names set_field kvs (old, True)
     | _ \<Rightarrow> (old, False))"

text \<open>Setting one field of a struct from the decoding of its value.\<close>

definition into :: "('v \<Rightarrow> 'a) \<Rightarrow> 'v decoding \<Rightarrow> 'a decoding" where
  "into store d = (store (fst d), snd d)"

text \<open>Members the struct does not know are ignored.\<close>

lemma decode_members_ignored:
  assumes "\<forall>kv \<in> set kvs. resolve_key G names (fst kv) = None"
  shows "decode_members G names set_field kvs (x, ok) = (x, ok)"
  using assms by (induction kvs) auto

end
