(* ===== verification/Net_Address.thy ===== *)
theory Net_Address
  imports Encoding Duration
begin

text \<open>
  \<open>net.ParseIP\<close>, by which the pinned address of an approval scope is validated: whether a string is
  an IPv4 address in dotted decimal or an IPv6 address without a zone. An IPv4 address is accepted in
  its one canonical spelling only.
\<close>

section \<open>IPv4\<close>

text \<open>
  The loop over the bytes: the value and the number of digits of the octet being read, and the
  number of octets before it.
\<close>

fun ipv4_loop :: "nat \<Rightarrow> nat \<Rightarrow> nat \<Rightarrow> string \<Rightarrow> bool" where
  "ipv4_loop val digLen pos [] \<longleftrightarrow> pos = 3"
| "ipv4_loop val digLen pos (c # s) \<longleftrightarrow>
     (if is_digit c then
        \<not> (digLen = 1 \<and> val = 0) \<and> val * 10 + (ord c - 48) \<le> 255 \<and>
        ipv4_loop (val * 10 + (ord c - 48)) (digLen + 1) pos s
      else c = CHR ''.'' \<and> digLen \<noteq> 0 \<and> s \<noteq> [] \<and> pos \<noteq> 3 \<and> ipv4_loop 0 0 (pos + 1) s)"

definition parseIPv4 :: "string \<Rightarrow> bool" where
  "parseIPv4 s = ipv4_loop 0 0 0 s"

section \<open>IPv6\<close>

text \<open>
  The loop over the groups: how many of the eight are read, and whether \<open>::\<close> was among them. An
  IPv4 address may stand for the last two.
\<close>

definition groups_ok :: "nat \<Rightarrow> bool \<Rightarrow> bool" where
  "groups_ok i ellipsis \<longleftrightarrow> (if i < 8 then ellipsis else \<not> ellipsis)"

function ipv6_loop :: "nat \<Rightarrow> bool \<Rightarrow> string \<Rightarrow> bool" where
  "ipv6_loop i ellipsis s \<longleftrightarrow>
     (let digits = takeWhile (\<lambda>c. hex_value c \<noteq> None) s; rest = dropWhile (\<lambda>c. hex_value c \<noteq> None) s in
      if 8 \<le> i then False
      else digits \<noteq> [] \<and> length digits \<le> 4 \<and>
      (case rest of
         [] \<Rightarrow> groups_ok (i + 1) ellipsis
       | c # rest' \<Rightarrow>
           if c = CHR ''.'' then (ellipsis \<or> i = 6) \<and> i + 2 \<le> 8 \<and> parseIPv4 s \<and> groups_ok (i + 2) ellipsis
           else c = CHR '':'' \<and>
             (case rest' of
                [] \<Rightarrow> False
              | d # rest'' \<Rightarrow>
                  if d = CHR '':'' then
                    \<not> ellipsis \<and> (if rest'' = [] then groups_ok (i + 1) True else ipv6_loop (i + 1) True rest'')
                  else ipv6_loop (i + 1) ellipsis rest')))"
  by pat_completeness auto
termination
  by (relation "measure (\<lambda>(i, _, _). 8 - i)") auto

declare ipv6_loop.simps [simp del]

definition parseIPv6 :: "string \<Rightarrow> bool" where
  "parseIPv6 s =
     (case s of
        c # d # rest \<Rightarrow>
          if c = CHR '':'' \<and> d = CHR '':'' then rest = [] \<or> ipv6_loop 0 True rest else ipv6_loop 0 False s
      | _ \<Rightarrow> ipv6_loop 0 False s)"

text \<open>The first of the three characters decides; an address with a zone is refused.\<close>

definition ParseIP :: "string \<Rightarrow> bool" where
  "ParseIP s = (case find (\<lambda>c. c = CHR ''.'' \<or> c = CHR '':'' \<or> c = CHR ''%'') s of
       None \<Rightarrow> False
     | Some c \<Rightarrow>
         if c = CHR ''.'' then parseIPv4 s
         else c = CHR '':'' \<and> CHR ''%'' \<notin> set s \<and> parseIPv6 s)"

section \<open>An IPv4 address has one spelling\<close>

text \<open>The digits of an octet that have been read.\<close>

definition octet_digits :: "string \<Rightarrow> nat \<Rightarrow> bool" where
  "octet_digits p val \<longleftrightarrow> (p = [] \<and> val = 0) \<or> (p = nat_string val \<and> val \<le> 255)"

lemma is_digit_ord: "is_digit c \<Longrightarrow> char_of (48 + (ord c - 48 :: nat)) = c"
  by (simp add: is_digit_def)

lemma octet_digits_snoc:
  assumes "octet_digits p val" and "is_digit c" and "\<not> (length p = 1 \<and> val = 0)" and "val * 10 + (ord c - 48) \<le> 255"
  shows "octet_digits (p @ [c]) (val * 10 + (ord c - 48))"
proof -
  have d: "ord c - 48 < (10 :: nat)" using assms(2) by (auto simp: is_digit_def)
  show ?thesis
  proof (cases "val = 0")
    case True
    moreover have "nat_string 0 = ''0''" by code_simp
    ultimately have "p = []" using assms(1,3) by (auto simp: octet_digits_def)
    with True d show ?thesis
      using is_digit_ord [OF assms(2)] by (simp add: octet_digits_def nat_string.simps [of "ord c - 48"])
  next
    case False
    then have "nat_string (val * 10 + (ord c - 48)) = nat_string val @ [c]"
      using d is_digit_ord [OF assms(2)] by (subst nat_string.simps) (simp add: add.commute)
    with False assms(1,4) show ?thesis by (simp add: octet_digits_def)
  qed
qed

lemma ipv4_loop_sound:
  "ipv4_loop val (length p) pos s \<Longrightarrow> octet_digits p val \<Longrightarrow> p \<noteq> [] \<or> s \<noteq> [] \<Longrightarrow> pos \<le> 3 \<Longrightarrow>
     \<exists>os. length os = 4 - pos \<and> (\<forall>x \<in> set os. x \<le> 255) \<and> p @ s = join_strings ''.'' (map nat_string os)"
proof (induction s arbitrary: val p pos)
  case Nil
  then show ?case by (intro exI [of _ "[val]"]) (auto simp: octet_digits_def)
next
  case (Cons c s)
  show ?case
  proof (cases "is_digit c")
    case True
    with Cons.prems have "octet_digits (p @ [c]) (val * 10 + (ord c - 48))"
      by (intro octet_digits_snoc) auto
    with Cons.IH [of "val * 10 + (ord c - 48)" "p @ [c]" pos] True Cons.prems(1,4) show ?thesis by simp
  next
    case False
    with Cons.prems have c: "c = CHR ''.''" "p = nat_string val" "val \<le> 255" "s \<noteq> []" "pos < 3" "ipv4_loop 0 0 (Suc pos) s"
      by (auto simp: octet_digits_def)
    with Cons.IH [of 0 "[]" "Suc pos"] obtain os where os: "length os = 4 - Suc pos" "\<forall>x \<in> set os. x \<le> 255"
      "s = join_strings ''.'' (map nat_string os)"
      by (auto simp: octet_digits_def)
    with c have "p @ c # s = join_strings ''.'' (map nat_string (val # os))" by (cases os) auto
    with os c show ?thesis by (intro exI [of _ "val # os"]) auto
  qed
qed

lemma ipv4_loop_octet:
  "x \<le> 255 \<Longrightarrow> ipv4_loop 0 0 pos (nat_string x @ s) = ipv4_loop x (length (nat_string x)) pos s"
proof (induction x arbitrary: s rule: nat_string.induct)
  case (1 x)
  show ?case
  proof (cases "x < 10")
    case True
    then show ?thesis using "1.prems" by (simp add: nat_string.simps [of x] is_digit_def)
  next
    case False
    then have x: "nat_string x = nat_string (x div 10) @ [char_of (48 + x mod 10)]" by (subst nat_string.simps) simp
    have "x div 10 * 10 + x mod 10 = x" "x mod 10 \<le> 9" "0 < x div 10" using False by (auto simp: div_greater_zero_iff)
    moreover have "ipv4_loop 0 0 pos (nat_string (x div 10) @ char_of (48 + x mod 10) # s) =
        ipv4_loop (x div 10) (length (nat_string (x div 10))) pos (char_of (48 + x mod 10) # s)"
      using False "1.prems" by (intro "1.IH") auto
    ultimately show ?thesis using False "1.prems" by (simp add: x is_digit_def del: div_mult_mod_eq)
  qed
qed

definition dotted :: "nat \<Rightarrow> nat \<Rightarrow> nat \<Rightarrow> nat \<Rightarrow> string" where
  "dotted a b c d = nat_string a @ ''.'' @ nat_string b @ ''.'' @ nat_string c @ ''.'' @ nat_string d"

lemma parseIPv4_dotted:
  "parseIPv4 s \<longleftrightarrow> (\<exists>a b c d. a \<le> 255 \<and> b \<le> 255 \<and> c \<le> 255 \<and> d \<le> 255 \<and> s = dotted a b c d)"
proof
  assume ok: "parseIPv4 s"
  then have "s \<noteq> []" by (auto simp: parseIPv4_def)
  with ok ipv4_loop_sound [of 0 "[]" 0 s] obtain os where os: "length os = 4" "\<forall>x \<in> set os. x \<le> 255"
    "s = join_strings ''.'' (map nat_string os)"
    by (auto simp: parseIPv4_def octet_digits_def)
  then obtain a b c d where "os = [a, b, c, d]" by (auto simp: eval_nat_numeral length_Suc_conv)
  with os show "\<exists>a b c d. a \<le> 255 \<and> b \<le> 255 \<and> c \<le> 255 \<and> d \<le> 255 \<and> s = dotted a b c d"
    by (auto simp: dotted_def)
next
  have len: "nat_string x \<noteq> []" for x by (rule nat_string_nonempty)
  assume "\<exists>a b c d. a \<le> 255 \<and> b \<le> 255 \<and> c \<le> 255 \<and> d \<le> 255 \<and> s = dotted a b c d"
  then show "parseIPv4 s"
    by (auto simp: parseIPv4_def dotted_def ipv4_loop_octet is_digit_def len
        ipv4_loop_octet [where s = "[]", simplified])
qed

lemma find_ip_char: "list_all (\<lambda>c. \<not> (c = CHR ''.'' \<or> c = CHR '':'' \<or> c = CHR ''%'')) s \<Longrightarrow>
  find (\<lambda>c. c = CHR ''.'' \<or> c = CHR '':'' \<or> c = CHR ''%'') (s @ t) = find (\<lambda>c. c = CHR ''.'' \<or> c = CHR '':'' \<or> c = CHR ''%'') t"
  by (induction s) auto

lemma ParseIP_dotted:
  assumes "CHR '':'' \<notin> set s"
  shows "ParseIP s \<longleftrightarrow> (\<exists>a b c d. a \<le> 255 \<and> b \<le> 255 \<and> c \<le> 255 \<and> d \<le> 255 \<and> s = dotted a b c d)"
proof -
  have "find (\<lambda>c. c = CHR ''.'' \<or> c = CHR '':'' \<or> c = CHR ''%'') (dotted a b c d) = Some (CHR ''.'')" for a b c d
  proof -
    have "list_all (\<lambda>c. \<not> (c = CHR ''.'' \<or> c = CHR '':'' \<or> c = CHR ''%'')) (nat_string a)"
      using nat_string_digits [of a] by (auto simp: list_all_iff is_digit_def)
    from find_ip_char [OF this] show ?thesis by (simp add: dotted_def)
  qed
  moreover have "ParseIP s \<Longrightarrow> parseIPv4 s"
    using assms by (auto simp: ParseIP_def find_Some_iff split: option.splits if_splits)
  moreover have "s = dotted a b c d \<Longrightarrow> parseIPv4 s \<Longrightarrow> ParseIP s" for a b c d
    by (simp add: ParseIP_def calculation(1))
  ultimately show ?thesis unfolding parseIPv4_dotted [symmetric] using parseIPv4_dotted [of s] by blast
qed

end
