(* ===== verification/Command_Line.thy ===== *)
theory Command_Line
  imports Encoding Errors Utf8 Sample_Runtime
begin

text \<open>
  The first half of \<open>internal/infisical/signing_context.go\<close>: how the command line of the host
  process becomes the \<open>command\<close> of a sign request. Credentials are redacted argument by
  argument, the arguments are rendered as one string, and the string is cut to the length the
  server accepts.
\<close>

section \<open>Redaction\<close>

definition maxCommandLen :: nat where
  "maxCommandLen = 32767"

definition redactedValue :: string where
  "redactedValue = ''***''"

definition secretCommandFlags :: "string list" where
  "secretCommandFlags = [''storepass'', ''keypass'', ''pass'', ''passin'', ''passout'',
     ''password'', ''passphrase'', ''pin'', ''p'', ''pw'']"

definition flagName :: "go_rt \<Rightarrow> string \<Rightarrow> string" where
  "flagName G token =
     (if prefix ''--'' token then to_lower G (drop 2 token)
      else if prefix ''-'' token \<or> prefix ''/'' token then to_lower G (drop 1 token)
      else '''')"

definition hasSecretSuffix :: "string \<Rightarrow> bool" where
  "hasSecretSuffix name \<longleftrightarrow>
     suffix ''password'' name \<or> suffix ''passphrase'' name \<or> suffix ''passwd'' name"

text \<open>The part of a name after its last \<open>:\<close>, \<open>.\<close> or \<open>_\<close> (\<open>strings.LastIndexAny(name, ":._")+1\<close>).\<close>

definition sub_key :: "string \<Rightarrow> string" where
  "sub_key name = rev (takeWhile (\<lambda>c. c \<notin> set '':._'') (rev name))"

definition isSecretFlagName :: "string \<Rightarrow> bool \<Rightarrow> bool" where
  "isSecretFlagName name hasInlineValue =
     (if name = '''' then False
      else if name \<in> set secretCommandFlags \<or> hasSecretSuffix name then True
      else if \<not> hasInlineValue then False
      else sub_key name \<in> set secretCommandFlags \<or> hasSecretSuffix (sub_key name))"

text \<open>
  The body of the loop of \<open>redactCommandArgs\<close> for one argument: the redacted argument and the
  new value of \<open>redactValue\<close>.
\<close>

definition redact_step :: "go_rt \<Rightarrow> bool \<Rightarrow> string \<Rightarrow> string \<times> bool" where
  "redact_step G redactValue arg =
     (let (key, _, hasInlineValue) = cut_char CHR ''='' arg;
          name0 = flagName G key;
          name = (if name0 = '''' \<and> hasInlineValue then to_lower G key else name0);
          isSecret = isSecretFlagName name hasInlineValue
      in if redactValue \<and> \<not> isSecret then (redactedValue, False)
         else if isSecret then
           (if hasInlineValue then (key @ ''='' @ redactedValue, False) else (arg, True))
         else (case index_char CHR '':'' arg of
             Some colon \<Rightarrow>
               (if 0 < colon \<and> \<not> hasInlineValue \<and>
                   isSecretFlagName (flagName G (take colon arg)) False
                then (take (colon + 1) arg @ redactedValue, False) else (arg, False))
           | None \<Rightarrow> (arg, False)))"

fun redact_loop :: "go_rt \<Rightarrow> bool \<Rightarrow> string list \<Rightarrow> string list" where
  "redact_loop G redactValue [] = []"
| "redact_loop G redactValue (arg # args) =
     (let (out, redactValue') = redact_step G redactValue arg
      in out # redact_loop G redactValue' args)"

definition redactCommandArgs :: "go_rt \<Rightarrow> string list \<Rightarrow> string list" where
  "redactCommandArgs G args = redact_loop G False args"

section \<open>Rendering and truncation\<close>

definition render_arg :: "string \<Rightarrow> string" where
  "render_arg arg =
     (if arg = '''' then [CHR 0x22, CHR 0x22]
      else if CHR '' '' \<in> set arg \<or> CHR 0x09 \<in> set arg then CHR 0x22 # arg @ [CHR 0x22]
      else arg)"

definition joinCommandArgs :: "string list \<Rightarrow> string" where
  "joinCommandArgs args = join_strings '' '' (map render_arg args)"

fun cut_back :: "string \<Rightarrow> nat \<Rightarrow> nat" where
  "cut_back command 0 = 0"
| "cut_back command (Suc n) =
     (if rune_start (command ! Suc n) then Suc n else cut_back command n)"

definition truncateCommand :: "string \<Rightarrow> string" where
  "truncateCommand command =
     (if length command \<le> maxCommandLen then command
      else take (cut_back command maxCommandLen) command)"

definition captured_command :: "go_rt \<Rightarrow> string list \<Rightarrow> string" where
  "captured_command G args = truncateCommand (joinCommandArgs (redactCommandArgs G args))"

section \<open>Redaction, argument by argument\<close>

text \<open>
  The loop carries one bit of state. It is determined by the previous argument alone, which
  makes every output position a function of two neighbouring inputs.
\<close>

definition is_secret_arg :: "go_rt \<Rightarrow> string \<Rightarrow> bool" where
  "is_secret_arg G arg =
     (let (key, _, hasInlineValue) = cut_char CHR ''='' arg;
          name0 = flagName G key;
          name = (if name0 = '''' \<and> hasInlineValue then to_lower G key else name0)
      in isSecretFlagName name hasInlineValue)"

definition opens_value :: "go_rt \<Rightarrow> string \<Rightarrow> bool" where
  "opens_value G arg \<longleftrightarrow> is_secret_arg G arg \<and> CHR ''='' \<notin> set arg"

lemma snd_redact_step: "snd (redact_step G rv arg) = opens_value G arg"
  by (cases arg rule: cut_char_cases [of "CHR ''=''"])
    (auto simp: redact_step_def opens_value_def is_secret_arg_def Let_def split: option.splits)

lemma redact_step_pair: "redact_step G rv arg = (fst (redact_step G rv arg), opens_value G arg)"
  by (simp add: snd_redact_step [of G rv arg, symmetric])

lemma redact_loop_Cons [simp]:
  "redact_loop G rv (arg # args) = fst (redact_step G rv arg) # redact_loop G (opens_value G arg) args"
  by (simp add: Let_def split_beta snd_redact_step)

declare redact_loop.simps(2) [simp del]

lemma length_redact_loop [simp]: "length (redact_loop G rv args) = length args"
  by (induction args arbitrary: rv) auto

lemma redact_loop_nth:
  assumes "i < length args"
  shows "redact_loop G rv args ! i =
    fst (redact_step G (case i of 0 \<Rightarrow> rv | Suc j \<Rightarrow> opens_value G (args ! j)) (args ! i))"
  using assms
proof (induction args arbitrary: rv i)
  case Nil
  then show ?case by simp
next
  case (Cons arg args)
  then show ?case by (cases i) (auto split: nat.splits)
qed

lemma redact_step_value: "\<not> is_secret_arg G arg \<Longrightarrow> fst (redact_step G True arg) = redactedValue"
  by (auto simp: redact_step_def is_secret_arg_def Let_def split_beta)

lemma redact_step_inline:
  assumes "CHR ''='' \<notin> set key" and "is_secret_arg G (key @ CHR ''='' # v)"
  shows "fst (redact_step G rv (key @ CHR ''='' # v)) = key @ ''='' @ redactedValue"
  using assms by (auto simp: redact_step_def is_secret_arg_def Let_def cut_char_present)

lemma is_secret_arg_inline:
  "CHR ''='' \<notin> set key \<Longrightarrow> is_secret_arg G (key @ CHR ''='' # v) = is_secret_arg G (key @ CHR ''='' # w)"
  by (simp add: is_secret_arg_def cut_char_present)

lemma index_char_present: "c \<notin> set k \<Longrightarrow> index_char c (k @ c # v) = Some (length k)"
  by (simp add: index_char_def takeWhile_append)

lemma redact_step_colon:
  assumes "CHR '':'' \<notin> set key" "key \<noteq> []" "CHR ''='' \<notin> set (key @ CHR '':'' # v)"
    and "isSecretFlagName (flagName G key) False" and "\<not> is_secret_arg G (key @ CHR '':'' # v)"
  shows "fst (redact_step G False (key @ CHR '':'' # v)) = key @ '':'' @ redactedValue"
  using assms
  by (auto simp: redact_step_def is_secret_arg_def Let_def cut_char_absent index_char_present)

text \<open>
  Two command lines that differ in credentials only: in the value after a flag that announces
  one, in the value of an inline \<open>flag=value\<close>, or in the value of \<open>flag:value\<close>.
\<close>

inductive differ_in_credentials :: "go_rt \<Rightarrow> bool \<Rightarrow> string list \<Rightarrow> string list \<Rightarrow> bool"
  for G :: go_rt where
  Done: "differ_in_credentials G rv [] []"
| Same: "differ_in_credentials G (opens_value G a) as bs \<Longrightarrow> differ_in_credentials G rv (a # as) (a # bs)"
| Value: "\<not> is_secret_arg G a \<Longrightarrow> \<not> is_secret_arg G b \<Longrightarrow> differ_in_credentials G False as bs \<Longrightarrow>
    differ_in_credentials G True (a # as) (b # bs)"
| Inline: "CHR ''='' \<notin> set key \<Longrightarrow> is_secret_arg G (key @ CHR ''='' # v) \<Longrightarrow>
    differ_in_credentials G False as bs \<Longrightarrow>
    differ_in_credentials G rv ((key @ CHR ''='' # v) # as) ((key @ CHR ''='' # w) # bs)"
| Colon: "CHR '':'' \<notin> set key \<Longrightarrow> key \<noteq> [] \<Longrightarrow>
    CHR ''='' \<notin> set (key @ CHR '':'' # v) \<Longrightarrow> CHR ''='' \<notin> set (key @ CHR '':'' # w) \<Longrightarrow>
    isSecretFlagName (flagName G key) False \<Longrightarrow>
    \<not> is_secret_arg G (key @ CHR '':'' # v) \<Longrightarrow> \<not> is_secret_arg G (key @ CHR '':'' # w) \<Longrightarrow>
    differ_in_credentials G False as bs \<Longrightarrow>
    differ_in_credentials G rv ((key @ CHR '':'' # v) # as) ((key @ CHR '':'' # w) # bs)"

lemma redact_step_colon_any:
  assumes "CHR '':'' \<notin> set key" "key \<noteq> []" "CHR ''='' \<notin> set (key @ CHR '':'' # v)"
    and "isSecretFlagName (flagName G key) False" and "\<not> is_secret_arg G (key @ CHR '':'' # v)"
  shows "fst (redact_step G rv (key @ CHR '':'' # v)) =
    (if rv then redactedValue else key @ '':'' @ redactedValue)"
  using assms redact_step_colon redact_step_value by (cases rv) auto

lemma redact_loop_differ:
  "differ_in_credentials G rv as bs \<Longrightarrow> redact_loop G rv as = redact_loop G rv bs"
proof (induction rule: differ_in_credentials.induct)
  case (Value a b as bs)
  then show ?case by (simp add: redact_step_value opens_value_def)
next
  case (Inline key v as bs rv w)
  then have "is_secret_arg G (key @ CHR ''='' # w)" using is_secret_arg_inline by blast
  with Inline show ?case by (simp add: redact_step_inline opens_value_def)
next
  case (Colon key v w as bs rv)
  then show ?case by (simp add: redact_step_colon_any opens_value_def)
qed simp_all

section \<open>Idempotence\<close>

lemma is_ascii_append [simp]: "is_ascii (xs @ ys) \<longleftrightarrow> is_ascii xs \<and> is_ascii ys"
  by (simp add: is_ascii_def)

lemma is_ascii_drop: "is_ascii s \<Longrightarrow> is_ascii (drop n s)"
  by (auto simp: is_ascii_def list_all_iff dest: in_set_dropD)

lemma to_lower_stars: "is_ascii s \<Longrightarrow> to_lower G (s @ ''***'') = map lower_char s @ ''***''"
  by (simp add: to_lower_def is_ascii_def lower_char_def)

lemma suffix_last: "suffix xs ys \<Longrightarrow> xs \<noteq> [] \<Longrightarrow> last ys = last xs"
  by (auto simp: suffix_def)

lemma stars_not_secret: "isSecretFlagName (name @ ''***'') False = False"
proof -
  have "name @ ''***'' \<noteq> s" if "last s \<noteq> CHR ''*''" for s
    using that by (metis last_ConsR last_appendR list.distinct(1) last.simps)
  moreover have "\<not> suffix s (name @ ''***'')" if "last s \<noteq> CHR ''*''" "s \<noteq> []" for s
    using that suffix_last [of s "name @ ''***''"]
    by (metis last_ConsR last_appendR list.distinct(1) last.simps)
  ultimately show ?thesis
    by (simp add: isSecretFlagName_def hasSecretSuffix_def secretCommandFlags_def)
qed

lemma flagName_stars:
  assumes "is_ascii s"
  shows "flagName G (s @ ''***'') = '''' \<or> (\<exists>name. flagName G (s @ ''***'') = name @ ''***'')"
proof -
  have lower: "to_lower G (drop n s @ ''***'') = map lower_char (drop n s) @ ''***''" for n
    using assms by (simp add: to_lower_stars is_ascii_drop)
  show ?thesis
  proof (cases "prefix ''--'' (s @ ''***'')")
    case True
    then have "2 \<le> length s" by (cases s; cases "tl s") auto
    with True lower [of 2] show ?thesis by (auto simp: flagName_def)
  next
    case False
    show ?thesis
    proof (cases "s = []")
      case True
      then show ?thesis by (simp add: flagName_def)
    next
      case nonempty: False
      then have "Suc 0 \<le> length s" by (cases s) auto
      with False lower [of 1] show ?thesis by (auto simp: flagName_def)
    qed
  qed
qed

lemma stars_not_secret_arg:
  assumes "is_ascii s" and "CHR ''='' \<notin> set s"
  shows "\<not> is_secret_arg G (s @ ''***'')"
proof -
  have "cut_char CHR ''='' (s @ ''***'') = (s @ ''***'', '''', False)"
    using assms(2) by (simp add: cut_char_absent)
  with flagName_stars [OF assms(1), of G] show ?thesis
    by (auto simp: is_secret_arg_def Let_def stars_not_secret) (auto simp: isSecretFlagName_def)
qed

lemma redacted_not_secret: "\<not> is_secret_arg G redactedValue"
  using stars_not_secret_arg [of "[]" G] by (simp add: redactedValue_def is_ascii_def)

text \<open>The four ways an argument leaves the loop body.\<close>

lemma redact_step_cases:
  obtains
    (Value) "rv" "\<not> is_secret_arg G arg" "fst (redact_step G rv arg) = redactedValue"
  | (Inline) key v where "arg = key @ CHR ''='' # v" "CHR ''='' \<notin> set key" "is_secret_arg G arg"
      "fst (redact_step G rv arg) = key @ ''='' @ redactedValue"
  | (Colon) key v where "\<not> rv" "arg = key @ CHR '':'' # v" "CHR '':'' \<notin> set key" "key \<noteq> []"
      "CHR ''='' \<notin> set arg" "\<not> is_secret_arg G arg" "isSecretFlagName (flagName G key) False"
      "fst (redact_step G rv arg) = key @ '':'' @ redactedValue"
  | (Kept) "rv \<longrightarrow> is_secret_arg G arg" "fst (redact_step G rv arg) = arg"
proof (cases "is_secret_arg G arg")
  case True
  show ?thesis
  proof (cases arg rule: cut_char_cases [of "CHR ''=''"])
    case absent
    with True Kept show ?thesis
      by (auto simp: redact_step_def is_secret_arg_def Let_def)
  next
    case (present key v)
    with True redact_step_inline [of key G v rv] show ?thesis by (intro Inline) auto
  qed
next
  case notsecret: False
  show ?thesis
  proof (cases "rv")
    case True
    with notsecret redact_step_value [of G arg] show ?thesis by (intro Value) auto
  next
    case False
    show ?thesis
    proof (cases "\<exists>key v. arg = key @ CHR '':'' # v \<and> CHR '':'' \<notin> set key \<and> key \<noteq> [] \<and>
        CHR ''='' \<notin> set arg \<and> isSecretFlagName (flagName G key) False")
      case True
      then obtain key v where "arg = key @ CHR '':'' # v" "CHR '':'' \<notin> set key" "key \<noteq> []"
        "CHR ''='' \<notin> set arg" "isSecretFlagName (flagName G key) False" by blast
      with False notsecret redact_step_colon [of key v G] show ?thesis by (intro Colon) auto
    next
      case none: False
      have "fst (redact_step G rv arg) = arg"
      proof (cases "CHR '':'' \<in> set arg")
        case True
        then obtain key v where kv: "arg = key @ CHR '':'' # v" "CHR '':'' \<notin> set key"
          by (meson split_list_first)
        with none False notsecret show ?thesis
          by (cases arg rule: cut_char_cases [of "CHR ''=''"])
            (auto simp: redact_step_def is_secret_arg_def Let_def index_char_present)
      next
        case False
        with \<open>\<not> rv\<close> notsecret show ?thesis
          by (auto simp: redact_step_def is_secret_arg_def Let_def split_beta index_char_def)
      qed
      with False show ?thesis by (intro Kept) auto
    qed
  qed
qed

lemma redact_step_idem:
  assumes "is_ascii arg"
  shows "opens_value G (fst (redact_step G rv arg)) = opens_value G arg"
    and "fst (redact_step G rv (fst (redact_step G rv arg))) = fst (redact_step G rv arg)"
proof -
  show "opens_value G (fst (redact_step G rv arg)) = opens_value G arg"
  proof (cases rule: redact_step_cases [of rv G arg])
    case Value
    then show ?thesis by (simp add: opens_value_def redacted_not_secret)
  next
    case (Inline key v)
    then show ?thesis by (simp add: opens_value_def)
  next
    case (Colon key v)
    with assms stars_not_secret_arg [of "key @ '':''" G] show ?thesis
      by (simp add: opens_value_def redactedValue_def is_ascii_def)
  qed simp
  show "fst (redact_step G rv (fst (redact_step G rv arg))) = fst (redact_step G rv arg)"
  proof (cases rule: redact_step_cases [of rv G arg])
    case Value
    then show ?thesis by (simp add: redact_step_value redacted_not_secret)
  next
    case (Inline key v)
    then show ?thesis using is_secret_arg_inline [of key G v redactedValue] by (simp add: redact_step_inline)
  next
    case (Colon key v)
    with assms stars_not_secret_arg [of "key @ '':''" G] redact_step_colon [of key redactedValue G]
    show ?thesis by (simp add: redactedValue_def is_ascii_def)
  qed simp
qed

lemma redact_loop_idem:
  "list_all is_ascii args \<Longrightarrow> redact_loop G rv (redact_loop G rv args) = redact_loop G rv args"
  by (induction args arbitrary: rv) (auto simp: redact_step_idem)

section \<open>Properties\<close>

text \<open>The redaction of one argument as a function of the argument and the one before it.\<close>

definition redact_reference :: "go_rt \<Rightarrow> bool \<Rightarrow> string \<Rightarrow> string" where
  "redact_reference G after_flag arg =
     (let upto = (\<lambda>c. takeWhile (\<lambda>x. x \<noteq> c) arg) in
      if is_secret_arg G arg then (if CHR ''='' \<in> set arg then upto CHR ''='' @ ''=***'' else arg)
      else if after_flag then ''***''
      else if CHR '':'' \<in> set arg \<and> CHR ''='' \<notin> set arg \<and> upto CHR '':'' \<noteq> '''' \<and>
        isSecretFlagName (flagName G (upto CHR '':'')) False then upto CHR '':'' @ '':***''
      else arg)"

lemma redact_step_reference: "fst (redact_step G rv arg) = redact_reference G rv arg"
proof (cases arg rule: cut_char_cases [of "CHR ''=''"])
  case absent
  show ?thesis
  proof (cases "CHR '':'' \<in> set arg")
    case True
    then obtain k v where "arg = k @ CHR '':'' # v" "CHR '':'' \<notin> set k" by (meson split_list_first)
    with absent show ?thesis
      by (auto simp: redact_step_def redact_reference_def is_secret_arg_def redactedValue_def Let_def
          index_char_present takeWhile_append)
  next
    case False
    with absent show ?thesis
      by (auto simp: redact_step_def redact_reference_def is_secret_arg_def redactedValue_def Let_def index_char_def)
  qed
next
  case (present k v)
  then have "takeWhile (\<lambda>x. x \<noteq> CHR ''='') arg = k" by (simp add: takeWhile_append)
  with present show ?thesis
    by (auto simp: redact_step_def redact_reference_def is_secret_arg_def redactedValue_def Let_def
        split: option.splits)
qed

text \<open>C27: The loop over the command line computes the reference function at every position: an
  argument that counts as a credential flag is kept, less its inline value; of the others, the
  argument after a flag that announces a value is replaced; where there is no such flag, flag:value
  loses the value if the flag is a credential name and the argument holds no equals sign; and every
  other argument is kept (what this lets through is C39).\<close>

theorem redact_by_position:
  "redactCommandArgs G args =
     map (\<lambda>i. redact_reference G (0 < i \<and> is_secret_arg G (args ! (i - 1)) \<and> CHR ''='' \<notin> set (args ! (i - 1))) (args ! i))
       [0..<length args]"
proof (rule nth_equalityI)
  fix i assume "i < length (redactCommandArgs G args)"
  then show "redactCommandArgs G args ! i = map (\<lambda>i. redact_reference G (0 < i \<and> is_secret_arg G (args ! (i - 1)) \<and>
      CHR ''='' \<notin> set (args ! (i - 1))) (args ! i)) [0..<length args] ! i"
    by (cases i) (simp_all add: redactCommandArgs_def redact_loop_nth redact_step_reference opens_value_def)
qed (simp add: redactCommandArgs_def)

text \<open>Redacting twice changes nothing more, for a command line in ASCII.\<close>

lemma redact_idempotent:
  assumes "list_all is_ascii args"
  shows "redactCommandArgs G (redactCommandArgs G args) = redactCommandArgs G args"
  using redact_loop_idem [OF assms] by (simp add: redactCommandArgs_def)






end
