(* ===== verification/Sha256.thy ===== *)
theory Sha256
  imports Encoding "HOL-Library.Word"
begin

text \<open>
  \<open>crypto/sha256\<close>: the hash of FIPS 180-4 on 32-bit words, of which the program sends the digest of
  what is signed and of the executable that signs.
\<close>

unbundle bit_operations_syntax

type_synonym word32 = "32 word"

section \<open>The compression function\<close>

definition K256 :: "word32 list" where
  "K256 =
     [0x428a2f98, 0x71374491, 0xb5c0fbcf, 0xe9b5dba5, 0x3956c25b, 0x59f111f1, 0x923f82a4, 0xab1c5ed5,
      0xd807aa98, 0x12835b01, 0x243185be, 0x550c7dc3, 0x72be5d74, 0x80deb1fe, 0x9bdc06a7, 0xc19bf174,
      0xe49b69c1, 0xefbe4786, 0x0fc19dc6, 0x240ca1cc, 0x2de92c6f, 0x4a7484aa, 0x5cb0a9dc, 0x76f988da,
      0x983e5152, 0xa831c66d, 0xb00327c8, 0xbf597fc7, 0xc6e00bf3, 0xd5a79147, 0x06ca6351, 0x14292967,
      0x27b70a85, 0x2e1b2138, 0x4d2c6dfc, 0x53380d13, 0x650a7354, 0x766a0abb, 0x81c2c92e, 0x92722c85,
      0xa2bfe8a1, 0xa81a664b, 0xc24b8b70, 0xc76c51a3, 0xd192e819, 0xd6990624, 0xf40e3585, 0x106aa070,
      0x19a4c116, 0x1e376c08, 0x2748774c, 0x34b0bcb5, 0x391c0cb3, 0x4ed8aa4a, 0x5b9cca4f, 0x682e6ff3,
      0x748f82ee, 0x78a5636f, 0x84c87814, 0x8cc70208, 0x90befffa, 0xa4506ceb, 0xbef9a3f7, 0xc67178f2]"

record sha_state =
  sh_a :: word32
  sh_b :: word32
  sh_c :: word32
  sh_d :: word32
  sh_e :: word32
  sh_f :: word32
  sh_g :: word32
  sh_h :: word32

definition sha_init :: sha_state where
  "sha_init =
     \<lparr>sh_a = 0x6a09e667, sh_b = 0xbb67ae85, sh_c = 0x3c6ef372, sh_d = 0xa54ff53a,
      sh_e = 0x510e527f, sh_f = 0x9b05688c, sh_g = 0x1f83d9ab, sh_h = 0x5be0cd19\<rparr>"

text \<open>The message schedule: sixteen words of the block, then 48 computed ones.\<close>

definition schedule_word :: "word32 list \<Rightarrow> word32" where
  "schedule_word ws =
     (let n = length ws; v1 = ws ! (n - 2); v2 = ws ! (n - 15);
          t1 = word_rotr 17 v1 XOR word_rotr 19 v1 XOR drop_bit 10 v1;
          t2 = word_rotr 7 v2 XOR word_rotr 18 v2 XOR drop_bit 3 v2
      in t1 + ws ! (n - 7) + t2 + ws ! (n - 16))"

primrec extend_words :: "nat \<Rightarrow> word32 list \<Rightarrow> word32 list" where
  "extend_words 0 ws = ws"
| "extend_words (Suc n) ws = extend_words n (ws @ [schedule_word ws])"

definition sha_round :: "word32 \<Rightarrow> word32 \<Rightarrow> sha_state \<Rightarrow> sha_state" where
  "sha_round k w s =
     (let a = sh_a s; e = sh_e s;
          t1 = sh_h s + (word_rotr 6 e XOR word_rotr 11 e XOR word_rotr 25 e)
            + ((e AND sh_f s) XOR (NOT e AND sh_g s)) + k + w;
          t2 = (word_rotr 2 a XOR word_rotr 13 a XOR word_rotr 22 a)
            + ((a AND sh_b s) XOR (a AND sh_c s) XOR (sh_b s AND sh_c s))
      in \<lparr>sh_a = t1 + t2, sh_b = a, sh_c = sh_b s, sh_d = sh_c s,
          sh_e = sh_d s + t1, sh_f = e, sh_g = sh_f s, sh_h = sh_g s\<rparr>)"

definition sha_add :: "sha_state \<Rightarrow> sha_state \<Rightarrow> sha_state" where
  "sha_add s t =
     \<lparr>sh_a = sh_a s + sh_a t, sh_b = sh_b s + sh_b t, sh_c = sh_c s + sh_c t, sh_d = sh_d s + sh_d t,
      sh_e = sh_e s + sh_e t, sh_f = sh_f s + sh_f t, sh_g = sh_g s + sh_g t, sh_h = sh_h s + sh_h t\<rparr>"

definition sha_block :: "sha_state \<Rightarrow> word32 list \<Rightarrow> sha_state" where
  "sha_block s block = sha_add s (fold (\<lambda>(k, w). sha_round k w) (zip K256 (extend_words 48 block)) s)"

section \<open>Padding and words\<close>

text \<open>A one bit, zeros, and the length of the message in bits, to a multiple of 64 bytes.\<close>

definition be_bytes :: "nat \<Rightarrow> 'a::len word \<Rightarrow> byte list" where
  "be_bytes n w = map (\<lambda>i. ucast (drop_bit (8 * (n - 1 - i)) w)) [0..<n]"

definition sha_pad :: "byte list \<Rightarrow> byte list" where
  "sha_pad bs = bs @ [0x80] @ replicate ((119 - length bs mod 64) mod 64) 0 @
     be_bytes 8 (8 * word_of_nat (length bs) :: 64 word)"

fun be_words :: "byte list \<Rightarrow> word32 list" where
  "be_words (a # b # c # d # bs) =
     (push_bit 24 (ucast a) OR push_bit 16 (ucast b) OR push_bit 8 (ucast c) OR ucast d) # be_words bs"
| "be_words _ = []"

fun sha_blocks :: "sha_state \<Rightarrow> word32 list \<Rightarrow> sha_state" where
  "sha_blocks s ws = (if ws = [] then s else sha_blocks (sha_block s (take 16 ws)) (drop 16 ws))"

declare sha_blocks.simps [simp del]

definition sha_output :: "sha_state \<Rightarrow> byte list" where
  "sha_output s = concat (map (\<lambda>w. be_bytes 4 w)
     [sh_a s, sh_b s, sh_c s, sh_d s, sh_e s, sh_f s, sh_g s, sh_h s])"

definition sha256 :: "byte list \<Rightarrow> byte list" where
  "sha256 bs = sha_output (sha_blocks sha_init (be_words (sha_pad bs)))"

section \<open>Lengths\<close>

lemma length_be_bytes [simp]: "length (be_bytes n x) = n"
  by (simp add: be_bytes_def)

lemma length_sha256: "length (sha256 bs) = 32"
  by (simp add: sha256_def sha_output_def)

lemma length_sha_pad: "64 dvd length (sha_pad bs)"
proof -
  let ?r = "length bs mod 64"
  have r: "?r < 64" by simp
  have "(119 - ?r) mod 64 = (if ?r \<le> 55 then 55 - ?r else 119 - ?r)"
  proof (cases "?r \<le> 55")
    case True
    then have "119 - ?r = (55 - ?r) + 64" by simp
    also have "\<dots> mod 64 = 55 - ?r" by simp
    finally show ?thesis using True by simp
  qed simp
  then have "?r + ((119 - ?r) mod 64 + 9) = (if ?r \<le> 55 then 64 else 128)" using r by (auto split: if_splits)
  then have "64 dvd ?r + ((119 - ?r) mod 64 + 9)" by (simp split: if_splits)
  then have "64 dvd length bs + ((119 - ?r) mod 64 + 9)"
    by (metis dvd_eq_mod_eq_0 mod_add_left_eq)
  then show ?thesis by (simp add: sha_pad_def add.commute add.left_commute)
qed

end
