(* ===== verification/File_Path.thy ===== *)
theory File_Path
  imports Runtime
begin

text \<open>
  \<open>filepath.Base\<close>: the last element of a path, on Windows after its volume name (a drive, a UNC
  share or a device), as in \<open>path/filepath\<close> and \<open>internal/filepathlite\<close>.
\<close>

definition is_path_separator :: "bool \<Rightarrow> char \<Rightarrow> bool" where
  "is_path_separator windows c \<longleftrightarrow> c = CHR ''/'' \<or> windows \<and> c = CHR 0x5C"

text \<open>\<open>pathHasPrefixFold\<close>: a prefix up to case and kind of separator, followed by a separator or nothing.\<close>

fun path_prefix_fold :: "string \<Rightarrow> string \<Rightarrow> bool" where
  "path_prefix_fold [] path = (case path of [] \<Rightarrow> True | c # _ \<Rightarrow> is_path_separator True c)"
| "path_prefix_fold (p # ps) [] = False"
| "path_prefix_fold (p # ps) (c # path) =
     ((if is_path_separator True p then is_path_separator True c else upper_char p = upper_char c) \<and>
      path_prefix_fold ps path)"

text \<open>\<open>uncLen\<close>: up to the second separator after a prefix.\<close>

fun unc_rest :: "nat \<Rightarrow> string \<Rightarrow> nat" where
  "unc_rest count [] = 0"
| "unc_rest count (c # path) =
     (if is_path_separator True c then (if count = 1 then 0 else Suc (unc_rest (Suc count) path))
      else Suc (unc_rest count path))"

definition unc_len :: "string \<Rightarrow> nat \<Rightarrow> nat" where
  "unc_len path n = (if length path < n then length path else n + unc_rest 0 (drop n path))"

definition backslashes :: "string \<Rightarrow> string" where
  "backslashes s = map (\<lambda>c. if c = CHR ''/'' then CHR 0x5C else c) s"

definition volume_name_len :: "string \<Rightarrow> nat" where
  "volume_name_len path =
     (if 2 \<le> length path \<and> path ! 1 = CHR '':'' then 2
      else if path = [] \<or> \<not> is_path_separator True (hd path) then 0
      else if path_prefix_fold (backslashes ''//./UNC'') path then unc_len path 8
      else if path_prefix_fold (backslashes ''//.'') path \<or> path_prefix_fold (backslashes ''//?'') path \<or>
        path_prefix_fold (backslashes ''/??'') path
      then
        (if length path = 3 then 3
         else 4 + length (takeWhile (\<lambda>c. \<not> is_path_separator True c) (drop 4 path)))
      else if 2 \<le> length path \<and> is_path_separator True (path ! 1) then unc_len path 2
      else 0)"

definition filepath_base :: "bool \<Rightarrow> string \<Rightarrow> string" where
  "filepath_base windows path =
     (if path = '''' then ''.''
      else
        let sep = is_path_separator windows;
            path = rev (dropWhile sep (rev path));
            path = (if windows then drop (volume_name_len path) path else path);
            path = rev (takeWhile (\<lambda>c. \<not> sep c) (rev path))
        in if path = '''' then (if windows then backslashes ''/'' else ''/'') else path)"

text \<open>A file in a directory of a drive, and a file by its bare name.\<close>

lemma filepath_base_examples:
  "filepath_base True (backslashes ''C:/Program Files/signtool.exe'') = ''signtool.exe''"
  "filepath_base True ''C:signtool.exe'' = ''signtool.exe''" "filepath_base True ''signtool.exe'' = ''signtool.exe''"
  "filepath_base True ''//host/share'' = backslashes ''/''" "filepath_base False ''/usr/bin/ksp'' = ''ksp''"
  by code_simp+

text \<open>The base name of a path below the root of a drive has no separator.\<close>

lemma filepath_base_separator:
  "\<exists>c \<in> set path. \<not> is_path_separator windows c \<Longrightarrow> s \<in> set (filepath_base windows path) \<Longrightarrow>
    \<not> is_path_separator windows s \<or> filepath_base windows path = (if windows then backslashes ''/'' else ''/'')"
  by (auto simp: filepath_base_def Let_def dest: set_takeWhileD split: if_splits)

end
