(* ===== verification/Signing_Context.thy ===== *)
theory Signing_Context
  imports Command_Line Sha256 File_Path
begin

text \<open>
  The second half of \<open>internal/infisical/signing_context.go\<close>, with the two
  \<open>processCommandLine\<close> variants: the situation the provider observes once per process, what
  it says of it on every sign call (\<open>ClientMetadata\<close>), and what an approval request is scoped
  to (\<open>RequestScope\<close>). A struct that is sent is also given as the JSON object its tags
  produce; a \<open>json.RawMessage\<close> is \<open>None\<close> when it is nil.
\<close>

section \<open>Scope fields\<close>

definition scopeFieldCommand :: string where
  "scopeFieldCommand = ''command''"

definition scopeFieldSigningApplication :: string where
  "scopeFieldSigningApplication = ''signing_application''"

definition scopeFieldSigningApplicationHash :: string where
  "scopeFieldSigningApplicationHash = ''signing_application_hash''"

definition scopeFieldHostname :: string where
  "scopeFieldHostname = ''hostname''"

definition scopeFieldOSUsername :: string where
  "scopeFieldOSUsername = ''os_username''"

definition scopeFieldIPAddress :: string where
  "scopeFieldIPAddress = ''ip_address''"

definition scopeFieldDataHash :: string where
  "scopeFieldDataHash = ''data_hash''"

definition ScopeFieldNames :: "string list" where
  "ScopeFieldNames = [scopeFieldCommand, scopeFieldSigningApplication, scopeFieldSigningApplicationHash,
     scopeFieldHostname, scopeFieldOSUsername, scopeFieldIPAddress, scopeFieldDataHash]"

lemmas scope_field_defs =
  scopeFieldCommand_def scopeFieldSigningApplication_def scopeFieldSigningApplicationHash_def
  scopeFieldHostname_def scopeFieldOSUsername_def scopeFieldIPAddress_def scopeFieldDataHash_def

lemma scope_fields_distinct:
  "distinct ScopeFieldNames" "distinct (rev ScopeFieldNames)"
  by (simp_all add: ScopeFieldNames_def scope_field_defs)

lemmas scope_field_neq [simp] =
  scope_fields_distinct(1) [unfolded ScopeFieldNames_def, simplified]
  scope_fields_distinct(2) [unfolded ScopeFieldNames_def, simplified]

text \<open>A function that returns only an \<open>error\<close> is an option: \<open>None\<close> is \<open>nil\<close>.\<close>

fun ValidateScopeExclusions :: "go_rt \<Rightarrow> string list \<Rightarrow> go_error option" where
  "ValidateScopeExclusions G [] = None"
| "ValidateScopeExclusions G (name # excluded) =
     (if name \<notin> set ScopeFieldNames
      then Some (Errorf (''unknown scope field '' @ go_quote G name @
        '' (expected one of '' @ join_strings '', '' ScopeFieldNames @ '')''))
      else ValidateScopeExclusions G excluded)"

lemma ValidateScopeExclusions_None:
  "ValidateScopeExclusions G excluded = None \<longleftrightarrow> set excluded \<subseteq> set ScopeFieldNames"
  by (induction excluded) auto

section \<open>What the provider observes\<close>

record signing_context =
  sc_Command :: string
  sc_Application :: string
  sc_ApplicationHash :: string
  sc_Hostname :: string
  sc_OSUsername :: string

definition fileSHA256 :: "go_rt \<Rightarrow> os_env \<Rightarrow> string \<Rightarrow> string" where
  "fileSHA256 G env path = (case os_file env path of
       FileData content \<Rightarrow> hex_encode (sha256 (string_bytes content))
     | _ \<Rightarrow> '''')"

definition processCommandLine_windows :: "os_env \<Rightarrow> string list" where
  "processCommandLine_windows env = (case os_command_line env of
       None \<Rightarrow> os_args env
     | Some raw \<Rightarrow> (case os_decompose env raw of
           None \<Rightarrow> os_args env
         | Some args \<Rightarrow> if args = [] then os_args env else args))"

definition processCommandLine_other :: "os_env \<Rightarrow> string list" where
  "processCommandLine_other env = os_args env"

definition processCommandLine :: "os_env \<Rightarrow> string list" where
  "processCommandLine env =
     (if os_windows env then processCommandLine_windows env else processCommandLine_other env)"

definition observe_context :: "go_rt \<Rightarrow> os_env \<Rightarrow> signing_context" where
  "observe_context G env =
     \<lparr>sc_Command = truncateCommand (joinCommandArgs (redactCommandArgs G (processCommandLine env))),
      sc_Application = (case os_executable env of Some exe \<Rightarrow> filepath_base (os_windows env) exe | None \<Rightarrow> ''''),
      sc_ApplicationHash = (case os_executable env of Some exe \<Rightarrow> fileSHA256 G env exe | None \<Rightarrow> ''''),
      sc_Hostname = os_hostname env,
      sc_OSUsername = (case os_username env of Some u \<Rightarrow> u | None \<Rightarrow> '''')\<rparr>"

text \<open>
  \<open>signingCtxOnce\<close> with \<open>signingCtx\<close>: \<open>None\<close> until the first call, then what that call saw.
\<close>

definition CurrentSigningContext ::
  "go_rt \<Rightarrow> os_env \<Rightarrow> signing_context option \<Rightarrow> signing_context \<times> signing_context option" where
  "CurrentSigningContext G env once = (case once of
       Some ctx \<Rightarrow> (ctx, once)
     | None \<Rightarrow> (let ctx = observe_context G env in (ctx, Some ctx)))"

section \<open>What it sends\<close>

record client_metadata =
  cm_Tool :: string
  cm_SigningApplicationHash :: string
  cm_Hostname :: string
  cm_OSUsername :: string
  cm_Command :: string

record signing_scope =
  ss_Command :: string
  ss_SigningApplication :: string
  ss_SigningApplicationHash :: string
  ss_Hostname :: string
  ss_OSUsername :: string
  ss_IPAddress :: "json option"
  ss_DataHash :: string

definition ClientMetadata :: "signing_context \<Rightarrow> client_metadata" where
  "ClientMetadata c =
     \<lparr>cm_Tool = sc_Application c,
      cm_SigningApplicationHash = sc_ApplicationHash c,
      cm_Hostname = sc_Hostname c,
      cm_OSUsername = sc_OSUsername c,
      cm_Command = sc_Command c\<rparr>"

definition scopeSkipped :: json where
  "scopeSkipped = JNull"

text \<open>One pass of the loop over the excluded names.\<close>

definition exclude_field :: "string \<Rightarrow> signing_scope \<Rightarrow> signing_scope" where
  "exclude_field name scope =
     (if name = scopeFieldCommand then scope\<lparr>ss_Command := ''''\<rparr>
      else if name = scopeFieldSigningApplication then scope\<lparr>ss_SigningApplication := ''''\<rparr>
      else if name = scopeFieldSigningApplicationHash then scope\<lparr>ss_SigningApplicationHash := ''''\<rparr>
      else if name = scopeFieldHostname then scope\<lparr>ss_Hostname := ''''\<rparr>
      else if name = scopeFieldOSUsername then scope\<lparr>ss_OSUsername := ''''\<rparr>
      else if name = scopeFieldIPAddress then scope\<lparr>ss_IPAddress := Some scopeSkipped\<rparr>
      else if name = scopeFieldDataHash then scope\<lparr>ss_DataHash := ''''\<rparr>
      else scope)"

definition RequestScope :: "signing_context \<Rightarrow> string \<Rightarrow> string list \<Rightarrow> string \<Rightarrow> signing_scope" where
  "RequestScope c dataHash excluded pinnedIPAddress =
     fold exclude_field excluded
       \<lparr>ss_Command = sc_Command c,
        ss_SigningApplication = sc_Application c,
        ss_SigningApplicationHash = sc_ApplicationHash c,
        ss_Hostname = sc_Hostname c,
        ss_OSUsername = sc_OSUsername c,
        ss_IPAddress = (if pinnedIPAddress \<noteq> '''' then Some (JStr pinnedIPAddress) else None),
        ss_DataHash = dataHash\<rparr>"

text \<open>The JSON objects, by the struct tags; \<open>omitempty\<close> leaves a field out.\<close>

definition omit_empty :: "string \<Rightarrow> string \<Rightarrow> (string \<times> json) list" where
  "omit_empty key v = (if v = '''' then [] else [(key, JStr v)])"

definition metadata_json :: "client_metadata \<Rightarrow> json" where
  "metadata_json m = JObj
     (omit_empty ''tool'' (cm_Tool m) @
      omit_empty ''signingApplicationHash'' (cm_SigningApplicationHash m) @
      omit_empty ''hostname'' (cm_Hostname m) @
      omit_empty ''osUsername'' (cm_OSUsername m) @
      omit_empty ''command'' (cm_Command m))"

definition scope_fields :: "signing_scope \<Rightarrow> (string \<times> json) list" where
  "scope_fields s =
     omit_empty ''command'' (ss_Command s) @
     omit_empty ''signingApplication'' (ss_SigningApplication s) @
     omit_empty ''signingApplicationHash'' (ss_SigningApplicationHash s) @
     omit_empty ''hostname'' (ss_Hostname s) @
     omit_empty ''osUsername'' (ss_OSUsername s) @
     (case ss_IPAddress s of None \<Rightarrow> [] | Some j \<Rightarrow> [(''ipAddress'', j)]) @
     omit_empty ''dataHash'' (ss_DataHash s)"

definition scope_json :: "signing_scope \<Rightarrow> json" where
  "scope_json s = JObj (scope_fields s)"

section \<open>The scope as a function of its exclusions\<close>

definition unless_excluded :: "string list \<Rightarrow> string \<Rightarrow> string \<Rightarrow> string" where
  "unless_excluded excluded name v = (if name \<in> set excluded then '''' else v)"

lemma fold_exclude_field:
  "fold exclude_field excluded s =
     \<lparr>ss_Command = unless_excluded excluded scopeFieldCommand (ss_Command s),
      ss_SigningApplication = unless_excluded excluded scopeFieldSigningApplication (ss_SigningApplication s),
      ss_SigningApplicationHash = unless_excluded excluded scopeFieldSigningApplicationHash (ss_SigningApplicationHash s),
      ss_Hostname = unless_excluded excluded scopeFieldHostname (ss_Hostname s),
      ss_OSUsername = unless_excluded excluded scopeFieldOSUsername (ss_OSUsername s),
      ss_IPAddress = (if scopeFieldIPAddress \<in> set excluded then Some JNull else ss_IPAddress s),
      ss_DataHash = unless_excluded excluded scopeFieldDataHash (ss_DataHash s)\<rparr>"
  by (induction excluded arbitrary: s)
    (simp_all add: exclude_field_def unless_excluded_def scopeSkipped_def)

lemma map_of_omit_empty [simp]:
  "map_of (omit_empty key v @ xs) k = (if k = key \<and> v \<noteq> '''' then Some (JStr v) else map_of xs k)"
  by (simp add: omit_empty_def)

lemma map_of_omit_empty_last [simp]:
  "map_of (omit_empty key v) k = (if k = key \<and> v \<noteq> '''' then Some (JStr v) else None)"
  by (simp add: omit_empty_def)

lemma CurrentSigningContext_once:
  "CurrentSigningContext G env once = (c, once') \<Longrightarrow> once' = Some c"
  by (auto simp: CurrentSigningContext_def Let_def split: option.splits)

lemma map_of_address [simp]:
  "map_of ((case ip of None \<Rightarrow> [] | Some j \<Rightarrow> [(key, j)]) @ xs) k =
     (if k = key \<and> ip \<noteq> None then ip else map_of xs k)"
  by (cases ip) auto

lemma unless_excluded_iff: "unless_excluded excluded name v \<noteq> '''' \<longleftrightarrow> name \<notin> set excluded \<and> v \<noteq> ''''"
  by (simp add: unless_excluded_def)

lemma scope_fields_RequestScope:
  "scope_fields (RequestScope c dataHash excluded pinned) =
     omit_empty ''command'' (unless_excluded excluded ''command'' (sc_Command c)) @
     omit_empty ''signingApplication'' (unless_excluded excluded ''signing_application'' (sc_Application c)) @
     omit_empty ''signingApplicationHash'' (unless_excluded excluded ''signing_application_hash'' (sc_ApplicationHash c)) @
     omit_empty ''hostname'' (unless_excluded excluded ''hostname'' (sc_Hostname c)) @
     omit_empty ''osUsername'' (unless_excluded excluded ''os_username'' (sc_OSUsername c)) @
     (case (if ''ip_address'' \<in> set excluded then Some JNull else if pinned = '''' then None else Some (JStr pinned)) of
        None \<Rightarrow> [] | Some j \<Rightarrow> [(''ipAddress'', j)]) @
     omit_empty ''dataHash'' (unless_excluded excluded ''data_hash'' dataHash)"
  by (simp add: scope_fields_def RequestScope_def fold_exclude_field scope_field_defs)

lemma scope_address:
  "map_of (scope_fields (RequestScope c dataHash excluded pinned)) ''ipAddress'' =
     (if ''ip_address'' \<in> set excluded then Some JNull else if pinned = '''' then None else Some (JStr pinned)) \<and>
   distinct (map fst (scope_fields (RequestScope c dataHash excluded pinned)))"
proof
  show "map_of (scope_fields (RequestScope c dataHash excluded pinned)) ''ipAddress'' =
     (if ''ip_address'' \<in> set excluded then Some JNull else if pinned = '''' then None else Some (JStr pinned))"
    by (simp add: scope_fields_RequestScope del: map_of_append)
  show "distinct (map fst (scope_fields (RequestScope c dataHash excluded pinned)))"
    by (simp add: scope_fields_RequestScope omit_empty_def)
qed

section \<open>Properties\<close>

text \<open>C28: A text field of an approval scope is sent exactly when it was observed and its name is not
  excluded, with the value the sign call reported. The address is null when it is excluded, whatever
  is pinned; else the pinned address, else left to the server. No field occurs twice.\<close>

theorem approval_scope_fields:
  "list_all (\<lambda>(name, key, v). map_of (scope_fields (RequestScope c dataHash excluded pinned)) key =
      (if name \<in> set excluded \<or> v = '''' then None else Some (JStr v)))
    [(''command'', ''command'', cm_Command (ClientMetadata c)),
     (''signing_application'', ''signingApplication'', cm_Tool (ClientMetadata c)),
     (''signing_application_hash'', ''signingApplicationHash'', cm_SigningApplicationHash (ClientMetadata c)),
     (''hostname'', ''hostname'', cm_Hostname (ClientMetadata c)),
     (''os_username'', ''osUsername'', cm_OSUsername (ClientMetadata c)),
     (''data_hash'', ''dataHash'', dataHash)] \<and>
   map_of (scope_fields (RequestScope c dataHash excluded pinned)) ''ipAddress'' =
     (if ''ip_address'' \<in> set excluded then Some JNull else if pinned = '''' then None else Some (JStr pinned)) \<and>
   distinct (map fst (scope_fields (RequestScope c dataHash excluded pinned)))"
  using scope_address [of c dataHash excluded pinned]
  unfolding list.pred_inject prod.case
  by (intro conjI TrueI;
      (elim conjE, assumption)?;
      simp only: scope_fields_RequestScope map_of_omit_empty map_of_omit_empty_last map_of_address
        unless_excluded_iff ClientMetadata_def client_metadata.simps;
      simp add: unless_excluded_def)

end
