(* ===== verification/Config.thy ===== *)
theory Config
  imports Json_Decode Net_Address Signing_Context
begin

text \<open>
  \<open>internal/infisical/config.go\<close>: the JSON config file, the environment overrides, the defaults
  and the validation. Structs are records; a struct's decoder follows its field tags.
\<close>

section \<open>Data\<close>

definition EnvConfigPath :: string where
  "EnvConfigPath = ''INFISICAL_CONFIG''"

definition EnvClientID :: string where
  "EnvClientID = ''INFISICAL_UNIVERSAL_AUTH_CLIENT_ID''"

definition EnvClientSecret :: string where
  "EnvClientSecret = ''INFISICAL_UNIVERSAL_AUTH_CLIENT_SECRET''"

definition EnvServerURL :: string where
  "EnvServerURL = ''INFISICAL_SERVER_URL''"

definition EnvToken :: string where
  "EnvToken = ''INFISICAL_TOKEN''"

definition AuthMethodUniversalAuth :: string where
  "AuthMethodUniversalAuth = ''universal-auth''"

definition AuthMethodToken :: string where
  "AuthMethodToken = ''token''"

lemma auth_methods_neq [simp]: "AuthMethodUniversalAuth \<noteq> AuthMethodToken"
  "AuthMethodToken \<noteq> AuthMethodUniversalAuth" "AuthMethodToken \<noteq> []" "AuthMethodUniversalAuth \<noteq> []"
  by (simp_all add: AuthMethodUniversalAuth_def AuthMethodToken_def)

record tls_config =
  CACertPath :: string
  SkipVerify :: bool

record cache_config =
  TokenTTLSeconds :: int
  CertTTLSeconds :: int
  SignerTTLSeconds :: int

record auth_config =
  Method :: string
  ClientID :: string
  ClientSecret :: string
  Token :: string

record approval_config =
  SigningCount :: int
  SigningDuration :: string
  ExcludeScopeFields :: "string list"
  IPAddress :: string

record config =
  ServerURL :: string
  Auth :: auth_config
  TLS :: tls_config
  Cache :: cache_config
  Approval :: approval_config
  LogLevel :: string
  LogFile :: string

text \<open>\<open>var cfg Config\<close>: the zero value.\<close>

definition zero_config :: config where
  "zero_config =
     \<lparr>ServerURL = '''',
      Auth = \<lparr>Method = '''', ClientID = '''', ClientSecret = '''', Token = ''''\<rparr>,
      TLS = \<lparr>CACertPath = '''', SkipVerify = False\<rparr>,
      Cache = \<lparr>TokenTTLSeconds = 0, CertTTLSeconds = 0, SignerTTLSeconds = 0\<rparr>,
      Approval = \<lparr>SigningCount = 0, SigningDuration = '''', ExcludeScopeFields = [], IPAddress = ''''\<rparr>,
      LogLevel = '''',
      LogFile = ''''\<rparr>"

section \<open>Decoding, by the field tags\<close>

definition set_tls :: "string \<Rightarrow> json \<Rightarrow> tls_config \<Rightarrow> tls_config decoding" where
  "set_tls name j c =
     (if name = ''ca_cert_path'' then into (\<lambda>v. c\<lparr>CACertPath := v\<rparr>) (decode_string j (CACertPath c))
      else into (\<lambda>v. c\<lparr>SkipVerify := v\<rparr>) (decode_bool j (SkipVerify c)))"

definition decode_tls :: "go_rt \<Rightarrow> json \<Rightarrow> tls_config \<Rightarrow> tls_config decoding" where
  "decode_tls G = decode_struct G [''ca_cert_path'', ''skip_verify''] set_tls"

definition set_cache :: "go_rt \<Rightarrow> string \<Rightarrow> json \<Rightarrow> cache_config \<Rightarrow> cache_config decoding" where
  "set_cache G name j c =
     (if name = ''token_ttl_seconds'' then into (\<lambda>v. c\<lparr>TokenTTLSeconds := v\<rparr>) (decode_int G j (TokenTTLSeconds c))
      else if name = ''cert_ttl_seconds'' then into (\<lambda>v. c\<lparr>CertTTLSeconds := v\<rparr>) (decode_int G j (CertTTLSeconds c))
      else into (\<lambda>v. c\<lparr>SignerTTLSeconds := v\<rparr>) (decode_int G j (SignerTTLSeconds c)))"

definition decode_cache :: "go_rt \<Rightarrow> json \<Rightarrow> cache_config \<Rightarrow> cache_config decoding" where
  "decode_cache G =
     decode_struct G [''token_ttl_seconds'', ''cert_ttl_seconds'', ''signer_ttl_seconds''] (set_cache G)"

definition set_auth :: "string \<Rightarrow> json \<Rightarrow> auth_config \<Rightarrow> auth_config decoding" where
  "set_auth name j c =
     (if name = ''method'' then into (\<lambda>v. c\<lparr>Method := v\<rparr>) (decode_string j (Method c))
      else if name = ''client_id'' then into (\<lambda>v. c\<lparr>ClientID := v\<rparr>) (decode_string j (ClientID c))
      else if name = ''client_secret'' then into (\<lambda>v. c\<lparr>ClientSecret := v\<rparr>) (decode_string j (ClientSecret c))
      else into (\<lambda>v. c\<lparr>Token := v\<rparr>) (decode_string j (Token c)))"

definition decode_auth :: "go_rt \<Rightarrow> json \<Rightarrow> auth_config \<Rightarrow> auth_config decoding" where
  "decode_auth G = decode_struct G [''method'', ''client_id'', ''client_secret'', ''token''] set_auth"

definition set_approval :: "go_rt \<Rightarrow> string \<Rightarrow> json \<Rightarrow> approval_config \<Rightarrow> approval_config decoding" where
  "set_approval G name j c =
     (if name = ''signing_count'' then into (\<lambda>v. c\<lparr>SigningCount := v\<rparr>) (decode_int G j (SigningCount c))
      else if name = ''signing_duration'' then into (\<lambda>v. c\<lparr>SigningDuration := v\<rparr>) (decode_string j (SigningDuration c))
      else if name = ''exclude_scope_fields'' then
        into (\<lambda>v. c\<lparr>ExcludeScopeFields := v\<rparr>) (decode_string_list j (ExcludeScopeFields c))
      else into (\<lambda>v. c\<lparr>IPAddress := v\<rparr>) (decode_string j (IPAddress c)))"

definition decode_approval :: "go_rt \<Rightarrow> json \<Rightarrow> approval_config \<Rightarrow> approval_config decoding" where
  "decode_approval G =
     decode_struct G [''signing_count'', ''signing_duration'', ''exclude_scope_fields'', ''ip_address''] (set_approval G)"

definition set_config :: "go_rt \<Rightarrow> string \<Rightarrow> json \<Rightarrow> config \<Rightarrow> config decoding" where
  "set_config G name j c =
     (if name = ''server_url'' then into (\<lambda>v. c\<lparr>ServerURL := v\<rparr>) (decode_string j (ServerURL c))
      else if name = ''auth'' then into (\<lambda>v. c\<lparr>Auth := v\<rparr>) (decode_auth G j (Auth c))
      else if name = ''tls'' then into (\<lambda>v. c\<lparr>TLS := v\<rparr>) (decode_tls G j (TLS c))
      else if name = ''cache'' then into (\<lambda>v. c\<lparr>Cache := v\<rparr>) (decode_cache G j (Cache c))
      else if name = ''approval'' then into (\<lambda>v. c\<lparr>Approval := v\<rparr>) (decode_approval G j (Approval c))
      else if name = ''log_level'' then into (\<lambda>v. c\<lparr>LogLevel := v\<rparr>) (decode_string j (LogLevel c))
      else into (\<lambda>v. c\<lparr>LogFile := v\<rparr>) (decode_string j (LogFile c)))"

definition decode_config :: "go_rt \<Rightarrow> json \<Rightarrow> config \<Rightarrow> config decoding" where
  "decode_config G =
     decode_struct G [''server_url'', ''auth'', ''tls'', ''cache'', ''approval'', ''log_level'', ''log_file'']
       (set_config G)"

section \<open>Paths, defaults and overrides\<close>

definition program_data :: "os_env \<Rightarrow> string" where
  "program_data env = (let programData = os_getenv env ''ProgramData'' in
     if programData = '''' then ''C:'' @ [CHR 0x5C] @ ''ProgramData'' else programData)"

definition DefaultConfigPath :: "os_env \<Rightarrow> string" where
  "DefaultConfigPath env =
     (if os_windows env
      then program_data env @ [CHR 0x5C] @ ''Infisical'' @ [CHR 0x5C] @ ''config.json''
      else ''/etc/infisical/ksp.conf'')"

definition DefaultLogPath :: "os_env \<Rightarrow> string" where
  "DefaultLogPath env =
     (if os_windows env
      then program_data env @ [CHR 0x5C] @ ''Infisical'' @ [CHR 0x5C] @ ''ksp.log''
      else '''')"

definition ConfigPath :: "os_env \<Rightarrow> string" where
  "ConfigPath env = (let p = os_getenv env EnvConfigPath in if p \<noteq> '''' then p else DefaultConfigPath env)"

definition default_cache :: "cache_config \<Rightarrow> cache_config" where
  "default_cache c =
     \<lparr>TokenTTLSeconds = (if TokenTTLSeconds c = 0 then 300 else TokenTTLSeconds c),
      CertTTLSeconds = (if CertTTLSeconds c = 0 then 3600 else CertTTLSeconds c),
      SignerTTLSeconds = (if SignerTTLSeconds c = 0 then 300 else SignerTTLSeconds c)\<rparr>"

definition default_auth :: "auth_config \<Rightarrow> auth_config" where
  "default_auth a =
     (if Method a = ''''
      then a\<lparr>Method := (if Token a \<noteq> '''' then AuthMethodToken else AuthMethodUniversalAuth)\<rparr>
      else a)"

definition setDefaults :: "os_env \<Rightarrow> config \<Rightarrow> config" where
  "setDefaults env c =
     (let c = c\<lparr>Cache := default_cache (Cache c)\<rparr>;
          c = (if LogLevel c = '''' then c\<lparr>LogLevel := ''info''\<rparr> else c);
          c = c\<lparr>Auth := default_auth (Auth c)\<rparr>
      in if LogFile c = '''' then c\<lparr>LogFile := DefaultLogPath env\<rparr> else c)"

definition applyEnvOverrides :: "os_env \<Rightarrow> config \<Rightarrow> config" where
  "applyEnvOverrides env c =
     (let v = os_getenv env EnvServerURL;
          c = (if v \<noteq> '''' then c\<lparr>ServerURL := v\<rparr> else c);
          v = os_getenv env EnvClientID;
          c = (if v \<noteq> '''' then c\<lparr>Auth := (Auth c)\<lparr>ClientID := v\<rparr>\<rparr> else c);
          v = os_getenv env EnvClientSecret;
          c = (if v \<noteq> '''' then c\<lparr>Auth := (Auth c)\<lparr>ClientSecret := v\<rparr>\<rparr> else c);
          v = os_getenv env EnvToken
      in if v \<noteq> '''' then c\<lparr>Auth := (Auth c)\<lparr>Token := v, Method := AuthMethodToken\<rparr>\<rparr> else c)"

section \<open>Validation and loading\<close>

definition validate_duration :: "go_rt \<Rightarrow> string \<Rightarrow> go_error option" where
  "validate_duration G duration =
     (if duration = '''' then None
      else case parseApprovalDuration G duration of
          Inl err \<Rightarrow> Some (WrapErrorf (''invalid approval.signing_duration '' @ go_quote G duration @ '': '' @ error_text err) err)
        | Inr d \<Rightarrow>
            if d < Minute \<or> 30 * 24 * Hour < d
            then Some (Errorf (''approval.signing_duration must be between 1m and 30d, got '' @ go_quote G duration))
            else None)"

definition validate_approval :: "go_rt \<Rightarrow> approval_config \<Rightarrow> go_error option" where
  "validate_approval G a = (case validate_duration G (SigningDuration a) of
       Some err \<Rightarrow> Some err
     | None \<Rightarrow>
         if SigningCount a < 0
         then Some (Errorf (''approval.signing_count must be zero or a positive integer, got '' @ int_string (SigningCount a)))
         else case ValidateScopeExclusions G (ExcludeScopeFields a) of
             Some err \<Rightarrow> Some (WrapErrorf (''invalid approval.exclude_scope_fields: '' @ error_text err) err)
           | None \<Rightarrow>
               if IPAddress a \<noteq> '''' \<and> \<not> ParseIP (IPAddress a)
               then Some (Errorf (''approval.ip_address must be an IP address, got '' @ go_quote G (IPAddress a)))
               else None)"

definition validate :: "go_rt \<Rightarrow> config \<Rightarrow> go_error option" where
  "validate G c =
     (if ServerURL c = '''' then Some (Errorf ''server_url is required'')
      else case rt_url G (ServerURL c) of
          Inl msg \<Rightarrow> Some (WrapErrorf (''server_url is not a valid URL: '' @ msg) (StdError msg))
        | Inr (scheme, host) \<Rightarrow>
            if to_lower G scheme \<noteq> ''http'' \<and> to_lower G scheme \<noteq> ''https''
            then Some (Errorf (''server_url scheme must be http or https, got '' @ go_quote G scheme))
            else if host = '''' then Some (Errorf ''server_url must include a host'')
            else if Method (Auth c) \<noteq> AuthMethodUniversalAuth \<and> Method (Auth c) \<noteq> AuthMethodToken
            then Some (Errorf (''unsupported auth method: '' @ Method (Auth c) @
              '' (must be '' @ [CHR 0x27] @ ''universal-auth'' @ [CHR 0x27] @ '' or '' @
              [CHR 0x27] @ ''token'' @ [CHR 0x27] @ '')''))
            else validate_approval G (Approval c))"

definition loadConfigFrom :: "go_rt \<Rightarrow> os_env \<Rightarrow> string \<Rightarrow> bool \<Rightarrow> config result" where
  "loadConfigFrom G env path allowMissing =
     (let finish = (\<lambda>cfg.
            let cfg = applyEnvOverrides env (setDefaults env cfg) in
            case validate G cfg of
              Some err \<Rightarrow> Inl (WrapErrorf (''invalid config: '' @ error_text err) err)
            | None \<Rightarrow> Inr cfg);
          unparsed = (\<lambda>err. Inl (WrapErrorf (''failed to parse config file '' @ path @ '': '' @ error_text err) err));
          unread = (\<lambda>err. Inl (WrapErrorf (''failed to read config file '' @ path @ '': '' @ error_text err) err))
      in case os_file env path of
           FileData content \<Rightarrow>
             (case json_parse content of
                None \<Rightarrow> unparsed (StdError ''json: syntax error'')
              | Some j \<Rightarrow>
                  (let (cfg, ok) = decode_config G j zero_config in
                   if ok then finish cfg else unparsed (StdError ''json: cannot unmarshal'')))
         | FileNotExist \<Rightarrow>
             (if allowMissing then finish zero_config else unread (StdError ''file does not exist''))
         | FileError msg \<Rightarrow> unread (StdError msg))"

definition LoadConfig :: "go_rt \<Rightarrow> os_env \<Rightarrow> config result" where
  "LoadConfig G env = loadConfigFrom G env (ConfigPath env) (os_getenv env EnvConfigPath = '''')"


section \<open>Properties\<close>

text \<open>The environment a variable at a time: a set variable wins over the file.\<close>

definition env_or :: "os_env \<Rightarrow> string \<Rightarrow> string \<Rightarrow> string" where
  "env_or env name v = (if os_getenv env name \<noteq> '''' then os_getenv env name else v)"

lemma applyEnvOverrides_eq:
  "applyEnvOverrides env c = c\<lparr>
     ServerURL := env_or env EnvServerURL (ServerURL c),
     Auth := \<lparr>Method = (if os_getenv env EnvToken \<noteq> '''' then AuthMethodToken else Method (Auth c)),
       ClientID = env_or env EnvClientID (ClientID (Auth c)),
       ClientSecret = env_or env EnvClientSecret (ClientSecret (Auth c)),
       Token = env_or env EnvToken (Token (Auth c))\<rparr>\<rparr>"
  by (simp add: applyEnvOverrides_def env_or_def Let_def)

lemma setDefaults_eq:
  "setDefaults env c = c\<lparr>
     Cache := default_cache (Cache c),
     LogLevel := (if LogLevel c = '''' then ''info'' else LogLevel c),
     Auth := default_auth (Auth c),
     LogFile := (if LogFile c = '''' then DefaultLogPath env else LogFile c)\<rparr>"
  by (simp add: setDefaults_def Let_def)

text \<open>What a validated config satisfies, clause by clause.\<close>

definition valid_duration :: "go_rt \<Rightarrow> string \<Rightarrow> bool" where
  "valid_duration G s \<longleftrightarrow> s = '''' \<or> (\<exists>d. parseApprovalDuration G s = Inr d \<and> Minute \<le> d \<and> d \<le> 30 * 24 * Hour)"

definition valid_approval :: "go_rt \<Rightarrow> approval_config \<Rightarrow> bool" where
  "valid_approval G a \<longleftrightarrow> valid_duration G (SigningDuration a) \<and> 0 \<le> SigningCount a \<and>
     set (ExcludeScopeFields a) \<subseteq> set ScopeFieldNames \<and>
     (IPAddress a = '''' \<or> ParseIP (IPAddress a))"

definition valid_url :: "go_rt \<Rightarrow> string \<Rightarrow> bool" where
  "valid_url G u \<longleftrightarrow> u \<noteq> '''' \<and>
     (\<exists>scheme host. rt_url G u = Inr (scheme, host) \<and> to_lower G scheme \<in> {''http'', ''https''} \<and> host \<noteq> '''')"

lemma validate_duration_None: "validate_duration G s = None \<longleftrightarrow> valid_duration G s"
  by (auto simp: validate_duration_def valid_duration_def not_less split: sum.splits)

lemma validate_approval_None: "validate_approval G a = None \<longleftrightarrow> valid_approval G a"
proof -
  have "ValidateScopeExclusions G (ExcludeScopeFields a) = None \<longleftrightarrow> set (ExcludeScopeFields a) \<subseteq> set ScopeFieldNames"
    by (rule ValidateScopeExclusions_None)
  moreover have "validate_duration G (SigningDuration a) = None \<longleftrightarrow> valid_duration G (SigningDuration a)"
    by (rule validate_duration_None)
  ultimately show ?thesis
    by (auto simp: validate_approval_def valid_approval_def not_less split: option.splits if_splits)
qed

lemma validate_None:
  "validate G c = None \<longleftrightarrow>
     valid_url G (ServerURL c) \<and> Method (Auth c) \<in> {AuthMethodUniversalAuth, AuthMethodToken} \<and>
     valid_approval G (Approval c)"
  by (auto simp: validate_def valid_url_def validate_approval_None split: sum.splits prod.splits if_splits)

text \<open>
  Loading factors through the file: the config is the overridden, defaulted contents of a file
  (the zero config where none is needed), and it was validated after the overrides.
\<close>

inductive config_file :: "go_rt \<Rightarrow> os_env \<Rightarrow> string \<Rightarrow> bool \<Rightarrow> config \<Rightarrow> bool"
  for G env path allowMissing where
  Present: "os_file env path = FileData content \<Longrightarrow> json_parse content = Some j \<Longrightarrow>
    decode_config G j zero_config = (file, True) \<Longrightarrow> config_file G env path allowMissing file"
| Absent: "os_file env path = FileNotExist \<Longrightarrow> allowMissing \<Longrightarrow>
    config_file G env path allowMissing zero_config"

inductive_cases config_file_cases: "config_file G env path allowMissing raw"

lemma loadConfigFrom_Inr:
  assumes "loadConfigFrom G env path allowMissing = Inr cfg"
  obtains raw where "config_file G env path allowMissing raw"
    "cfg = applyEnvOverrides env (setDefaults env raw)" "validate G cfg = None"
  using assms
  by (auto simp: loadConfigFrom_def Let_def intro: config_file.intros
      split: file_result.splits option.splits prod.splits if_splits)

lemma loadConfigFrom_file:
  assumes "config_file G env path allowMissing raw"
  shows "loadConfigFrom G env path allowMissing =
    (let cfg = applyEnvOverrides env (setDefaults env raw) in
     case validate G cfg of
       Some err \<Rightarrow> Inl (WrapErrorf (''invalid config: '' @ error_text err) err)
     | None \<Rightarrow> Inr cfg)"
  using assms by (auto elim!: config_file_cases simp: loadConfigFrom_def Let_def)

lemma loadConfigFrom_no_file:
  "\<nexists>raw. config_file G env path allowMissing raw \<Longrightarrow> \<exists>e. loadConfigFrom G env path allowMissing = Inl e"
  by (auto simp: loadConfigFrom_def Let_def intro: config_file.intros
      split: file_result.splits option.splits prod.splits if_splits)

text \<open>A config error is neither an API error nor the handle sentinel.\<close>

definition local_error :: "go_error \<Rightarrow> bool" where
  "local_error e \<longleftrightarrow> as_api e = None \<and> \<not> is_bad_handle e"

lemma local_error_simps [simp]:
  "local_error (Errorf m)" "local_error (StdError m)" "local_error (WrapErrorf m e) = local_error e"
  "\<not> local_error ErrBadHandle" "\<not> local_error (APIError a)"
  "local_error (RequestError op e) = local_error e"
  by (simp_all add: local_error_def)

lemma ParseDuration_error: "ParseDuration s = Inl e \<Longrightarrow> local_error e"
  by (auto simp: ParseDuration_def Let_def split: prod.splits if_splits sum.splits)

lemma parseApprovalDuration_error: "parseApprovalDuration G s = Inl e \<Longrightarrow> local_error e"
  by (auto simp: parseApprovalDuration_def dest: ParseDuration_error split: if_splits option.splits)

lemma ValidateScopeExclusions_error: "ValidateScopeExclusions G ex = Some e \<Longrightarrow> local_error e"
  by (induction ex) (auto split: if_splits)

lemma validate_approval_error: "validate_approval G a = Some e \<Longrightarrow> local_error e"
  by (auto simp: validate_approval_def validate_duration_def
      dest: ValidateScopeExclusions_error parseApprovalDuration_error split: option.splits if_splits sum.splits)

lemma validate_error: "validate G c = Some e \<Longrightarrow> local_error e"
  by (auto simp: validate_def dest: validate_approval_error split: sum.splits prod.splits if_splits)

lemma loadConfigFrom_error: "loadConfigFrom G env path allowMissing = Inl e \<Longrightarrow> local_error e"
  by (auto simp: loadConfigFrom_def Let_def dest: validate_error
      split: file_result.splits option.splits prod.splits if_splits)

end
