(* ===== verification/Client.thy ===== *)
theory Client
  imports Config
begin

text \<open>
  \<open>internal/infisical/client.go\<close>: the five calls of the Infisical REST API. The transport
  (\<open>go-resty\<close> and the server behind it) is a parameter, the field \<open>w_server\<close> of the world: the
  reply to a request, given the requests sent before it. A reply is a transport failure or a
  status, the raw body and the JSON document that resty decoded into the call's result (\<open>None\<close>
  where it decoded nothing; a document of the wrong shape is a transport failure of resty).
  Sending appends to the trace \<open>w_sent\<close>, so every theorem about what leaves the machine is a
  theorem about that list.
\<close>

section \<open>The outside world\<close>

datatype http_method = GET | POST

definition userAgent :: string where
  "userAgent = ''infisical-ksp''"

definition clientTimeout :: int where
  "clientTimeout = 30 * Second"

text \<open>\<open>tls.VersionTLS12\<close> of the standard library.\<close>

definition VersionTLS12 :: "16 word" where
  "VersionTLS12 = 0x0303"

text \<open>The \<open>resty\<close> client, by what \<open>NewClient\<close> sets on it and on its \<open>tls.Config\<close>; without root
  certificates of its own (\<open>None\<close>) the client trusts those of the system.\<close>

record client =
  cl_BaseURL :: string
  cl_MinVersion :: "16 word"
  cl_SkipVerify :: bool
  cl_RootCAs :: "string option"
  cl_Timeout :: int
  cl_UserAgent :: string

text \<open>A request with the client that makes it: its URL is the path below the client's base URL, and
  the client's TLS settings, timeout and header go with it.\<close>

record http_request =
  rq_Client :: client
  rq_Method :: http_method
  rq_Path :: string
  rq_AuthToken :: "string option"
  rq_Query :: "(string \<times> string) list"
  rq_Body :: "json option"

datatype http_reply =
    HttpFailed go_error
  | HttpReply int string "json option"

text \<open>An entry of \<open>authFailCache\<close> (\<open>session.go\<close>).\<close>

record auth_failure =
  af_err :: go_error
  af_until :: int

record world =
  w_server :: "http_request list \<Rightarrow> http_request \<Rightarrow> http_reply"
  w_sent :: "http_request list"
  w_time :: "nat \<Rightarrow> int"                     \<comment> \<open>the \<open>n\<close>th reading of \<open>time.Now\<close>, in nanoseconds\<close>
  w_ticks :: nat                            \<comment> \<open>readings so far\<close>
  w_authFail :: "string \<Rightarrow> auth_failure option"
  w_signingCtx :: "signing_context option"
  w_os :: os_env

definition now :: "world \<Rightarrow> int \<times> world" where
  "now w = (w_time w (w_ticks w), w\<lparr>w_ticks := Suc (w_ticks w)\<rparr>)"

definition send :: "http_request \<Rightarrow> world \<Rightarrow> http_reply \<times> world" where
  "send rq w = (w_server w (w_sent w) rq, w\<lparr>w_sent := w_sent w @ [rq]\<rparr>)"

section \<open>Client\<close>

definition NewClient :: "go_rt \<Rightarrow> os_env \<Rightarrow> config \<Rightarrow> client result" where
  "NewClient G env cfg =
     (let client = (\<lambda>pool. \<lparr>cl_BaseURL = trim_right_char CHR ''/'' (ServerURL cfg),
            cl_MinVersion = VersionTLS12, cl_SkipVerify = SkipVerify (TLS cfg), cl_RootCAs = pool,
            cl_Timeout = clientTimeout, cl_UserAgent = userAgent\<rparr>);
          path = CACertPath (TLS cfg)
      in if path = '''' then Inr (client None)
         else case os_file env path of
             FileData caCert \<Rightarrow>
               if rt_cert_pool G caCert then Inr (client (Some caCert))
               else Inl (Errorf (''failed to parse CA cert from '' @ path))
           | FileNotExist \<Rightarrow>
               Inl (WrapErrorf ''failed to read CA cert: file does not exist'' (StdError ''file does not exist''))
           | FileError msg \<Rightarrow> Inl (WrapErrorf (''failed to read CA cert: '' @ msg) (StdError msg)))"

section \<open>Errors of a call\<close>

record api_error_body =
  eb_Message :: string
  eb_Error :: string
  eb_HasPendingRequest :: bool

definition set_error_body :: "go_rt \<Rightarrow> string \<Rightarrow> json \<Rightarrow> api_error_body \<Rightarrow> api_error_body decoding" where
  "set_error_body G name j b =
     (if name = ''message'' then into (\<lambda>v. b\<lparr>eb_Message := v\<rparr>) (decode_string j (eb_Message b))
      else if name = ''error'' then into (\<lambda>v. b\<lparr>eb_Error := v\<rparr>) (decode_string j (eb_Error b))
      else into (\<lambda>v. b\<lparr>eb_HasPendingRequest := v\<rparr>)
        (decode_struct G [''hasPendingRequest''] (\<lambda>_. decode_bool) j (eb_HasPendingRequest b)))"

definition decode_error_body :: "go_rt \<Rightarrow> string \<Rightarrow> api_error_body decoding" where
  "decode_error_body G body =
     (let zero = \<lparr>eb_Message = '''', eb_Error = '''', eb_HasPendingRequest = False\<rparr> in
      case json_parse body of
        None \<Rightarrow> (zero, False)
      | Some j \<Rightarrow> decode_struct G [''message'', ''error'', ''details''] (set_error_body G) j zero)"

definition newAPIError :: "go_rt \<Rightarrow> string \<Rightarrow> int \<Rightarrow> string \<Rightarrow> go_error" where
  "newAPIError G operation status raw =
     (let (body, ok) = decode_error_body G raw;
          msg = (if ok \<and> eb_Message body \<noteq> '''' then eb_Message body
                 else if ok \<and> eb_Error body \<noteq> '''' then eb_Error body
                 else ''HTTP '' @ int_string status)
      in APIError
        \<lparr>ae_Operation = operation,
         ae_StatusCode = status,
         ae_Message = msg,
         ae_Code = eb_Error body,
         ae_HasPendingRequest = eb_HasPendingRequest body\<rparr>)"

text \<open>The three branches every call ends with: transport failure, error status, result.\<close>

definition call_result ::
  "go_rt \<Rightarrow> string \<Rightarrow> http_reply \<Rightarrow> (json option \<Rightarrow> 'a result) \<Rightarrow> 'a result" where
  "call_result G operation reply out = (case reply of
       HttpFailed err \<Rightarrow> Inl (RequestError operation err)
     | HttpReply status body j \<Rightarrow>
         if 399 < status then Inl (newAPIError G operation status body) else out j)"

section \<open>Login\<close>

record login_response =
  lr_AccessToken :: string
  lr_ExpiresIn :: int

definition set_login :: "go_rt \<Rightarrow> string \<Rightarrow> json \<Rightarrow> login_response \<Rightarrow> login_response decoding" where
  "set_login G name j r =
     (if name = ''accessToken'' then into (\<lambda>v. r\<lparr>lr_AccessToken := v\<rparr>) (decode_string j (lr_AccessToken r))
      else into (\<lambda>v. r\<lparr>lr_ExpiresIn := v\<rparr>) (decode_int G j (lr_ExpiresIn r)))"

definition decode_login :: "go_rt \<Rightarrow> json option \<Rightarrow> login_response" where
  "decode_login G out =
     (let zero = \<lparr>lr_AccessToken = '''', lr_ExpiresIn = 0\<rparr> in
      case out of None \<Rightarrow> zero
      | Some j \<Rightarrow> fst (decode_struct G [''accessToken'', ''expiresIn''] (set_login G) j zero))"

definition login_request :: "client \<Rightarrow> string \<Rightarrow> string \<Rightarrow> http_request" where
  "login_request c clientID clientSecret =
     \<lparr>rq_Client = c, rq_Method = POST,
      rq_Path = ''/api/v1/auth/universal-auth/login'',
      rq_AuthToken = None, rq_Query = [],
      rq_Body = Some (JObj [(''clientId'', JStr clientID), (''clientSecret'', JStr clientSecret)])\<rparr>"

definition Login ::
  "go_rt \<Rightarrow> client \<Rightarrow> string \<Rightarrow> string \<Rightarrow> world \<Rightarrow> (string \<times> int) result \<times> world" where
  "Login G c clientID clientSecret w =
     (let (reply, w) = send (login_request c clientID clientSecret) w in
      (call_result G ''login'' reply (\<lambda>j.
         let out = decode_login G j in
         if lr_AccessToken out = ''''
         then Inl (RequestError ''login'' (Errorf ''login response had no access token''))
         else Inr (lr_AccessToken out, wrap64 (lr_ExpiresIn out * Second))), w))"

section \<open>ListSigners\<close>

record signer =
  sg_ID :: string
  sg_Name :: string
  sg_Status :: string
  sg_CertificateID :: string
  sg_KeyAlgorithm :: string
  sg_ApprovalPolicyID :: "string option"

definition set_signer :: "string \<Rightarrow> json \<Rightarrow> signer \<Rightarrow> signer decoding" where
  "set_signer name j s =
     (if name = ''id'' then into (\<lambda>v. s\<lparr>sg_ID := v\<rparr>) (decode_string j (sg_ID s))
      else if name = ''name'' then into (\<lambda>v. s\<lparr>sg_Name := v\<rparr>) (decode_string j (sg_Name s))
      else if name = ''status'' then into (\<lambda>v. s\<lparr>sg_Status := v\<rparr>) (decode_string j (sg_Status s))
      else if name = ''certificateId'' then into (\<lambda>v. s\<lparr>sg_CertificateID := v\<rparr>) (decode_string j (sg_CertificateID s))
      else if name = ''keyAlgorithm'' then into (\<lambda>v. s\<lparr>sg_KeyAlgorithm := v\<rparr>) (decode_string j (sg_KeyAlgorithm s))
      else (case j of
          JNull \<Rightarrow> (s\<lparr>sg_ApprovalPolicyID := None\<rparr>, True)
        | JStr p \<Rightarrow> (s\<lparr>sg_ApprovalPolicyID := Some p\<rparr>, True)
        | _ \<Rightarrow> (s, False)))"

definition decode_signer :: "go_rt \<Rightarrow> json \<Rightarrow> signer" where
  "decode_signer G j = fst (decode_struct G
     [''id'', ''name'', ''status'', ''certificateId'', ''keyAlgorithm'', ''approvalPolicyId''] set_signer j
     \<lparr>sg_ID = '''', sg_Name = '''', sg_Status = '''', sg_CertificateID = '''', sg_KeyAlgorithm = '''',
      sg_ApprovalPolicyID = None\<rparr>)"

text \<open>The slice is \<open>None\<close> when it is nil: no \<open>signers\<close> member, or \<open>null\<close>.\<close>

definition decode_signers :: "go_rt \<Rightarrow> json option \<Rightarrow> signer list option" where
  "decode_signers G out = (case out of
       None \<Rightarrow> None
     | Some j \<Rightarrow> fst (decode_struct G [''signers'']
         (\<lambda>_ j old. case j of
            JNull \<Rightarrow> (None, True)
          | JArr js \<Rightarrow> (Some (map (decode_signer G) js), True)
          | _ \<Rightarrow> (old, False)) j None))"

definition list_signers_request :: "client \<Rightarrow> string \<Rightarrow> http_request" where
  "list_signers_request c token =
     \<lparr>rq_Client = c, rq_Method = GET,
      rq_Path = ''/api/v1/cert-manager/signers'',
      rq_AuthToken = Some token, rq_Query = [(''limit'', ''100'')], rq_Body = None\<rparr>"

definition ListSigners :: "go_rt \<Rightarrow> client \<Rightarrow> string \<Rightarrow> world \<Rightarrow> signer list option result \<times> world" where
  "ListSigners G c token w =
     (let (reply, w) = send (list_signers_request c token) w in
      (call_result G ''list-signers'' reply (\<lambda>j. Inr (decode_signers G j)), w))"

section \<open>GetCertificate\<close>

definition signer_path :: "string \<Rightarrow> string \<Rightarrow> string" where
  "signer_path signerID action = ''/api/v1/cert-manager/signers/'' @ PathEscape signerID @ ''/'' @ action"

record signer_cert_response =
  cr_CertificatePem :: string
  cr_SignerName :: string

definition decode_cert :: "go_rt \<Rightarrow> json option \<Rightarrow> signer_cert_response" where
  "decode_cert G out =
     (let zero = \<lparr>cr_CertificatePem = '''', cr_SignerName = ''''\<rparr> in
      case out of None \<Rightarrow> zero
      | Some j \<Rightarrow> fst (decode_struct G [''certificatePem'', ''signerName'']
          (\<lambda>name j r. if name = ''certificatePem''
             then into (\<lambda>v. r\<lparr>cr_CertificatePem := v\<rparr>) (decode_string j (cr_CertificatePem r))
             else into (\<lambda>v. r\<lparr>cr_SignerName := v\<rparr>) (decode_string j (cr_SignerName r))) j zero))"

definition certificate_request :: "client \<Rightarrow> string \<Rightarrow> string \<Rightarrow> http_request" where
  "certificate_request c token signerID =
     \<lparr>rq_Client = c, rq_Method = GET,
      rq_Path = signer_path signerID ''certificate'',
      rq_AuthToken = Some token, rq_Query = [], rq_Body = None\<rparr>"

definition GetCertificate :: "go_rt \<Rightarrow> client \<Rightarrow> string \<Rightarrow> string \<Rightarrow> world \<Rightarrow> string result \<times> world" where
  "GetCertificate G c token signerID w =
     (let (reply, w) = send (certificate_request c token signerID) w in
      (call_result G ''get-certificate'' reply (\<lambda>j. Inr (cr_CertificatePem (decode_cert G j))), w))"

section \<open>Sign\<close>

record sign_params =
  sp_DataB64 :: string
  sp_SigningAlgorithm :: string
  sp_IsDigest :: bool
  sp_ClientMetadata :: client_metadata

definition sign_params_json :: "sign_params \<Rightarrow> json" where
  "sign_params_json p = JObj
     [(''data'', JStr (sp_DataB64 p)),
      (''signingAlgorithm'', JStr (sp_SigningAlgorithm p)),
      (''isDigest'', JBool (sp_IsDigest p)),
      (''clientMetadata'', metadata_json (sp_ClientMetadata p))]"

definition decode_signature :: "go_rt \<Rightarrow> json option \<Rightarrow> string" where
  "decode_signature G out = (case out of
       None \<Rightarrow> ''''
     | Some j \<Rightarrow> fst (decode_struct G [''signature''] (\<lambda>_. decode_string) j ''''))"

definition sign_request :: "client \<Rightarrow> string \<Rightarrow> string \<Rightarrow> sign_params \<Rightarrow> http_request" where
  "sign_request c token signerID p =
     \<lparr>rq_Client = c, rq_Method = POST,
      rq_Path = signer_path signerID ''sign'',
      rq_AuthToken = Some token, rq_Query = [], rq_Body = Some (sign_params_json p)\<rparr>"

definition client_Sign ::
  "go_rt \<Rightarrow> client \<Rightarrow> string \<Rightarrow> string \<Rightarrow> sign_params \<Rightarrow> world \<Rightarrow> string result \<times> world" where
  "client_Sign G c token signerID p w =
     (let (reply, w) = send (sign_request c token signerID p) w in
      (call_result G ''sign'' reply (\<lambda>j. Inr (decode_signature G j)), w))"

section \<open>RequestApproval\<close>

record approval_params =
  ap_Justification :: string
  ap_RequestedSignings :: int
  ap_RequestedWindowDuration :: string
  ap_Scope :: signing_scope

definition approval_params_json :: "approval_params \<Rightarrow> json" where
  "approval_params_json p = JObj
     ([(''justification'', JStr (ap_Justification p))] @
      (if ap_RequestedSignings p = 0 then []
       else [(''requestedSignings'', JNum (int_string (ap_RequestedSignings p)))]) @
      omit_empty ''requestedWindowDuration'' (ap_RequestedWindowDuration p) @
      [(''scope'', scope_json (ap_Scope p))])"

definition decode_approval_reply :: "go_rt \<Rightarrow> json option \<Rightarrow> string \<times> string" where
  "decode_approval_reply G out = (case out of
       None \<Rightarrow> ('''', '''')
     | Some j \<Rightarrow> fst (decode_struct G [''id'', ''status'']
         (\<lambda>name j (i, s). if name = ''id''
            then into (\<lambda>v. (v, s)) (decode_string j i) else into (\<lambda>v. (i, v)) (decode_string j s))
         j ('''', '''')))"

definition approval_request :: "client \<Rightarrow> string \<Rightarrow> string \<Rightarrow> approval_params \<Rightarrow> http_request" where
  "approval_request c token signerID p =
     \<lparr>rq_Client = c, rq_Method = POST,
      rq_Path = signer_path signerID ''requests'',
      rq_AuthToken = Some token, rq_Query = [], rq_Body = Some (approval_params_json p)\<rparr>"

definition RequestApproval ::
  "go_rt \<Rightarrow> client \<Rightarrow> string \<Rightarrow> string \<Rightarrow> approval_params \<Rightarrow> world \<Rightarrow> (string \<times> string) result \<times> world" where
  "RequestApproval G c token signerID p w =
     (let (reply, w) = send (approval_request c token signerID p) w in
      (call_result G ''request-approval'' reply (\<lambda>j. Inr (decode_approval_reply G j)), w))"

section \<open>The contract of a call\<close>

text \<open>
  Every call sends exactly one request, changes nothing else of the world, reports a transport
  failure as a \<open>RequestError\<close> of its operation and an error status as an \<open>APIError\<close> that keeps
  the status.
\<close>

locale api_call =
  fixes G :: go_rt
    and operation :: string
    and rq :: http_request
    and run :: "world \<Rightarrow> 'a result \<times> world"
  assumes sends: "snd (run w) = snd (send rq w)"
    and failed: "w_server w (w_sent w) rq = HttpFailed err \<Longrightarrow> fst (run w) = Inl (RequestError operation err)"
    and error_status: "w_server w (w_sent w) rq = HttpReply status body out \<Longrightarrow> 399 < status \<Longrightarrow>
      fst (run w) = Inl (newAPIError G operation status body)"
    and success_status: "w_server w (w_sent w) rq = HttpReply status body out \<Longrightarrow> status \<le> 399 \<Longrightarrow>
      fst (run w) = Inl e \<Longrightarrow> \<exists>m. e = RequestError operation (Errorf m)"
begin

lemma run_sent: "w_sent (snd (run w)) = w_sent w @ [rq]"
  by (simp add: sends send_def)

lemma run_frame:
  "w_server (snd (run w)) = w_server w" "w_time (snd (run w)) = w_time w"
  "w_ticks (snd (run w)) = w_ticks w" "w_authFail (snd (run w)) = w_authFail w"
  "w_signingCtx (snd (run w)) = w_signingCtx w" "w_os (snd (run w)) = w_os w"
  by (simp_all add: sends send_def)

lemma run_api_error_iff:
  assumes "\<And>err. w_server w (w_sent w) rq = HttpFailed err \<Longrightarrow> as_api err = None"
  shows "(\<exists>e a. fst (run w) = Inl e \<and> as_api e = Some a) \<longleftrightarrow>
    (\<exists>status body out. w_server w (w_sent w) rq = HttpReply status body out \<and> 399 < status)"
proof (cases "w_server w (w_sent w) rq")
  case (HttpFailed err)
  with assms failed [OF HttpFailed] show ?thesis by simp
next
  case (HttpReply status body out)
  show ?thesis
  proof (cases "399 < status")
    case True
    with HttpReply error_status [OF HttpReply] show ?thesis by (simp add: newAPIError_def split_beta Let_def)
  next
    case False
    then have "status \<le> 399" by simp
    with HttpReply success_status [OF HttpReply] show ?thesis by fastforce
  qed
qed

end

interpretation login: api_call G "''login''" "login_request c clientID clientSecret"
  "Login G c clientID clientSecret" for G c clientID clientSecret
  by unfold_locales (auto simp: Login_def call_result_def send_def Let_def split: if_splits)

interpretation list_signers: api_call G "''list-signers''" "list_signers_request c token"
  "ListSigners G c token" for G c token
  by unfold_locales (auto simp: ListSigners_def call_result_def send_def)

interpretation get_certificate: api_call G "''get-certificate''" "certificate_request c token signerID"
  "GetCertificate G c token signerID" for G c token signerID
  by unfold_locales (auto simp: GetCertificate_def call_result_def send_def)

interpretation sign: api_call G "''sign''" "sign_request c token signerID p"
  "client_Sign G c token signerID p" for G c token signerID p
  by unfold_locales (auto simp: client_Sign_def call_result_def send_def)

interpretation request_approval: api_call G "''request-approval''" "approval_request c token signerID p"
  "RequestApproval G c token signerID p" for G c token signerID p
  by unfold_locales (auto simp: RequestApproval_def call_result_def send_def)

lemma now_simps [simp]:
  "w_server (snd (now w)) = w_server w" "w_sent (snd (now w)) = w_sent w"
  "w_time (snd (now w)) = w_time w" "w_ticks (snd (now w)) = Suc (w_ticks w)"
  "w_authFail (snd (now w)) = w_authFail w" "w_signingCtx (snd (now w)) = w_signingCtx w"
  "w_os (snd (now w)) = w_os w" "fst (now w) = w_time w (w_ticks w)"
  by (simp_all add: now_def)

lemma signer_path_inject: "signer_path i action = signer_path j action \<Longrightarrow> i = j"
  by (simp add: signer_path_def) (metis path.enc_inject)

end
