(* ===== verification/Session.thy ===== *)
theory Session
  imports Client
begin

text \<open>
  \<open>internal/infisical/session.go\<close>: authentication with its token and failure caches, the signer
  and public-key caches, signing, and the approval request a denied sign call opens. A method of
  \<open>*Session\<close> takes the session and the world and returns its result with both; the package
  variable \<open>authFailCache\<close> is in the world, so two sessions share it as the code does. Each
  \<open>time.Now\<close> is one reading of the clock.
\<close>

section \<open>Data\<close>

definition tokenSafetyMargin :: int where
  "tokenSafetyMargin = 30 * Second"

definition authFailureCacheTTL :: int where
  "authFailureCacheTTL = 10 * Second"

record pub_key_entry =
  pk_key :: public_key
  pk_expiresAt :: int

record session =
  s_cfg :: config
  s_client :: client
  s_token :: string
  s_tokenExpiry :: int
  s_signers :: "signer list option"
  s_signersExpiry :: int
  s_pubKeys :: "string \<Rightarrow> pub_key_entry option"

definition NewSession :: "go_rt \<Rightarrow> os_env \<Rightarrow> config \<Rightarrow> session result" where
  "NewSession G env cfg = (case NewClient G env cfg of
       Inl err \<Rightarrow> Inl err
     | Inr client \<Rightarrow> Inr
         \<lparr>s_cfg = cfg, s_client = client, s_token = '''', s_tokenExpiry = 0,
          s_signers = None, s_signersExpiry = 0, s_pubKeys = (\<lambda>_. None)\<rparr>)"

section \<open>The login-failure cache\<close>

definition cachedAuthFailure :: "string \<Rightarrow> world \<Rightarrow> go_error option \<times> world" where
  "cachedAuthFailure key w = (case w_authFail w key of
       Some f \<Rightarrow>
         (let (t, w) = now w in
          if t < af_until f then (Some (af_err f), w)
          else (None, w\<lparr>w_authFail := (w_authFail w)(key := None)\<rparr>))
     | None \<Rightarrow> (None, w))"

definition recordAuthFailure :: "string \<Rightarrow> go_error \<Rightarrow> world \<Rightarrow> world" where
  "recordAuthFailure key err w =
     (let (t, w) = now w in
      w\<lparr>w_authFail := (w_authFail w)(key := Some \<lparr>af_err = err, af_until = t + authFailureCacheTTL\<rparr>)\<rparr>)"

definition clearAuthFailure :: "string \<Rightarrow> world \<Rightarrow> world" where
  "clearAuthFailure key w = w\<lparr>w_authFail := (w_authFail w)(key := None)\<rparr>"

section \<open>Tokens\<close>

definition cache_ttl :: "int \<Rightarrow> int \<Rightarrow> int" where
  "cache_ttl reported ceilingSeconds =
     (let ceiling = wrap64 (ceilingSeconds * Second);
          ttl = (if 0 < ceiling \<and> ceiling < reported then ceiling else reported);
          ttl = wrap64 (ttl - tokenSafetyMargin)
      in if ttl < tokenSafetyMargin then tokenSafetyMargin else ttl)"

definition cacheExpiry :: "int \<Rightarrow> int \<Rightarrow> world \<Rightarrow> int \<times> world" where
  "cacheExpiry reported ceilingSeconds w =
     (let (t, w) = now w in (t + cache_ttl reported ceilingSeconds, w))"

definition auth_key :: "session \<Rightarrow> string" where
  "auth_key s = ClientID (Auth (s_cfg s)) @ ''@'' @ ServerURL (s_cfg s)"

text \<open>\<open>s.token != "" && time.Now().Before(s.tokenExpiry)\<close>: the clock is read only with a token.\<close>

definition token_fresh :: "session \<Rightarrow> world \<Rightarrow> bool \<times> world" where
  "token_fresh s w =
     (if s_token s \<noteq> '''' then (let (t, w) = now w in (t < s_tokenExpiry s, w)) else (False, w))"

definition login_session :: "go_rt \<Rightarrow> session \<Rightarrow> world \<Rightarrow> string result \<times> session \<times> world" where
  "login_session G s w =
     (let key = auth_key s;
          auth = Auth (s_cfg s)
      in if ClientID auth = '''' \<or> ClientSecret auth = '''' then
           (let err = Errorf (''no Universal Auth credentials: set '' @ EnvClientID @ '' and '' @ EnvClientSecret)
            in (Inl err, s, recordAuthFailure key err w))
         else (case Login G (s_client s) (ClientID auth) (ClientSecret auth) w of
             (Inl err, w) \<Rightarrow> (Inl err, s, recordAuthFailure key err w)
           | (Inr (token, ttl), w) \<Rightarrow>
               (let (expiry, w) = cacheExpiry ttl (TokenTTLSeconds (Cache (s_cfg s))) w in
                (Inr token, s\<lparr>s_token := token, s_tokenExpiry := expiry\<rparr>, clearAuthFailure key w))))"

definition ensureToken :: "go_rt \<Rightarrow> session \<Rightarrow> world \<Rightarrow> string result \<times> session \<times> world" where
  "ensureToken G s w =
     (if Method (Auth (s_cfg s)) = AuthMethodToken then
        (if Token (Auth (s_cfg s)) = ''''
         then (Inl (Errorf (''token auth selected but no token: set '' @ EnvToken)), s, w)
         else (Inr (Token (Auth (s_cfg s))), s, w))
      else
        (let (fresh, w) = token_fresh s w in
         if fresh then (Inr (s_token s), s, w)
         else (case cachedAuthFailure (auth_key s) w of
             (Some err, w) \<Rightarrow> (Inl err, s, w)
           | (None, w) \<Rightarrow> login_session G s w)))"

section \<open>Signers\<close>

definition signers_fresh :: "session \<Rightarrow> world \<Rightarrow> bool \<times> world" where
  "signers_fresh s w =
     (if s_signers s \<noteq> None then (let (t, w) = now w in (t < s_signersExpiry s, w)) else (False, w))"

definition Signers :: "go_rt \<Rightarrow> session \<Rightarrow> world \<Rightarrow> signer list option result \<times> session \<times> world" where
  "Signers G s w =
     (let (fresh, w) = signers_fresh s w in
      if fresh then (Inr (s_signers s), s, w)
      else (case ensureToken G s w of
          (Inl err, s, w) \<Rightarrow> (Inl err, s, w)
        | (Inr token, s, w) \<Rightarrow>
            (case ListSigners G (s_client s) token w of
               (Inl err, w) \<Rightarrow> (Inl err, s, w)
             | (Inr signers, w) \<Rightarrow>
                 (let (t, w) = now w in
                  (Inr signers,
                   s\<lparr>s_signers := signers,
                     s_signersExpiry := t + wrap64 (SignerTTLSeconds (Cache (s_cfg s)) * Second)\<rparr>, w)))))"

text \<open>Ranging over a nil slice visits nothing.\<close>

definition slice :: "'a list option \<Rightarrow> 'a list" where
  "slice xs = (case xs of None \<Rightarrow> [] | Some l \<Rightarrow> l)"

definition FindSigner :: "go_rt \<Rightarrow> string \<Rightarrow> session \<Rightarrow> world \<Rightarrow> signer result \<times> session \<times> world" where
  "FindSigner G nameOrID s w = (case Signers G s w of
       (Inl err, s, w) \<Rightarrow> (Inl err, s, w)
     | (Inr signers, s, w) \<Rightarrow>
         (case find (\<lambda>sg. sg_Name sg = nameOrID \<or> sg_ID sg = nameOrID) (slice signers) of
            Some sg \<Rightarrow> (Inr sg, s, w)
          | None \<Rightarrow> (Inl (Errorf (''no signer named '' @ go_quote G nameOrID @ '' is available to this identity'')), s, w)))"

section \<open>Public keys\<close>

definition publicKeyFromCertPEM :: "go_rt \<Rightarrow> string \<Rightarrow> public_key result" where
  "publicKeyFromCertPEM G certPEM = (case rt_pem G (trim_space certPEM) of
       None \<Rightarrow> Inl (Errorf ''certificate is not valid PEM'')
     | Some block \<Rightarrow>
         (case rt_x509 G block of
            Inl msg \<Rightarrow> Inl (WrapErrorf (''failed to parse certificate: '' @ msg) (StdError msg))
          | Inr key \<Rightarrow> Inr key))"

definition pub_key_lookup :: "string \<Rightarrow> session \<Rightarrow> world \<Rightarrow> public_key option \<times> world" where
  "pub_key_lookup signerID s w = (case s_pubKeys s signerID of
       None \<Rightarrow> (None, w)
     | Some entry \<Rightarrow>
         (let (t, w) = now w in
          (if t < pk_expiresAt entry then Some (pk_key entry) else None, w)))"

definition PublicKey :: "go_rt \<Rightarrow> string \<Rightarrow> session \<Rightarrow> world \<Rightarrow> public_key result \<times> session \<times> world" where
  "PublicKey G signerID s w = (case pub_key_lookup signerID s w of
       (Some key, w) \<Rightarrow> (Inr key, s, w)
     | (None, w) \<Rightarrow>
         (case ensureToken G s w of
            (Inl err, s, w) \<Rightarrow> (Inl err, s, w)
          | (Inr token, s, w) \<Rightarrow>
              (case GetCertificate G (s_client s) token signerID w of
                 (Inl err, w) \<Rightarrow> (Inl err, s, w)
               | (Inr certPEM, w) \<Rightarrow>
                   (case publicKeyFromCertPEM G certPEM of
                      Inl err \<Rightarrow> (Inl err, s, w)
                    | Inr key \<Rightarrow>
                        (let (t, w) = now w in
                         (Inr key,
                          s\<lparr>s_pubKeys := (s_pubKeys s)(signerID := Some
                            \<lparr>pk_key = key,
                             pk_expiresAt = t + wrap64 (CertTTLSeconds (Cache (s_cfg s)) * Second)\<rparr>)\<rparr>, w))))))"

section \<open>Signing\<close>

definition approvalJustification :: "string \<Rightarrow> string" where
  "approvalJustification hostname =
     (if hostname = '''' then ''Auto-requested by the Infisical KSP''
      else ''Auto-requested by the Infisical KSP on '' @ hostname)"

definition requestApproval ::
  "go_rt \<Rightarrow> session \<Rightarrow> string \<Rightarrow> string \<Rightarrow> signing_context \<Rightarrow> string \<Rightarrow> world \<Rightarrow> (string \<times> string) result \<times> world"
where
  "requestApproval G s token signerID signCtx dataHash w =
     (let cfg = Approval (s_cfg s);
          params = \<lparr>ap_Justification = approvalJustification (sc_Hostname signCtx),
            ap_RequestedSignings = 0,
            ap_RequestedWindowDuration = '''',
            ap_Scope = RequestScope signCtx dataHash (ExcludeScopeFields cfg) (IPAddress cfg)\<rparr>;
          params = (if 0 < SigningCount cfg then params\<lparr>ap_RequestedSignings := SigningCount cfg\<rparr> else params);
          params = (if SigningDuration cfg \<noteq> ''''
            then params\<lparr>ap_RequestedWindowDuration := SigningDuration cfg\<rparr> else params)
      in RequestApproval G (s_client s) token signerID params w)"

definition autoRequestOnDenial ::
  "go_rt \<Rightarrow> session \<Rightarrow> string \<Rightarrow> string \<Rightarrow> signing_context \<Rightarrow> byte list \<Rightarrow> go_error \<Rightarrow> world \<Rightarrow> go_error \<times> world"
where
  "autoRequestOnDenial G s token signerID signCtx digest signErr w = (case as_api signErr of
       None \<Rightarrow> (signErr, w)
     | Some apiErr \<Rightarrow>
         if \<not> IsApprovalRequired apiErr then (signErr, w)
         else if ae_HasPendingRequest apiErr then (ApprovalRequestPendingError signErr, w)
         else if SigningCount (Approval (s_cfg s)) = 0 \<and> SigningDuration (Approval (s_cfg s)) = ''''
         then (ApprovalNotConfiguredError signErr, w)
         else (case requestApproval G s token signerID signCtx (hex_encode (sha256 digest)) w of
             (Inl err, w) \<Rightarrow> (ApprovalRequestFailedError signErr err, w)
           | (Inr (i, status), w) \<Rightarrow> (ApprovalRequestOpenedError signErr i status, w)))"

definition current_context :: "go_rt \<Rightarrow> world \<Rightarrow> signing_context \<times> world" where
  "current_context G w =
     (let (ctx, once) = CurrentSigningContext G (w_os w) (w_signingCtx w) in (ctx, w\<lparr>w_signingCtx := once\<rparr>))"

definition sign_params :: "signing_context \<Rightarrow> string \<Rightarrow> byte list \<Rightarrow> sign_params" where
  "sign_params signCtx algorithm digest =
     \<lparr>sp_DataB64 = b64_encode digest,
      sp_SigningAlgorithm = algorithm,
      sp_IsDigest = True,
      sp_ClientMetadata = ClientMetadata signCtx\<rparr>"

definition Sign ::
  "go_rt \<Rightarrow> string \<Rightarrow> string \<Rightarrow> byte list \<Rightarrow> session \<Rightarrow> world \<Rightarrow> byte list result \<times> session \<times> world"
where
  "Sign G signerID algorithm digest s w = (case ensureToken G s w of
       (Inl err, s, w) \<Rightarrow> (Inl err, s, w)
     | (Inr token, s, w) \<Rightarrow>
         (let (signCtx, w) = current_context G w in
          case client_Sign G (s_client s) token signerID (sign_params signCtx algorithm digest) w of
            (Inl err, w) \<Rightarrow>
              (let (err, w) = autoRequestOnDenial G s token signerID signCtx digest err w in (Inl err, s, w))
          | (Inr sigB64, w) \<Rightarrow>
              (case b64_decode sigB64 of
                 None \<Rightarrow> (Inl (StdError ''illegal base64 data''), s, w)
               | Some sig \<Rightarrow> (Inr sig, s, w))))"

section \<open>Caches with an expiry\<close>

text \<open>
  The contract of the four caches of the engine: what was stored is found while the clock reads
  less than its expiry and not from then on, and storing again replaces it. \<open>storable\<close> excludes
  what the code takes for an empty slot.
\<close>

locale ttl_cache =
  fixes lookup :: "'s \<Rightarrow> int \<Rightarrow> 'v option"
    and store :: "'v \<Rightarrow> int \<Rightarrow> 's \<Rightarrow> 's"
    and storable :: "'v \<Rightarrow> bool"
  assumes lookup_store: "storable v \<Longrightarrow> lookup (store v e s) t = (if t < e then Some v else None)"
    and lookup_expires: "lookup s t = Some v \<Longrightarrow> u \<le> t \<Longrightarrow> lookup s u = Some v"
begin

lemma hit: "storable v \<Longrightarrow> t < e \<Longrightarrow> lookup (store v e s) t = Some v"
  by (simp add: lookup_store)

lemma miss: "storable v \<Longrightarrow> e \<le> t \<Longrightarrow> lookup (store v e s) t = None"
  by (simp add: lookup_store)

lemma replaced: "storable v \<Longrightarrow> storable u \<Longrightarrow> lookup (store v e (store u d s)) t = Some u \<Longrightarrow> u = v"
  by (simp add: lookup_store split: if_splits)

lemma stays_missed: "lookup s t = None \<Longrightarrow> t \<le> u \<Longrightarrow> lookup s u = None"
  by (metis lookup_expires not_None_eq)

end

text \<open>The slots, as functions of the time at which they are read.\<close>

definition token_at :: "session \<Rightarrow> int \<Rightarrow> string option" where
  "token_at s t = (if s_token s \<noteq> '''' \<and> t < s_tokenExpiry s then Some (s_token s) else None)"

definition signers_at :: "session \<Rightarrow> int \<Rightarrow> signer list option" where
  "signers_at s t = (if t < s_signersExpiry s then s_signers s else None)"

definition pub_key_at :: "string \<Rightarrow> session \<Rightarrow> int \<Rightarrow> public_key option" where
  "pub_key_at signerID s t = (case s_pubKeys s signerID of
     Some entry \<Rightarrow> if t < pk_expiresAt entry then Some (pk_key entry) else None | None \<Rightarrow> None)"

definition auth_failure_at :: "string \<Rightarrow> world \<Rightarrow> int \<Rightarrow> go_error option" where
  "auth_failure_at key w t = (case w_authFail w key of
     Some f \<Rightarrow> if t < af_until f then Some (af_err f) else None | None \<Rightarrow> None)"

interpretation token_cache: ttl_cache token_at "\<lambda>v e s. s\<lparr>s_token := v, s_tokenExpiry := e\<rparr>" "\<lambda>v. v \<noteq> ''''"
  by unfold_locales (auto simp: token_at_def split: if_splits)

interpretation signer_cache: ttl_cache signers_at
  "\<lambda>v e s. s\<lparr>s_signers := Some v, s_signersExpiry := e\<rparr>" "\<lambda>_. True"
  by unfold_locales (auto simp: signers_at_def split: if_splits)

interpretation pub_key_cache: ttl_cache "pub_key_at signerID"
  "\<lambda>v e s. s\<lparr>s_pubKeys := (s_pubKeys s)(signerID := Some \<lparr>pk_key = v, pk_expiresAt = e\<rparr>)\<rparr>" "\<lambda>_. True"
  for signerID
  by unfold_locales (auto simp: pub_key_at_def split: if_splits option.splits)

interpretation auth_failure_cache: ttl_cache "auth_failure_at key"
  "\<lambda>err e w. w\<lparr>w_authFail := (w_authFail w)(key := Some \<lparr>af_err = err, af_until = e\<rparr>)\<rparr>" "\<lambda>_. True"
  for key
  by unfold_locales (auto simp: auth_failure_at_def split: if_splits option.splits)

text \<open>The reads of the code are these functions at the next reading of the clock.\<close>

abbreviation clock :: "world \<Rightarrow> int" where
  "clock w \<equiv> w_time w (w_ticks w)"

lemma token_fresh_iff: "fst (token_fresh s w) \<longleftrightarrow> token_at s (clock w) = Some (s_token s)"
  by (simp add: token_fresh_def token_at_def split_beta Let_def)

lemma signers_fresh_iff: "fst (signers_fresh s w) \<longleftrightarrow> (\<exists>sgs. signers_at s (clock w) = Some sgs)"
  by (auto simp: signers_fresh_def signers_at_def split_beta Let_def)

lemma signers_fresh_value: "fst (signers_fresh s w) \<Longrightarrow> signers_at s (clock w) = s_signers s"
  by (auto simp: signers_fresh_def signers_at_def split_beta Let_def split: if_splits)

lemma pub_key_lookup_fst: "fst (pub_key_lookup signerID s w) = pub_key_at signerID s (clock w)"
  by (simp add: pub_key_lookup_def pub_key_at_def split_beta Let_def split: option.splits)

lemma cachedAuthFailure_fst: "fst (cachedAuthFailure key w) = auth_failure_at key w (clock w)"
  by (simp add: cachedAuthFailure_def auth_failure_at_def split_beta Let_def split: option.splits)

lemma recordAuthFailure_at:
  "auth_failure_at key (recordAuthFailure key err w) t =
     (if t < clock w + authFailureCacheTTL then Some err else None)"
  by (simp add: recordAuthFailure_def auth_failure_at_def split_beta Let_def)

end
