(* ===== verification/Session_Calls.thy ===== *)
theory Session_Calls
  imports Session
begin

text \<open>
  What every method of a session keeps, and what it may send. \<open>session_request\<close> is the abstract
  view of the traffic of one session: all of it goes through the session's client, and a request
  carries a token unless it is the login with the configured credentials, which token auth never
  sends. The locale \<open>session_op\<close> is the contract, interpreted for each method.
\<close>

section \<open>Traffic and frame\<close>

definition session_request :: "session \<Rightarrow> http_request \<Rightarrow> bool" where
  "session_request s rq \<longleftrightarrow> rq_Client rq = s_client s \<and>
     (case rq_AuthToken rq of
        Some token \<Rightarrow> rq_Path rq \<noteq> ''/api/v1/auth/universal-auth/login''
      | None \<Rightarrow> Method (Auth (s_cfg s)) \<noteq> AuthMethodToken \<and>
          rq = login_request (s_client s) (ClientID (Auth (s_cfg s))) (ClientSecret (Auth (s_cfg s))))"

definition same_session :: "session \<Rightarrow> session \<Rightarrow> bool" where
  "same_session s s' \<longleftrightarrow> s_cfg s' = s_cfg s \<and> s_client s' = s_client s"

definition world_step :: "session \<Rightarrow> world \<Rightarrow> world \<Rightarrow> bool" where
  "world_step s w w' \<longleftrightarrow> w_server w' = w_server w \<and> w_time w' = w_time w \<and> w_os w' = w_os w \<and>
     w_ticks w \<le> w_ticks w' \<and> (w_signingCtx w \<noteq> None \<longrightarrow> w_signingCtx w' = w_signingCtx w) \<and>
     (\<exists>new. w_sent w' = w_sent w @ new \<and> list_all (session_request s) new)"

named_theorems frame_intros

lemma same_session_refl [frame_intros, simp]: "same_session s s"
  by (simp add: same_session_def)

lemma same_session_trans: "same_session s s' \<Longrightarrow> same_session s' s'' \<Longrightarrow> same_session s s''"
  by (simp add: same_session_def)

lemma session_request_cong: "same_session s s' \<Longrightarrow> session_request s' = session_request s"
  by (rule ext) (simp add: session_request_def same_session_def cong: option.case_cong)

lemma world_step_refl [frame_intros, simp]: "world_step s w w"
  by (simp add: world_step_def)

lemma world_step_trans:
  assumes "world_step s w w'" and "world_step s w' w''"
  shows "world_step s w w''"
proof -
  from assms obtain a b where "w_sent w' = w_sent w @ a" "list_all (session_request s) a"
    "w_sent w'' = w_sent w' @ b" "list_all (session_request s) b"
    by (auto simp: world_step_def)
  then have "w_sent w'' = w_sent w @ (a @ b) \<and> list_all (session_request s) (a @ b)" by simp
  with assms show ?thesis unfolding world_step_def by (metis le_trans)
qed

lemma world_step_cong: "same_session s s' \<Longrightarrow> world_step s' = world_step s"
  by (intro ext) (simp add: world_step_def session_request_cong)

lemma world_step_now: "world_step s w w' \<Longrightarrow> world_step s w (snd (now w'))"
  by (simp add: world_step_def le_Suc_eq)

lemma world_step_authFail: "world_step s w w' \<Longrightarrow> world_step s w (w'\<lparr>w_authFail := m\<rparr>)"
  by (simp add: world_step_def)

lemma world_step_send: "session_request s rq \<Longrightarrow> world_step s w (snd (send rq w))"
  by (simp add: world_step_def send_def)

lemma world_step_context: "world_step s w (snd (current_context G w))"
  by (auto simp: world_step_def current_context_def split_beta Let_def CurrentSigningContext_def)

text \<open>The requests of the five calls are of the session they are made for.\<close>

lemma signer_path_not_login: "signer_path i a \<noteq> ''/api/v1/auth/universal-auth/login''"
  by (simp add: signer_path_def)

lemma session_request_simps [simp]:
  "session_request s (list_signers_request (s_client s) token)"
  "session_request s (certificate_request (s_client s) token signerID)"
  "session_request s (sign_request (s_client s) token signerID p)"
  "session_request s (approval_request (s_client s) token signerID q)"
  "Method (Auth (s_cfg s)) \<noteq> AuthMethodToken \<Longrightarrow>
    session_request s (login_request (s_client s) (ClientID (Auth (s_cfg s))) (ClientSecret (Auth (s_cfg s))))"
  by (simp_all add: session_request_def list_signers_request_def certificate_request_def sign_request_def
      approval_request_def login_request_def signer_path_not_login)

section \<open>The contract of a method\<close>

locale session_op =
  fixes run :: "session \<Rightarrow> world \<Rightarrow> 'a result \<times> session \<times> world"
  assumes op_session: "run s w = (r, s', w') \<Longrightarrow> same_session s s'"
    and op_world: "run s w = (r, s', w') \<Longrightarrow> world_step s w w'"
begin

lemma op_frame:
  "run s w = (r, s', w') \<Longrightarrow> s_cfg s' = s_cfg s \<and> s_client s' = s_client s \<and> w_os w' = w_os w"
  using op_session op_world by (fastforce simp: same_session_def world_step_def)

lemma op_requests:
  assumes "run s w = (r, s', w')" and "rq \<in> set (w_sent w')" and "rq \<notin> set (w_sent w)"
  shows "session_request s rq"
  using op_world [OF assms(1)] assms(2,3) by (auto simp: world_step_def list_all_iff)

text \<open>What follows a call on the state it left is a step from the state before it.\<close>

lemma op_then:
  assumes "run s w = (r, s', w')" and "same_session s' s''" and "world_step s' w' w''"
  shows "same_session s s'' \<and> world_step s w w''"
  using op_session [OF assms(1)] op_world [OF assms(1)] assms(2,3)
  by (metis same_session_trans world_step_cong world_step_trans)

end

section \<open>The methods keep it\<close>

lemma world_step_reads:
  "world_step s w (snd (token_fresh s0 w))" "world_step s w (snd (signers_fresh s0 w))"
  "world_step s w (snd (pub_key_lookup signerID s0 w))" "world_step s w (snd (cachedAuthFailure key w))"
  "world_step s w (recordAuthFailure key err w)" "world_step s w (clearAuthFailure key w)"
  "world_step s w (snd (cacheExpiry reported ceiling w))"
  by (auto simp: token_fresh_def signers_fresh_def pub_key_lookup_def cachedAuthFailure_def
      recordAuthFailure_def clearAuthFailure_def cacheExpiry_def split_beta Let_def
      intro!: world_step_now world_step_authFail split: option.splits)

lemma world_step_calls:
  "Method (Auth (s_cfg s)) \<noteq> AuthMethodToken \<Longrightarrow>
    world_step s w (snd (Login G (s_client s) (ClientID (Auth (s_cfg s))) (ClientSecret (Auth (s_cfg s))) w))"
  "world_step s w (snd (ListSigners G (s_client s) token w))"
  "world_step s w (snd (GetCertificate G (s_client s) token signerID w))"
  "world_step s w (snd (client_Sign G (s_client s) token signerID p w))"
  "world_step s w (snd (RequestApproval G (s_client s) token signerID q w))"
  by (simp_all add: login.sends list_signers.sends get_certificate.sends sign.sends request_approval.sends
      world_step_send)

lemmas world_step_after [frame_intros] = world_step_reads [THEN [2] world_step_trans]
  world_step_calls [THEN [2] world_step_trans] world_step_context [THEN [2] world_step_trans]

lemma login_session_frame:
  assumes "login_session G s w = (r, s', w')" and "Method (Auth (s_cfg s)) \<noteq> AuthMethodToken"
  shows "same_session s s' \<and> world_step s w w'"
proof -
  let ?auth = "Auth (s_cfg s)" and ?key = "auth_key s"
  obtain lr w1 where login: "Login G (s_client s) (ClientID ?auth) (ClientSecret ?auth) w = (lr, w1)"
    by (cases "Login G (s_client s) (ClientID ?auth) (ClientSecret ?auth) w")
  then have w1: "world_step s w w1"
    using world_step_calls(1) [OF assms(2), of w G] by simp
  have rec: "world_step s w (recordAuthFailure k e w1)" "world_step s w (recordAuthFailure k e w)"
    "world_step s w (clearAuthFailure k (snd (cacheExpiry a b w1)))" for k e a b
    by (intro world_step_after w1 world_step_refl)+
  show ?thesis
  proof (cases "ClientID ?auth = '''' \<or> ClientSecret ?auth = ''''")
    case True
    with assms(1) rec show ?thesis by (auto simp: login_session_def Let_def)
  next
    case False
    with assms(1) login rec show ?thesis
      by (auto simp: login_session_def Let_def same_session_def split_beta split: sum.splits)
  qed
qed

interpretation ensure_token: session_op "ensureToken G" for G
proof -
  have frame: "same_session s s' \<and> world_step s w w'" if run: "ensureToken G s w = (r, s', w')" for s w r s' w'
  proof (cases "Method (Auth (s_cfg s)) = AuthMethodToken")
    case True
    with run show ?thesis by (auto simp: ensureToken_def split: if_splits)
  next
    case False
    let ?w1 = "snd (token_fresh s w)" let ?w2 = "snd (cachedAuthFailure (auth_key s) ?w1)"
    have w1: "world_step s w ?w1" and w2: "world_step s w ?w2"
      by (intro world_step_after world_step_refl)+
    have "same_session s s' \<and> w' = ?w1 \<or> same_session s s' \<and> w' = ?w2 \<or> login_session G s ?w2 = (r, s', w')"
      using run False by (auto simp: ensureToken_def Let_def split_beta split: if_splits option.splits prod.splits)
    then show ?thesis
      using w1 w2 login_session_frame [OF _ False, of G ?w2] by (auto intro: world_step_trans)
  qed
  show "session_op (ensureToken G)" by unfold_locales (use frame in blast)+
qed

lemma world_step_later:
  "world_step s w w1 \<Longrightarrow> same_session s s1 \<Longrightarrow> world_step s1 w1 w2 \<Longrightarrow> world_step s w w2"
  by (metis world_step_cong world_step_trans)

interpretation signers_call: session_op "Signers G" for G
proof -
  have frame: "same_session s s' \<and> world_step s w w'" if run: "Signers G s w = (r, s', w')" for s w r s' w'
  proof -
    let ?w1 = "snd (signers_fresh s w)"
    have w1: "world_step s w ?w1" by (rule world_step_reads)
    obtain tr s2 w2 where token: "ensureToken G s ?w1 = (tr, s2, w2)" by (cases "ensureToken G s ?w1")
    note s2 = ensure_token.op_session [OF token]
    have w2: "world_step s w w2" using w1 ensure_token.op_world [OF token] by (rule world_step_trans)
    have w3: "world_step s w (snd (ListSigners G (s_client s2) t w2))" for t
      by (rule world_step_later [OF w2 s2]) (rule world_step_calls)
    from run w1 s2 w2 w3 show ?thesis
      by (auto simp: Signers_def token split_beta Let_def same_session_def intro!: world_step_now
          split: if_splits sum.splits)
  qed
  show "session_op (Signers G)" by unfold_locales (use frame in blast)+
qed

interpretation find_signer: session_op "FindSigner G nameOrID" for G nameOrID
proof -
  have state: "\<exists>q. Signers G s w = (q, s', w')" if "FindSigner G nameOrID s w = (r, s', w')" for s w r s' w'
    using that by (auto simp: FindSigner_def split: prod.splits sum.splits option.splits)
  show "session_op (FindSigner G nameOrID)"
    by unfold_locales (use state signers_call.op_session signers_call.op_world in blast)+
qed

interpretation public_key: session_op "PublicKey G signerID" for G signerID
proof -
  have frame: "same_session s s' \<and> world_step s w w'" if run: "PublicKey G signerID s w = (r, s', w')" for s w r s' w'
  proof -
    let ?w1 = "snd (pub_key_lookup signerID s w)"
    have w1: "world_step s w ?w1" by (rule world_step_reads)
    obtain tr s2 w2 where token: "ensureToken G s ?w1 = (tr, s2, w2)" by (cases "ensureToken G s ?w1")
    note s2 = ensure_token.op_session [OF token]
    have w2: "world_step s w w2" using w1 ensure_token.op_world [OF token] by (rule world_step_trans)
    have w3: "world_step s w (snd (GetCertificate G (s_client s2) t signerID w2))" for t
      by (rule world_step_later [OF w2 s2]) (rule world_step_calls)
    from run w1 s2 w2 w3 show ?thesis
      by (auto simp: PublicKey_def token split_beta Let_def same_session_def intro!: world_step_now
          split: if_splits sum.splits option.splits)
  qed
  show "session_op (PublicKey G signerID)" by unfold_locales (use frame in blast)+
qed

lemma world_step_autoRequest:
  "world_step s w (snd (autoRequestOnDenial G s token signerID signCtx digest err w))"
  by (auto simp: autoRequestOnDenial_def requestApproval_def split_beta Let_def world_step_calls
      split: option.splits sum.splits)

interpretation sign_call: session_op "Sign G signerID algorithm digest" for G signerID algorithm digest
proof -
  have frame: "same_session s s' \<and> world_step s w w'"
    if run: "Sign G signerID algorithm digest s w = (r, s', w')" for s w r s' w'
  proof -
    obtain tr s1 w1 where token: "ensureToken G s w = (tr, s1, w1)" by (cases "ensureToken G s w")
    note s1 = ensure_token.op_session [OF token] and w1 = ensure_token.op_world [OF token]
    let ?w2 = "snd (current_context G w1)"
    let ?w3 = "\<lambda>t c. snd (client_Sign G (s_client s1) t signerID (sign_params c algorithm digest) ?w2)"
    have w3: "world_step s1 w1 (?w3 t c)" for t c
      by (intro world_step_after world_step_refl)
    have w4: "world_step s1 w1 (snd (autoRequestOnDenial G s1 t signerID c digest e (?w3 t c)))" for t c e
      using w3 world_step_autoRequest by (rule world_step_trans)
    show ?thesis
    proof (cases tr)
      case (Inl e)
      with run s1 w1 show ?thesis by (simp add: Sign_def token)
    next
      case (Inr t)
      with run have "s' = s1" and "world_step s1 w1 w'"
        using w3 w4 by (auto simp: Sign_def token split_beta Let_def split: sum.splits option.splits)
      with s1 w1 show ?thesis by (auto intro: world_step_later)
    qed
  qed
  show "session_op (Sign G signerID algorithm digest)" by unfold_locales (use frame in blast)+
qed

end
