(* ===== verification/Cng_Algorithm.thy ===== *)
theory Cng_Algorithm
  imports Errors Sample_Runtime
begin

text \<open>
  \<open>internal/cng/algorithm.go\<close> and the identifiers of \<open>internal/infisical/algorithm.go\<close>: the
  map from a CNG sign request (key family, padding, hash) to the algorithm string of the
  Infisical sign endpoint, and the recovery of the hash from a digest length.
\<close>

section \<open>Identifiers\<close>

definition AlgRSAPKCS1SHA256 :: string where
  "AlgRSAPKCS1SHA256 = ''RSASSA_PKCS1_V1_5_SHA_256''"

definition AlgRSAPKCS1SHA384 :: string where
  "AlgRSAPKCS1SHA384 = ''RSASSA_PKCS1_V1_5_SHA_384''"

definition AlgRSAPKCS1SHA512 :: string where
  "AlgRSAPKCS1SHA512 = ''RSASSA_PKCS1_V1_5_SHA_512''"

definition AlgRSAPSSSHA256 :: string where
  "AlgRSAPSSSHA256 = ''RSASSA_PSS_SHA_256''"

definition AlgRSAPSSSHA384 :: string where
  "AlgRSAPSSSHA384 = ''RSASSA_PSS_SHA_384''"

definition AlgRSAPSSSHA512 :: string where
  "AlgRSAPSSSHA512 = ''RSASSA_PSS_SHA_512''"

definition AlgECDSASHA256 :: string where
  "AlgECDSASHA256 = ''ECDSA_SHA_256''"

definition AlgECDSASHA384 :: string where
  "AlgECDSASHA384 = ''ECDSA_SHA_384''"

definition AlgECDSASHA512 :: string where
  "AlgECDSASHA512 = ''ECDSA_SHA_512''"

lemmas algorithm_names =
  AlgRSAPKCS1SHA256_def AlgRSAPKCS1SHA384_def AlgRSAPKCS1SHA512_def
  AlgRSAPSSSHA256_def AlgRSAPSSSHA384_def AlgRSAPSSSHA512_def
  AlgECDSASHA256_def AlgECDSASHA384_def AlgECDSASHA512_def

lemma algorithm_names_distinct:
  "distinct [AlgRSAPKCS1SHA256, AlgRSAPKCS1SHA384, AlgRSAPKCS1SHA512,
     AlgRSAPSSSHA256, AlgRSAPSSSHA384, AlgRSAPSSSHA512,
     AlgECDSASHA256, AlgECDSASHA384, AlgECDSASHA512]"
  by (simp add: algorithm_names)

lemma algorithm_names_distinct_rev:
  "distinct [AlgECDSASHA512, AlgECDSASHA384, AlgECDSASHA256,
     AlgRSAPSSSHA512, AlgRSAPSSSHA384, AlgRSAPSSSHA256,
     AlgRSAPKCS1SHA512, AlgRSAPKCS1SHA384, AlgRSAPKCS1SHA256]"
  by (simp add: algorithm_names)

lemmas algorithm_neq [simp] =
  algorithm_names_distinct [simplified] algorithm_names_distinct_rev [simplified]

text \<open>
  \<open>KeyType\<close> and \<open>Padding\<close> are Go \<open>int\<close>s with named values; the last constructor is any
  other value of the type, which the \<open>default\<close> branches answer.
\<close>

datatype key_type = KeyRSA | KeyECDSA | KeyTypeOther int

datatype padding = PaddingNone | PaddingPKCS1 | PaddingPSS | PaddingOther int

section \<open>The mapping\<close>

definition Algorithm :: "go_rt \<Rightarrow> key_type \<Rightarrow> padding \<Rightarrow> string \<Rightarrow> string result" where
  "Algorithm G key padding hash =
     (let h = to_upper G (trim_space hash) in
      case key of
        KeyRSA \<Rightarrow>
          (let unsupported = Inl (Errorf (''unsupported RSA hash '' @ go_quote G hash)) in
           case padding of
             PaddingPKCS1 \<Rightarrow>
               if h = ''SHA256'' then Inr AlgRSAPKCS1SHA256
               else if h = ''SHA384'' then Inr AlgRSAPKCS1SHA384
               else if h = ''SHA512'' then Inr AlgRSAPKCS1SHA512
               else unsupported
           | PaddingPSS \<Rightarrow>
               if h = ''SHA256'' then Inr AlgRSAPSSSHA256
               else if h = ''SHA384'' then Inr AlgRSAPSSSHA384
               else if h = ''SHA512'' then Inr AlgRSAPSSSHA512
               else unsupported
           | _ \<Rightarrow> Inl (Errorf ''RSA signing requires PKCS1 or PSS padding''))
      | KeyECDSA \<Rightarrow>
          if h = ''SHA256'' then Inr AlgECDSASHA256
          else if h = ''SHA384'' then Inr AlgECDSASHA384
          else if h = ''SHA512'' then Inr AlgECDSASHA512
          else Inl (Errorf (''unsupported ECDSA hash '' @ go_quote G hash))
      | KeyTypeOther _ \<Rightarrow> Inl (Errorf ''unsupported key type''))"

definition HashFromDigestLen :: "nat \<Rightarrow> string result" where
  "HashFromDigestLen n =
     (if n = 32 then Inr ''SHA256''
      else if n = 48 then Inr ''SHA384''
      else if n = 64 then Inr ''SHA512''
      else Inl (Errorf (''unexpected digest length '' @ nat_string n @ '' (want 32, 48, or 64)'')))"

section \<open>Properties\<close>

lemma Algorithm_error_not_bad_handle:
  "Algorithm G key padding hash = Inl e \<Longrightarrow> \<exists>m. e = Errorf m"
  by (auto simp: Algorithm_def Let_def split: key_type.splits padding.splits if_splits)

lemma trim_sha: "trim_space ''SHA256'' = ''SHA256''" "trim_space ''SHA384'' = ''SHA384''"
  "trim_space ''SHA512'' = ''SHA512''"
  by (simp_all add: trim_space_id)

lemma upper_sha: "to_upper G ''SHA256'' = ''SHA256''" "to_upper G ''SHA384'' = ''SHA384''"
  "to_upper G ''SHA512'' = ''SHA512''"
  by (simp_all add: to_upper_def is_ascii_def upper_char_def)

section \<open>Properties\<close>

text \<open>C29: A request has an algorithm exactly for the combinations of the documentation: SHA-256, 384 or
  512 (case and surrounding space ignored), any padding for ECDSA, PKCS #1 or PSS for RSA; and the name
  of the algorithm spells out family, padding and hash.\<close>

theorem algorithm_exact:
  "Algorithm G key padding hash = Inr a \<longleftrightarrow>
     (\<exists>scheme bits. a = scheme @ ''_SHA_'' @ bits \<and> bits \<in> {''256'', ''384'', ''512''} \<and>
        to_upper G (trim_space hash) = ''SHA'' @ bits \<and>
        (key = KeyECDSA \<and> scheme = ''ECDSA'' \<or>
         key = KeyRSA \<and> (padding, scheme) \<in> {(PaddingPKCS1, ''RSASSA_PKCS1_V1_5''), (PaddingPSS, ''RSASSA_PSS'')}))"
  by (auto simp: Algorithm_def algorithm_names Let_def split: key_type.splits padding.splits)

text \<open>For an ECDSA digest of 32, 48 or 64 bytes the algorithm sent is the one whose hash has that
  many bytes, and no other length is signed.\<close>

lemma hash_of_digest:
  "case HashFromDigestLen n of
     Inr hash \<Rightarrow> (n, Algorithm G KeyECDSA PaddingNone hash) \<in>
       {(32, Inr AlgECDSASHA256), (48, Inr AlgECDSASHA384), (64, Inr AlgECDSASHA512)}
   | Inl e \<Rightarrow> n \<notin> {32, 48, 64}"
  by (simp add: HashFromDigestLen_def Algorithm_def trim_sha upper_sha)

end
