(* ===== verification/Handles.thy ===== *)
theory Handles
  imports Session Cng_Algorithm
begin

text \<open>
  The handle registry of \<open>cmd/ksp/provider_windows.go\<close>. CNG holds an opaque \<open>uintptr\<close> per
  object; its width is the type variable \<open>'w\<close> (64 on amd64, 32 on 386), and \<open>nextHandle++\<close>
  wraps at that width. A \<open>*providerState\<close> is a reference into the list of sessions (the heap),
  because the keys opened from a provider share its session; a \<open>*keyState\<close> is never written
  after it is registered, so it is stored by value.
\<close>

section \<open>Objects\<close>

record key_state =
  ks_prov :: nat
  ks_signer :: signer
  ks_pub :: public_key
  ks_keyType :: key_type
  ks_curveBits :: nat

datatype handle_object = Provider nat | Key key_state

record (overloaded) 'w registry =
  rg_handles :: "'w::len word \<Rightarrow> handle_object option"
  rg_next :: "'w word"

definition empty_registry :: "('w::len) registry" where
  "empty_registry = \<lparr>rg_handles = (\<lambda>_. None), rg_next = 1\<rparr>"

section \<open>Operations\<close>

definition registerHandle :: "handle_object \<Rightarrow> ('w::len) registry \<Rightarrow> 'w word \<times> 'w registry" where
  "registerHandle v r =
     (let h = rg_next r in
      (h, r\<lparr>rg_next := h + 1, rg_handles := (rg_handles r)(h := Some v)\<rparr>))"

definition lookupHandle :: "'w word \<Rightarrow> ('w::len) registry \<Rightarrow> handle_object option" where
  "lookupHandle h r = rg_handles r h"

definition freeHandle :: "'w word \<Rightarrow> ('w::len) registry \<Rightarrow> 'w registry" where
  "freeHandle h r = r\<lparr>rg_handles := (rg_handles r)(h := None)\<rparr>"

section \<open>The contract of a registry\<close>

text \<open>
  What the provider relies on: a registered object is found under a handle that is not null
  and named nothing before, no other handle changes its meaning, and a freed handle names
  nothing. \<open>room\<close> is the condition under which a registration may still be made.
\<close>

locale handle_registry =
  fixes register :: "'v \<Rightarrow> 'r \<Rightarrow> 'h::zero \<times> 'r"
    and lookup :: "'h \<Rightarrow> 'r \<Rightarrow> 'v option"
    and free :: "'h \<Rightarrow> 'r \<Rightarrow> 'r"
    and invar :: "'r \<Rightarrow> bool"
    and room :: "'r \<Rightarrow> bool"
  assumes register_nonzero: "invar r \<Longrightarrow> room r \<Longrightarrow> register v r = (h, r') \<Longrightarrow> h \<noteq> 0"
    and register_fresh: "invar r \<Longrightarrow> room r \<Longrightarrow> register v r = (h, r') \<Longrightarrow> lookup h r = None"
    and lookup_register: "invar r \<Longrightarrow> room r \<Longrightarrow> register v r = (h, r') \<Longrightarrow>
      lookup k r' = (if k = h then Some v else lookup k r)"
    and lookup_free: "invar r \<Longrightarrow> lookup k (free h r) = (if k = h then None else lookup k r)"
    and invar_register: "invar r \<Longrightarrow> room r \<Longrightarrow> register v r = (h, r') \<Longrightarrow> invar r'"
    and invar_free: "invar r \<Longrightarrow> invar (free h r)"
    and null_free: "invar r \<Longrightarrow> lookup 0 r = None"
begin

text \<open>A live handle keeps its object across a registration and across freeing another handle.\<close>

lemma live_register:
  "invar r \<Longrightarrow> room r \<Longrightarrow> register v r = (h, r') \<Longrightarrow> lookup k r = Some u \<Longrightarrow> lookup k r' = Some u"
  using register_fresh lookup_register by fastforce

lemma live_free: "invar r \<Longrightarrow> k \<noteq> h \<Longrightarrow> lookup k r = Some u \<Longrightarrow> lookup k (free h r) = Some u"
  by (simp add: lookup_free)

lemma register_distinct:
  assumes "invar r" "room r" "register v r = (h, r')" "room r'" "register u r' = (k, r'')"
  shows "h \<noteq> k \<and> lookup h r'' = Some v \<and> lookup k r'' = Some u"
proof -
  from assms(1-3) have inv: "invar r'" and h: "lookup h r' = Some v"
    by (auto intro: invar_register simp: lookup_register)
  from register_fresh [OF inv assms(4,5)] h have "h \<noteq> k" by auto
  with lookup_register [OF inv assms(4,5)] h show ?thesis by simp
qed

end

text \<open>Handles are handed out in increasing order; a registry has room until the counter wraps.\<close>

definition registry_invar :: "('w::len) registry \<Rightarrow> bool" where
  "registry_invar r \<longleftrightarrow> 0 < rg_next r \<and> (\<forall>h. rg_handles r h \<noteq> None \<longrightarrow> 0 < h \<and> h < rg_next r)"

definition registry_room :: "('w::len) registry \<Rightarrow> bool" where
  "registry_room r \<longleftrightarrow> rg_next r \<noteq> - 1"

lemma registry_next_less: "registry_room r \<Longrightarrow> rg_next r < rg_next r + 1"
  using unatSuc [of "rg_next r"]
  by (auto simp: registry_room_def word_less_nat_alt add.commute add_eq_0_iff)

interpretation registry: handle_registry registerHandle lookupHandle freeHandle registry_invar registry_room
proof
  fix r r' :: "'w::len registry" and v h
  assume inv: "registry_invar r" and room: "registry_room r" and reg: "registerHandle v r = (h, r')"
  then show "h \<noteq> 0" "lookupHandle h r = None"
    by (auto simp: registerHandle_def lookupHandle_def registry_invar_def Let_def)
  show "lookupHandle k r' = (if k = h then Some v else lookupHandle k r)" for k
    using reg by (auto simp: registerHandle_def lookupHandle_def Let_def)
  note step = registry_next_less [OF room]
  show "registry_invar r'"
    unfolding registry_invar_def
  proof (intro conjI allI impI)
    show "0 < rg_next r'"
      using inv reg step by (auto simp: registerHandle_def registry_invar_def Let_def)
    fix k assume "rg_handles r' k \<noteq> None"
    with inv reg have "0 < k \<and> (k = rg_next r \<or> k < rg_next r)"
      by (auto simp: registerHandle_def registry_invar_def Let_def split: if_splits)
    with step reg show "0 < k" "k < rg_next r'"
      by (auto simp: registerHandle_def Let_def intro: less_trans)
  qed
next
  fix r :: "'w::len registry" and h k
  assume inv: "registry_invar r"
  then show "registry_invar (freeHandle h r)" "lookupHandle 0 r = None"
    "lookupHandle k (freeHandle h r) = (if k = h then None else lookupHandle k r)"
    by (auto simp: registry_invar_def freeHandle_def lookupHandle_def)
qed

end
