(* ===== verification/Status.thy ===== *)
theory Status
  imports Config
begin

text \<open>
  The status and logging half of \<open>cmd/ksp\<close>: \<open>statusFromError\<close> and \<open>adviceForError\<close>
  (\<open>provider_windows.go\<close>), \<open>setupLogging\<close> and \<open>logError\<close> (\<open>logging_windows.go\<close>). A Go \<open>error\<close>
  that may be nil is an option. The logger is the state of \<open>logOnce\<close> and \<open>logger\<close> with the lines
  written to the open file, each without its time stamp; \<open>os_can_append\<close> says whether the file
  opens once its parent directory has been created (the result of \<open>MkdirAll\<close> is ignored).
\<close>

section \<open>Status values\<close>

type_synonym status = "32 word"

definition statusSuccess :: status where
  "statusSuccess = 0x00000000"

definition statusNotSupported :: status where
  "statusNotSupported = 0x80090029"

definition statusPerm :: status where
  "statusPerm = 0x80090010"

definition statusBadKeyset :: status where
  "statusBadKeyset = 0x80090016"

definition statusInvalidParameter :: status where
  "statusInvalidParameter = 0x80090027"

definition statusFail :: status where
  "statusFail = 0x80090020"

lemmas status_defs = statusSuccess_def statusNotSupported_def statusPerm_def statusBadKeyset_def
  statusInvalidParameter_def statusFail_def

definition statusFromError :: "go_error option \<Rightarrow> status" where
  "statusFromError e = (case e of
       None \<Rightarrow> statusSuccess
     | Some err \<Rightarrow>
         if is_bad_handle err then statusInvalidParameter
         else (case as_api err of
             Some apiErr \<Rightarrow>
               if ae_StatusCode apiErr = 403 then statusPerm
               else if ae_StatusCode apiErr = 401 then statusPerm
               else if ae_StatusCode apiErr = 404 then statusBadKeyset
               else if ae_StatusCode apiErr = 400 then statusInvalidParameter
               else statusFail
           | None \<Rightarrow> statusFail))"

section \<open>Advice\<close>

definition advice_bad_handle :: string where
  "advice_bad_handle = ''internal handle error; this usually indicates a host or provider-state bug, not a configuration problem''"

definition advice_opened :: "string \<Rightarrow> string \<Rightarrow> string" where
  "advice_opened requestID status =
     ''signing needs approved access, so approval request '' @ requestID @ '' was opened ('' @ status @
     ''). Ask an approver to review it under Cert Manager > Code Signing > Signers > Approvals, then run the same command again''"

definition advice_pending :: string where
  "advice_pending =
     ''signing needs approved access and your approval request is already awaiting review. Ask an '' @
     ''approver to review it under Cert Manager > Code Signing > Signers > Approvals, then run the same '' @
     ''command again''"

definition advice_not_configured :: string where
  "advice_not_configured =
     ''signing needs approved access, and this KSP has no approval block configured, so it did not '' @
     ''open a request. Ask an approver for access under Cert Manager > Code Signing > Signers > '' @
     ''Approvals, or set approval.signing_count and approval.signing_duration in the KSP config so '' @
     ''requests are opened for you (https://infisical.com/docs/documentation/platform/pki/code-signing/approvals)''"

definition advice_request_failed :: "go_error \<Rightarrow> string" where
  "advice_request_failed requestErr =
     ''signing needs approved access, and opening an approval request failed ('' @ error_text requestErr @
     ''). Check that the identity may request signing access and that the server is reachable, then run the same command again''"

definition advice_403 :: string where
  "advice_403 =
     ''signing was denied (HTTP 403): this identity needs an approved access request '' @
     ''(Cert Manager > Code Signing > Signers > Approvals), or it must be a Signer member '' @
     ''with the Administrator or Operator role (Auditors cannot sign). Resolve access, then '' @
     ''run the same command again''"

definition advice_401 :: string where
  "advice_401 =
     ''authentication failed: check INFISICAL_UNIVERSAL_AUTH_CLIENT_ID and '' @
     ''INFISICAL_UNIVERSAL_AUTH_CLIENT_SECRET, and confirm the identity is a member of the Signer''"

definition advice_404 :: string where
  "advice_404 = ''not found: the Signer or its certificate does not exist, or is not visible to this identity''"

definition advice_400 :: string where
  "advice_400 = ''the server rejected the request: verify the key type and signing algorithm are supported''"

definition advice_500 :: string where
  "advice_500 = ''the Infisical server reported an internal error; retry shortly''"

definition advice_transport :: string where
  "advice_transport =
     ''cannot reach Infisical: check server_url, network connectivity, and TLS '' @
     ''(for a self-hosted instance with a private CA, set tls.ca_cert_path in the config)''"

definition adviceForError :: "go_error option \<Rightarrow> string" where
  "adviceForError e = (case e of
       None \<Rightarrow> ''''
     | Some err \<Rightarrow>
         if is_bad_handle err then advice_bad_handle
         else (case errors_as is_opened err of
           Some (ApprovalRequestOpenedError _ requestID status) \<Rightarrow> advice_opened requestID status
         | _ \<Rightarrow>
         if errors_as is_pending err \<noteq> None then advice_pending
         else if errors_as is_not_configured err \<noteq> None then advice_not_configured
         else (case errors_as is_request_failed err of
           Some (ApprovalRequestFailedError _ requestErr) \<Rightarrow> advice_request_failed requestErr
         | _ \<Rightarrow>
         (case as_api err of
           Some apiErr \<Rightarrow>
             if ae_StatusCode apiErr = 403 then advice_403
             else if ae_StatusCode apiErr = 401 then advice_401
             else if ae_StatusCode apiErr = 404 then advice_404
             else if ae_StatusCode apiErr = 400 then advice_400
             else if ae_StatusCode apiErr \<ge> 500 then advice_500
             else ''''
         | None \<Rightarrow>
             if errors_as is_request_error err \<noteq> None then advice_transport else ''''))))"

section \<open>Logging\<close>

text \<open>\<open>lg_out\<close> is \<open>None\<close> while the output is \<open>io.Discard\<close>.\<close>

record logger =
  lg_once :: bool
  lg_out :: "string option"
  lg_prefix :: string
  lg_lines :: "string list"

definition initial_logger :: logger where
  "initial_logger = \<lparr>lg_once = False, lg_out = None, lg_prefix = '''', lg_lines = []\<rparr>"

definition setupLogging :: "os_env \<Rightarrow> string \<Rightarrow> logger \<Rightarrow> logger" where
  "setupLogging env path l =
     (if lg_once l then l
      else
        let l = l\<lparr>lg_once := True\<rparr> in
        if path = '''' then l
        else if \<not> os_can_append env path then l
        else l\<lparr>lg_out := Some path, lg_prefix := ''[infisical-ksp] ''\<rparr>)"

definition log_printf :: "string \<Rightarrow> logger \<Rightarrow> logger" where
  "log_printf message l =
     (if lg_out l = None then l else l\<lparr>lg_lines := lg_lines l @ [lg_prefix l @ message]\<rparr>)"

definition logError :: "string \<Rightarrow> go_error \<Rightarrow> logger \<Rightarrow> logger" where
  "logError op err l =
     (let advice = adviceForError (Some err) in
      if advice \<noteq> '''' \<and> IsApprovalOutcome err
      then log_printf (''ERROR '' @ op @ '': '' @ advice) l
      else
        let l = log_printf (''ERROR '' @ op @ '': '' @ error_text err) l in
        if advice \<noteq> '''' then log_printf (''HINT  '' @ op @ '': '' @ advice) l else l)"

section \<open>Lemmas\<close>

text \<open>Success is reported for no error and for nothing else.\<close>

lemma statusFromError_None [simp]: "statusFromError None = statusSuccess"
  by (simp add: statusFromError_def)

lemma status_neq [simp]:
  "statusInvalidParameter \<noteq> statusSuccess" "statusPerm \<noteq> statusSuccess" "statusBadKeyset \<noteq> statusSuccess"
  "statusFail \<noteq> statusSuccess" "statusNotSupported \<noteq> statusSuccess"
  by (simp_all add: status_defs)

lemma statusFromError_Some_neq [simp]: "statusFromError (Some e) \<noteq> statusSuccess"
  by (simp add: statusFromError_def split: option.splits)

lemma statusFromError_Some_neq' [simp]: "statusSuccess \<noteq> statusFromError (Some e)"
  using statusFromError_Some_neq [of e] by (rule not_sym)

lemma statusFromError_local: "local_error e \<Longrightarrow> statusFromError (Some e) = statusFail"
  by (simp add: statusFromError_def local_error_def)

text \<open>A wrapper keeps the status of what it wraps.\<close>

context transparent_wrapper
begin

lemma statusFromError_wrap: "statusFromError (Some (wrap e)) = statusFromError (Some e)"
  by (simp add: statusFromError_def as_api_wrap is_bad_handle_wrap)

end

context approval_outcome
begin

text \<open>The log of an approval outcome is one line, its advice, without the raw error.\<close>

lemma logError_wrap:
  "adviceForError (Some (wrap e)) \<noteq> '''' \<Longrightarrow>
    logError op (wrap e) l = log_printf (''ERROR '' @ op @ '': '' @ adviceForError (Some (wrap e))) l"
  using IsApprovalOutcome_wrap [of e] by (simp add: logError_def Let_def)

end

lemma advice_outcomes:
  assumes "as_api e = Some a"
  shows "adviceForError (Some (ApprovalRequestOpenedError e i s)) = advice_opened i s"
    and "errors_as is_opened e = None \<Longrightarrow>
      adviceForError (Some (ApprovalRequestPendingError e)) = advice_pending"
    and "errors_as is_opened e = None \<Longrightarrow> errors_as is_pending e = None \<Longrightarrow>
      adviceForError (Some (ApprovalNotConfiguredError e)) = advice_not_configured"
    and "errors_as is_opened e = None \<Longrightarrow> errors_as is_pending e = None \<Longrightarrow>
      errors_as is_not_configured e = None \<Longrightarrow>
      adviceForError (Some (ApprovalRequestFailedError e r)) = advice_request_failed r"
  using as_api_not_bad_handle [OF assms] by (simp_all add: adviceForError_def)

lemma advice_nonempty:
  "advice_opened i s \<noteq> ''''" "advice_pending \<noteq> ''''" "advice_not_configured \<noteq> ''''"
  "advice_request_failed r \<noteq> ''''"
  by (simp_all add: advice_opened_def advice_pending_def advice_not_configured_def advice_request_failed_def)

text \<open>The log file is chosen once per process.\<close>

lemma setupLogging_once: "setupLogging env q (setupLogging env' p l) = setupLogging env' p l"
  by (simp add: setupLogging_def Let_def)

lemma logError_out [simp]:
  "lg_once (logError op err l) = lg_once l" "lg_out (logError op err l) = lg_out l"
  by (simp_all add: logError_def log_printf_def Let_def)

lemma logError_lines: "\<exists>new. lg_lines (logError op err l) = lg_lines l @ new \<and> (lg_out l = None \<longrightarrow> new = [])"
  by (auto simp: logError_def log_printf_def Let_def)

lemma errors_as_Some: "errors_as p e = Some x \<Longrightarrow> p x"
  by (simp add: errors_as_def find_Some_iff) blast

text \<open>An approval outcome always has advice, so the raw error is never logged for it.\<close>

lemma advice_outcome_nonempty:
  assumes "as_api e = Some a" and "IsApprovalOutcome e"
  shows "adviceForError (Some e) \<noteq> ''''"
proof -
  have good: "\<not> is_bad_handle e" using as_api_not_bad_handle [OF assms(1)] .
  show ?thesis
  proof (cases "errors_as is_opened e")
    case (Some x)
    with errors_as_Some [OF Some] good show ?thesis
      by (cases x) (auto simp: adviceForError_def advice_nonempty)
  next
    case no_opened: None
    show ?thesis
    proof (cases "errors_as is_pending e \<noteq> None \<or> errors_as is_not_configured e \<noteq> None")
      case True
      with no_opened good show ?thesis by (auto simp: adviceForError_def advice_nonempty)
    next
      case False
      with assms(2) no_opened obtain x where x: "errors_as is_request_failed e = Some x"
        by (auto simp: IsApprovalOutcome_def)
      with errors_as_Some [OF x] no_opened False good show ?thesis
        by (cases x) (auto simp: adviceForError_def advice_nonempty)
    qed
  qed
qed

lemma logError_outcome:
  assumes "as_api e = Some a" and "IsApprovalOutcome e"
  shows "logError op e l = log_printf (''ERROR '' @ op @ '': '' @ adviceForError (Some e)) l"
  using advice_outcome_nonempty [OF assms] assms(2) by (simp add: logError_def Let_def)

text \<open>The other denials: the error itself, then the hint.\<close>

lemma logError_api_403:
  assumes "ae_StatusCode a = 403" and "lg_out l \<noteq> None"
  shows "lg_lines (logError op (APIError a) l) = lg_lines l @
    [lg_prefix l @ ''ERROR '' @ op @ '': '' @ error_text (APIError a), lg_prefix l @ ''HINT  '' @ op @ '': '' @ advice_403]"
proof -
  have "adviceForError (Some (APIError a)) = advice_403"
    using assms(1) by (simp add: adviceForError_def is_bad_handle_simps as_api_simps)
  moreover have "advice_403 \<noteq> ''''" by (simp add: advice_403_def)
  moreover have "\<not> IsApprovalOutcome (APIError a)" by (simp add: IsApprovalOutcome_def)
  ultimately show ?thesis using assms(2) by (simp add: logError_def log_printf_def Let_def)
qed

section \<open>Properties\<close>

text \<open>C34: The host sees success exactly when there was no error; an access-denied status exactly
  when the chain of the error holds an API error with HTTP 401 or 403 and a missing keyset exactly
  for HTTP 404; and the engine's wrappers, approval outcomes included, never change the status.\<close>

theorem status_of_error:
  "(statusFromError e = statusSuccess \<longleftrightarrow> e = None) \<and>
   (statusFromError (Some err) = statusPerm \<longleftrightarrow> (\<exists>a. as_api err = Some a \<and> ae_StatusCode a \<in> {401, 403})) \<and>
   (statusFromError (Some err) = statusBadKeyset \<longleftrightarrow> (\<exists>a. as_api err = Some a \<and> ae_StatusCode a = 404)) \<and>
   statusFromError (Some (ApprovalRequestOpenedError err requestID state)) = statusFromError (Some err) \<and>
   statusFromError (Some (ApprovalRequestPendingError err)) = statusFromError (Some err) \<and>
   statusFromError (Some (ApprovalNotConfiguredError err)) = statusFromError (Some err) \<and>
   statusFromError (Some (ApprovalRequestFailedError err requestErr)) = statusFromError (Some err) \<and>
   statusFromError (Some (RequestError operation err)) = statusFromError (Some err)"
proof -
  have code: "statusFromError (Some err) = (case as_api err of
      Some a \<Rightarrow> if ae_StatusCode a \<in> {401, 403} then statusPerm
        else if ae_StatusCode a = 404 then statusBadKeyset
        else if ae_StatusCode a = 400 then statusInvalidParameter else statusFail
    | None \<Rightarrow> if is_bad_handle err then statusInvalidParameter else statusFail)"
    by (auto simp: statusFromError_def dest: as_api_not_bad_handle split: option.splits)
  have distinct: "statusPerm \<noteq> statusBadKeyset" "statusPerm \<noteq> statusInvalidParameter" "statusPerm \<noteq> statusFail"
    "statusBadKeyset \<noteq> statusInvalidParameter" "statusBadKeyset \<noteq> statusFail"
    by (simp_all add: status_defs)
  have "statusFromError e = statusSuccess \<longleftrightarrow> e = None" by (cases e) simp_all
  moreover have "statusFromError (Some err) = statusPerm \<longleftrightarrow> (\<exists>a. as_api err = Some a \<and> ae_StatusCode a \<in> {401, 403})"
    "statusFromError (Some err) = statusBadKeyset \<longleftrightarrow> (\<exists>a. as_api err = Some a \<and> ae_StatusCode a = 404)"
    using distinct distinct [symmetric] by (auto simp: code split: option.splits)
  ultimately show ?thesis
    by (simp add: opened.statusFromError_wrap pending.statusFromError_wrap not_configured.statusFromError_wrap
        request_failed.statusFromError_wrap request_error.statusFromError_wrap)
qed

text \<open>C35: For an error that carries an API error under an approval outcome, one line is logged, made
  of the advice, which is never empty, in place of the text of the error. The README promises the
  HTTP 403 in the log when an approval is missing; the advice for a request already pending, and the
  one for a provider without an approval block, do not name it.\<close>

theorem log_approval_outcome:
  assumes "as_api e = Some a" and "IsApprovalOutcome e" and "lg_out l \<noteq> None"
  shows "lg_lines (logError op e l) = lg_lines l @ [lg_prefix l @ ''ERROR '' @ op @ '': '' @ adviceForError (Some e)] \<and>
    adviceForError (Some e) \<noteq> '''' \<and>
    (e \<in> {ApprovalRequestPendingError (APIError a), ApprovalNotConfiguredError (APIError a)} \<longrightarrow>
      \<not> sublist ''HTTP 403'' (adviceForError (Some e)))"
proof -
  have silent: "\<not> sublist ''HTTP 403'' advice_pending" "\<not> sublist ''HTTP 403'' advice_not_configured"
    by code_simp+
  have "as_api (APIError a) = Some a" by simp
  note advice = advice_outcomes [OF this]
  have "e \<in> {ApprovalRequestPendingError (APIError a), ApprovalNotConfiguredError (APIError a)} \<longrightarrow>
      \<not> sublist ''HTTP 403'' (adviceForError (Some e))"
    using silent by (auto simp: advice)
  then show ?thesis
    using assms(3) by (simp add: logError_outcome [OF assms(1,2)] log_printf_def advice_outcome_nonempty [OF assms(1,2)])
qed

theorem log_approval_outcome_witness:
  "lg_lines (logError ''SignHash'' (ApprovalRequestPendingError
      (APIError \<lparr>ae_Operation = ''sign'', ae_StatusCode = 403, ae_Message = ''m'',
        ae_Code = ErrorCodeApprovalRequired, ae_HasPendingRequest = True\<rparr>))
      \<lparr>lg_once = True, lg_out = Some ''ksp.log'', lg_prefix = ''[infisical-ksp] '', lg_lines = []\<rparr>) =
   [''[infisical-ksp] ERROR SignHash: '' @ advice_pending]"
proof -
  let ?a = "\<lparr>ae_Operation = ''sign'', ae_StatusCode = 403, ae_Message = ''m'',
    ae_Code = ErrorCodeApprovalRequired, ae_HasPendingRequest = True\<rparr>"
  have "as_api (ApprovalRequestPendingError (APIError ?a)) = Some ?a"
    "IsApprovalOutcome (ApprovalRequestPendingError (APIError ?a))"
    by (simp_all add: IsApprovalOutcome_def)
  from log_approval_outcome [OF this, of "\<lparr>lg_once = True, lg_out = Some ''ksp.log'',
      lg_prefix = ''[infisical-ksp] '', lg_lines = []\<rparr>" "''SignHash''"]
  show ?thesis by (simp add: advice_outcomes(2))
qed

end
