(* ===== verification/Cng_Ecdsa.thy ===== *)
theory Cng_Ecdsa
  imports Errors
begin

text \<open>
  \<open>internal/cng/ecdsa.go\<close>: the DER signature Infisical returns, reshaped into the fixed-size
  \<open>r || s\<close> of CNG. \<open>asn1.Unmarshal\<close> into a struct of two \<open>*big.Int\<close> is written out as the
  library does it (definite minimal lengths, minimal integers, elements after the second one
  of the SEQUENCE ignored); the text of its errors is not modelled.
\<close>

section \<open>\<open>asn1.Unmarshal\<close>\<close>

text \<open>The length octets after the first, big-endian; \<open>acc\<close> is the length read so far.\<close>

fun asn1_long_length :: "nat \<Rightarrow> nat \<Rightarrow> byte list \<Rightarrow> (nat \<times> byte list) option" where
  "asn1_long_length 0 acc bs = Some (acc, bs)"
| "asn1_long_length (Suc k) acc [] = None"
| "asn1_long_length (Suc k) acc (b # bs) =
     (if 2 ^ 23 \<le> acc then None
      else let acc' = 256 * acc + unat b in
        if acc' = 0 then None else asn1_long_length k acc' bs)"

definition asn1_length :: "byte list \<Rightarrow> (nat \<times> byte list) option" where
  "asn1_length bs = (case bs of
       [] \<Rightarrow> None
     | b # rest \<Rightarrow>
         if unat b < 128 then Some (unat b, rest)
         else if unat b = 128 then None
         else (case asn1_long_length (unat b - 128) 0 rest of
             None \<Rightarrow> None
           | Some (n, rest') \<Rightarrow> if n < 128 then None else Some (n, rest')))"

text \<open>
  One element with the expected identifier octet (class, constructed bit and tag): its content
  and what follows it. A multi-byte tag never has the tag number of a SEQUENCE or an INTEGER.
\<close>

definition asn1_element :: "byte \<Rightarrow> byte list \<Rightarrow> (byte list \<times> byte list) option" where
  "asn1_element ident bs = (case bs of
       [] \<Rightarrow> None
     | t # rest \<Rightarrow>
         if t \<noteq> ident then None
         else (case asn1_length rest of
             None \<Rightarrow> None
           | Some (n, rest') \<Rightarrow>
               if length rest' < n then None else Some (take n rest', drop n rest')))"

definition asn1_big_int :: "byte list \<Rightarrow> int option" where
  "asn1_big_int bs = (case bs of
       [] \<Rightarrow> None
     | b # rest \<Rightarrow>
         if (case rest of
               [] \<Rightarrow> False
             | b2 # _ \<Rightarrow> unat b = 0 \<and> unat b2 < 128 \<or> unat b = 255 \<and> 128 \<le> unat b2)
         then None
         else if 128 \<le> unat b then Some (int (be_nat bs) - 256 ^ length bs)
         else Some (int (be_nat bs)))"

definition asn1_int_field :: "byte list \<Rightarrow> (int \<times> byte list) option" where
  "asn1_int_field bs = (case asn1_element 2 bs of
       None \<Rightarrow> None
     | Some (content, rest) \<Rightarrow>
         (case asn1_big_int content of None \<Rightarrow> None | Some i \<Rightarrow> Some (i, rest)))"

text \<open>\<open>asn1.Unmarshal(der, &sig)\<close>: the two integers and the bytes after the SEQUENCE.\<close>

definition asn1_unmarshal_sig :: "byte list \<Rightarrow> ((int \<times> int) \<times> byte list) option" where
  "asn1_unmarshal_sig der = (case asn1_element 0x30 der of
       None \<Rightarrow> None
     | Some (content, rest) \<Rightarrow>
         (case asn1_int_field content of
            None \<Rightarrow> None
          | Some (r, content') \<Rightarrow>
              (case asn1_int_field content' of
                 None \<Rightarrow> None
               | Some (s, _) \<Rightarrow> Some ((r, s), rest))))"

section \<open>\<open>ECDSADERToRaw\<close>\<close>

definition curve_size :: "nat \<Rightarrow> nat" where
  "curve_size bits = (bits + 7) div 8"

text \<open>\<open>copy(out[lo:hi], src)\<close>: a slice out of bounds is a run-time panic, \<open>None\<close>.\<close>

definition copy_slice :: "byte list \<Rightarrow> int \<Rightarrow> int \<Rightarrow> byte list \<Rightarrow> byte list option" where
  "copy_slice out lo hi src =
     (if 0 \<le> lo \<and> lo \<le> hi \<and> hi \<le> int (length out)
      then Some (put_at (nat lo) (take (nat (hi - lo)) src) out)
      else None)"

text \<open>\<open>None\<close> is a panic of one of the two slices at the end.\<close>

definition ECDSADERToRaw :: "byte list \<Rightarrow> nat \<Rightarrow> byte list result option" where
  "ECDSADERToRaw der curveBits = (case asn1_unmarshal_sig der of
       None \<Rightarrow> Some (Inl (WrapErrorf ''parse DER ECDSA signature: asn1'' (StdError ''asn1'')))
     | Some ((R, S), rest) \<Rightarrow>
         if rest \<noteq> [] then Some (Inl (Errorf ''trailing bytes after DER ECDSA signature''))
         else if R \<le> 0 \<or> S \<le> 0 then Some (Inl (Errorf ''ECDSA signature has non-positive r or s''))
         else
           let size = (curveBits + 7) div 8;
               r = big_bytes (nat R);
               s = big_bytes (nat S)
           in if size < length r \<or> size < length s
              then Some (Inl (Errorf (''ECDSA r/s larger than curve size '' @ nat_string size)))
              else
                let out = replicate (2 * size) 0 in
                (case copy_slice out (int size - int (length r)) (int size) r of
                   None \<Rightarrow> None
                 | Some out \<Rightarrow>
                     map_option Inr (copy_slice out (2 * int size - int (length s)) (int (length out)) s)))"

text \<open>What it computes: both slices are in bounds, whatever the server sent.\<close>

definition raw_signature :: "byte list \<Rightarrow> nat \<Rightarrow> byte list result" where
  "raw_signature der curveBits = (case asn1_unmarshal_sig der of
       None \<Rightarrow> Inl (WrapErrorf ''parse DER ECDSA signature: asn1'' (StdError ''asn1''))
     | Some ((R, S), rest) \<Rightarrow>
         if rest \<noteq> [] then Inl (Errorf ''trailing bytes after DER ECDSA signature'')
         else if R \<le> 0 \<or> S \<le> 0 then Inl (Errorf ''ECDSA signature has non-positive r or s'')
         else if curve_size curveBits < length (big_bytes (nat R)) \<or> curve_size curveBits < length (big_bytes (nat S))
         then Inl (Errorf (''ECDSA r/s larger than curve size '' @ nat_string (curve_size curveBits)))
         else Inr (replicate (curve_size curveBits - length (big_bytes (nat R))) 0 @ big_bytes (nat R) @
           replicate (curve_size curveBits - length (big_bytes (nat S))) 0 @ big_bytes (nat S)))"

lemma copy_slices:
  assumes "length r \<le> n" and "length s \<le> n"
  shows "copy_slice (replicate (2 * n) 0) (int n - int (length r)) (int n) r =
      Some (replicate (n - length r) 0 @ r @ replicate n 0)"
    and "copy_slice (replicate (n - length r) 0 @ r @ replicate n 0) (2 * int n - int (length s)) (2 * int n) s =
      Some (replicate (n - length r) 0 @ r @ replicate (n - length s) 0 @ s)"
proof -
  have lo: "nat (int n - int (length r)) = n - length r" "nat (2 * int n - int (length s)) = 2 * n - length s"
    using assms by linarith+
  have "replicate (2 * n) 0 = replicate (n - length r) 0 @ replicate (length r) 0 @ (replicate n 0 :: byte list)"
    using assms(1) by (simp add: replicate_add [symmetric])
  then show "copy_slice (replicate (2 * n) 0) (int n - int (length r)) (int n) r =
      Some (replicate (n - length r) 0 @ r @ replicate n 0)"
    using assms(1) lo(1) by (simp add: copy_slice_def put_at_def)
  let ?a = "replicate (n - length r) 0 @ r"
  have "length ?a = n" using assms(1) by simp
  moreover have "2 * n - length s = n + (n - length s)" using assms(2) by linarith
  ultimately show "copy_slice (replicate (n - length r) 0 @ r @ replicate n 0) (2 * int n - int (length s)) (2 * int n) s =
      Some (replicate (n - length r) 0 @ r @ replicate (n - length s) 0 @ s)"
    using assms lo(2) by (simp add: copy_slice_def put_at_def)
qed

lemma ECDSADERToRaw_eq: "ECDSADERToRaw der bits = Some (raw_signature der bits)"
proof -
  have "length r \<le> n \<Longrightarrow> length (replicate (n - length r) 0 @ r @ replicate n (0 :: byte)) = 2 * n" for r n
    by simp
  then show ?thesis
    by (auto simp: ECDSADERToRaw_def raw_signature_def curve_size_def Let_def copy_slices not_less
        simp del: length_append split: option.splits)
qed

section \<open>A DER encoder, the specification of what the server sends\<close>

definition der_length :: "nat \<Rightarrow> byte list" where
  "der_length n = (if n < 128 then [word_of_nat n]
     else word_of_nat (128 + length (big_bytes n)) # big_bytes n)"

definition der_int :: "nat \<Rightarrow> byte list" where
  "der_int n = (let b = big_bytes n; c = (if 128 \<le> unat (hd b) then 0 # b else b)
     in 2 # der_length (length c) @ c)"

definition der_sig :: "nat \<times> nat \<Rightarrow> byte list" where
  "der_sig rs = (let c = der_int (fst rs) @ der_int (snd rs) in 0x30 # der_length (length c) @ c)"

lemma asn1_long_length_be:
  assumes "acc * 256 ^ length xs + be_nat xs < 2 ^ 31"
    and "0 < acc \<or> xs = [] \<or> hd xs \<noteq> 0"
  shows "asn1_long_length (length xs) acc (xs @ rest) = Some (acc * 256 ^ length xs + be_nat xs, rest)"
  using assms
proof (induction xs arbitrary: acc)
  case Nil
  then show ?case by simp
next
  case (Cons x xs)
  let ?acc = "256 * acc + unat x"
  have total: "?acc * 256 ^ length xs + be_nat xs = acc * 256 ^ length (x # xs) + be_nat (x # xs)"
    by (simp add: be_nat_Cons algebra_simps)
  have "acc * 256 ^ length (x # xs) < 2 ^ 31"
    using Cons.prems(1) by linarith
  moreover have "acc * 256 \<le> acc * 256 ^ length (x # xs)"
    by simp
  ultimately have "acc * 256 < 2 ^ 31" by linarith
  then have small: "acc < 2 ^ 23" by simp
  have pos: "?acc \<noteq> 0"
    using Cons.prems(2) by (auto simp: unat_eq_zero)
  have "asn1_long_length (length xs) ?acc (xs @ rest) = Some (?acc * 256 ^ length xs + be_nat xs, rest)"
    using Cons.prems(1) pos by (intro Cons.IH) (auto simp: total)
  with small pos show ?case by (simp add: Let_def total)
qed

lemma asn1_length_der:
  assumes "n < 2 ^ 31"
  shows "asn1_length (der_length n @ rest) = Some (n, rest)"
proof (cases "n < 128")
  case True
  then show ?thesis by (simp add: der_length_def asn1_length_def unat_byte_of_nat)
next
  case False
  have "length (big_bytes n) \<le> 4"
    using assms by (simp add: big_bytes_length)
  moreover have "0 < length (big_bytes n)"
    using False by simp
  moreover have "unat (word_of_nat (128 + length (big_bytes n)) :: byte) = 128 + length (big_bytes n)"
    using \<open>length (big_bytes n) \<le> 4\<close> by (simp only: unat_byte_of_nat) simp
  moreover have "asn1_long_length (length (big_bytes n)) 0 (big_bytes n @ rest) = Some (n, rest)"
    using asn1_long_length_be [of 0 "big_bytes n" rest] assms False big_bytes_hd [of n] by simp
  ultimately show ?thesis
    using False by (simp add: der_length_def asn1_length_def del: big_bytes_eq_Nil)
qed

lemma asn1_element_der:
  assumes "length c < 2 ^ 31"
  shows "asn1_element t (t # der_length (length c) @ c @ rest) = Some (c, rest)"
  using assms by (simp add: asn1_element_def asn1_length_der)

lemma asn1_big_int_positive:
  assumes "0 < n"
  shows "asn1_big_int (if 128 \<le> unat (hd (big_bytes n)) then 0 # big_bytes n else big_bytes n) = Some (int n)"
proof -
  obtain b bs where b: "big_bytes n = b # bs" using assms by (cases "big_bytes n") auto
  then have val: "be_nat (b # bs) = n" by (metis be_nat_big_bytes)
  have "be_nat (0 # b # bs) = n" using val be_nat_zeros [of 1 "b # bs"] by simp
  moreover have "unat b \<noteq> 0" using big_bytes_hd [of n] assms b by (simp add: unat_eq_zero)
  ultimately show ?thesis using b val by (auto simp: asn1_big_int_def split: list.splits)
qed

lemma length_der_length: "n < 2 ^ 31 \<Longrightarrow> length (der_length n) \<le> 5"
  by (auto simp: der_length_def big_bytes_length)

lemma length_der_int:
  assumes "n < 256 ^ k" and "k < 2 ^ 30"
  shows "length (der_int n) \<le> k + 7"
proof -
  have "length (big_bytes n) \<le> k" using assms(1) by (simp add: big_bytes_length)
  with assms(2) length_der_length [of "length (big_bytes n)"] length_der_length [of "Suc (length (big_bytes n))"]
  show ?thesis by (auto simp: der_int_def Let_def)
qed

lemma asn1_int_field_der:
  assumes "0 < n" and "n < 256 ^ k" and "k < 2 ^ 30"
  shows "asn1_int_field (der_int n @ rest) = Some (int n, rest)"
proof -
  let ?c = "if 128 \<le> unat (hd (big_bytes n)) then 0 # big_bytes n else big_bytes n"
  have "length (big_bytes n) \<le> k" using assms(2) by (simp add: big_bytes_length)
  with assms(3) have "length ?c < 2 ^ 31" by auto
  then have "asn1_element 2 (2 # der_length (length ?c) @ ?c @ rest) = Some (?c, rest)"
    by (rule asn1_element_der)
  moreover have "der_int n @ rest = 2 # der_length (length ?c) @ ?c @ rest"
    by (simp add: der_int_def Let_def)
  ultimately show ?thesis
    using asn1_big_int_positive [OF assms(1)] by (simp add: asn1_int_field_def)
qed

lemma asn1_unmarshal_der_sig:
  assumes "0 < r" "r < 256 ^ k" and "0 < s" "s < 256 ^ k" and "k < 2 ^ 20"
  shows "asn1_unmarshal_sig (der_sig (r, s) @ rest) = Some ((int r, int s), rest)"
proof -
  let ?c = "der_int r @ der_int s"
  have "length ?c < 2 ^ 31"
    using length_der_int [of r k] length_der_int [of s k] assms by simp
  then have "asn1_element 0x30 (0x30 # der_length (length ?c) @ ?c @ rest) = Some (?c, rest)"
    by (rule asn1_element_der)
  moreover have "asn1_int_field ?c = Some (int r, der_int s)"
    using assms by (intro asn1_int_field_der [where k = k]) auto
  moreover have "asn1_int_field (der_int s) = Some (int s, [])"
    using assms asn1_int_field_der [of s k "[]"] by simp
  ultimately show ?thesis by (simp add: asn1_unmarshal_sig_def der_sig_def Let_def)
qed

text \<open>The result of a conversion that succeeded: two fixed-width numbers, both positive.\<close>

lemma raw_signature_Inr:
  assumes "raw_signature der bits = Inr out"
  obtains R S where "asn1_unmarshal_sig der = Some ((R, S), [])" "0 < R" "0 < S"
    "nat R < 256 ^ curve_size bits" "nat S < 256 ^ curve_size bits"
    "out = be_fixed (curve_size bits) (nat R) @ be_fixed (curve_size bits) (nat S)"
proof -
  from assms obtain R S where parsed: "asn1_unmarshal_sig der = Some ((R, S), [])"
    and pos: "0 < R" "0 < S"
    and fits: "length (big_bytes (nat R)) \<le> curve_size bits" "length (big_bytes (nat S)) \<le> curve_size bits"
    and out: "out = replicate (curve_size bits - length (big_bytes (nat R))) 0 @ big_bytes (nat R) @
      replicate (curve_size bits - length (big_bytes (nat S))) 0 @ big_bytes (nat S)"
    by (auto simp: raw_signature_def split: option.splits if_splits)
  from fits have "out = be_fixed (curve_size bits) (nat R) @ be_fixed (curve_size bits) (nat S)"
    by (simp add: out pad_big_bytes)
  with parsed pos fits show ?thesis by (auto simp: big_bytes_length intro: that)
qed

lemma raw_signature_of_parts:
  assumes "asn1_unmarshal_sig der = Some ((int r, int s), [])" and "0 < r" "0 < s"
    and "r < 256 ^ curve_size bits" "s < 256 ^ curve_size bits"
  shows "raw_signature der bits = Inr (be_fixed (curve_size bits) r @ be_fixed (curve_size bits) s)"
proof -
  have "length (big_bytes r) \<le> curve_size bits" "length (big_bytes s) \<le> curve_size bits"
    using assms by (simp_all add: big_bytes_length)
  with assms show ?thesis
    by (simp add: raw_signature_def pad_big_bytes)
qed

lemma raw_signature_error: "raw_signature der bits = Inl e \<Longrightarrow> as_api e = None \<and> \<not> is_bad_handle e"
  by (auto simp: raw_signature_def split: option.splits if_splits)

text \<open>The reading of a raw signature, and DER signatures as an encoding.\<close>

definition raw_sig :: "nat \<Rightarrow> byte list \<Rightarrow> nat \<times> nat" where
  "raw_sig k raw = (be_nat (take k raw), be_nat (drop k raw))"

definition sig_valid :: "nat \<Rightarrow> nat \<times> nat \<Rightarrow> bool" where
  "sig_valid k rs \<longleftrightarrow> 0 < fst rs \<and> 0 < snd rs \<and> fst rs < 256 ^ k \<and> snd rs < 256 ^ k \<and> k < 2 ^ 20"

definition der_sig_read :: "byte list \<Rightarrow> (nat \<times> nat) option" where
  "der_sig_read der = (case asn1_unmarshal_sig der of
     Some ((R, S), []) \<Rightarrow> Some (nat R, nat S) | _ \<Rightarrow> None)"

interpretation der: codec der_sig der_sig_read "sig_valid k" for k
proof
  fix rs assume "sig_valid k rs"
  then have "asn1_unmarshal_sig (der_sig (fst rs, snd rs) @ []) = Some ((int (fst rs), int (snd rs)), [])"
    unfolding sig_valid_def by (intro asn1_unmarshal_der_sig [where k = k]) auto
  then show "der_sig_read (der_sig rs) = Some rs" by (simp add: der_sig_read_def)
qed

lemma raw_sig_fixed:
  "r < 256 ^ k \<Longrightarrow> s < 256 ^ k \<Longrightarrow> raw_sig k (be_fixed k r @ be_fixed k s) = (r, s)"
  by (simp add: raw_sig_def be_nat_be_fixed)

section \<open>Properties\<close>

text \<open>C22: A DER signature of two positive numbers that fit the curve is converted to r || s of twice
  the curve size, from which the host reads back exactly these two numbers.\<close>

theorem ecdsa_roundtrip:
  assumes "0 < r" "r < 256 ^ ((bits + 7) div 8)" and "0 < s" "s < 256 ^ ((bits + 7) div 8)" and "bits < 2 ^ 20"
  shows "\<exists>raw. ECDSADERToRaw (der_sig (r, s)) bits = Some (Inr raw) \<and> length raw = 2 * ((bits + 7) div 8) \<and>
    raw_sig ((bits + 7) div 8) raw = (r, s)"
proof -
  have "sig_valid (curve_size bits) (r, s)"
    using assms by (simp add: sig_valid_def curve_size_def)
  note der.dec_enc [OF this]
  then have "asn1_unmarshal_sig (der_sig (r, s)) = Some ((int r, int s), [])"
    using asn1_unmarshal_der_sig [of r "curve_size bits" s "[]"] assms by (simp add: curve_size_def)
  from raw_signature_of_parts [OF this, of bits] assms show ?thesis
    by (simp add: ECDSADERToRaw_eq curve_size_def raw_sig_fixed)
qed

theorem ecdsa_roundtrip_witness:
  "\<exists>raw. ECDSADERToRaw (der_sig (1, 255)) 256 = Some (Inr raw) \<and> length raw = 64 \<and> raw_sig 32 raw = (1, 255)"
  using ecdsa_roundtrip [of 1 256 255] by simp

text \<open>C23: A conversion that succeeds has the size of the curve and loses nothing: what the host reads
  are the two integers of the DER value, both positive, and nothing followed the value; a signature
  with other integers converts to other bytes.\<close>

theorem ecdsa_sound:
  assumes "ECDSADERToRaw der bits = Some (Inr raw)"
  shows "length raw = 2 * ((bits + 7) div 8) \<and>
    (\<exists>r s. raw_sig ((bits + 7) div 8) raw = (r, s) \<and> 0 < r \<and> 0 < s \<and>
      asn1_unmarshal_sig der = Some ((int r, int s), []) \<and>
      (\<forall>der'. ECDSADERToRaw der' bits = Some (Inr raw) \<longrightarrow> asn1_unmarshal_sig der' = asn1_unmarshal_sig der))"
proof -
  have parts: "\<exists>r s. raw_sig (curve_size bits) raw = (r, s) \<and> 0 < r \<and> 0 < s \<and>
      asn1_unmarshal_sig d = Some ((int r, int s), []) \<and> length raw = 2 * curve_size bits"
    if run: "ECDSADERToRaw d bits = Some (Inr raw)" for d
    using run [unfolded ECDSADERToRaw_eq option.inject]
  proof (rule raw_signature_Inr)
    fix R S assume "asn1_unmarshal_sig d = Some ((R, S), [])" "0 < R" "0 < S"
      and fits: "nat R < 256 ^ curve_size bits" "nat S < 256 ^ curve_size bits"
      and "raw = be_fixed (curve_size bits) (nat R) @ be_fixed (curve_size bits) (nat S)"
    then show ?thesis
      by (intro exI [of _ "nat R"] exI [of _ "nat S"]) (simp add: raw_sig_fixed [OF fits])
  qed
  from parts [OF assms] parts show ?thesis unfolding curve_size_def by fastforce
qed

theorem ecdsa_sound_witness:
  "ECDSADERToRaw [0x30, 6, 2, 1, 1, 2, 1, 5] 8 = Some (Inr [1, 5]) \<and> raw_sig 1 [1, 5] = (1, 5)"
proof -
  have run: "ECDSADERToRaw [0x30, 6, 2, 1, 1, 2, 1, 5] 8 = Some (Inr [1, 5])" by code_simp
  have read: "raw_sig 1 [1, 5] = (1, 5)" by code_simp
  from ecdsa_sound [OF run] run read show ?thesis by simp
qed

end
