(* ===== verification/Nist_Curves.thy ===== *)
theory Nist_Curves
  imports Prelude
begin

text \<open>
  The points of the curves P-256, P-384 and P-521, as \<open>crypto/ecdsa\<close> checks them before it encodes
  a public key: affine coordinates below the prime of the field that satisfy
  \<open>y * y = x * x * x - 3 * x + b\<close>. The constants are those of FIPS 186.
\<close>

definition nist_prime :: "nat \<Rightarrow> nat" where
  "nist_prime bits =
     (if bits = 256 then 2 ^ 256 - 2 ^ 224 + 2 ^ 192 + 2 ^ 96 - 1
      else if bits = 384 then 2 ^ 384 - 2 ^ 128 - 2 ^ 96 + 2 ^ 32 - 1
      else if bits = 521 then 2 ^ 521 - 1
      else 0)"

definition nist_b :: "nat \<Rightarrow> nat" where
  "nist_b bits =
     (if bits = 256 then 0x5ac635d8aa3a93e7b3ebbd55769886bc651d06b0cc53b0f63bce3c3e27d2604b
      else if bits = 384 then
        0xb3312fa7e23ee7e4988e056be3f82d19181d9c6efe8141120314088f5013875ac656398d8a2ed19d2a85c8edd3ec2aef
      else 0x51953eb9618e1c9a1f929a21a0b68540eea2da725b99b315f3b8b489918ef109e156193951ec7e937b1652c0bd3bb1bf073573df883d2c34f1ef451fd46b503f00)"

definition on_curve :: "nat \<Rightarrow> nat \<Rightarrow> nat \<Rightarrow> bool" where
  "on_curve bits x y \<longleftrightarrow> x < nist_prime bits \<and> y < nist_prime bits \<and>
     (y * y + 3 * x) mod nist_prime bits = (x * x * x + nist_b bits) mod nist_prime bits"

text \<open>No other size has points, and a coordinate fits the bytes of the field.\<close>

lemma on_curve_bits: "on_curve bits x y \<Longrightarrow> bits \<in> {256, 384, 521}"
  by (auto simp: on_curve_def nist_prime_def split: if_splits)

lemma on_curve_fits:
  assumes "on_curve bits x y"
  shows "x < 256 ^ ((bits + 7) div 8) \<and> y < 256 ^ ((bits + 7) div 8)"
proof -
  from on_curve_bits [OF assms] have "nist_prime bits \<le> 256 ^ ((bits + 7) div 8)"
    by (auto simp: nist_prime_def)
  with assms show ?thesis by (auto simp: on_curve_def)
qed

text \<open>A point by a quotient, and the base point of P-256.\<close>

lemma on_curveI:
  "x < nist_prime bits \<Longrightarrow> y < nist_prime bits \<Longrightarrow> x * x * x + nist_b bits = y * y + 3 * x + k * nist_prime bits \<Longrightarrow>
    on_curve bits x y"
  by (simp add: on_curve_def)

definition p256_x :: nat where
  "p256_x = 0x6b17d1f2e12c4247f8bce6e563a440f277037d812deb33a0f4a13945d898c296"

definition p256_y :: nat where
  "p256_y = 0x4fe342e2fe1a7f9b8ee7eb4a7c0f9e162bce33576b315ececbb6406837bf51f5"

lemma p256_on_curve: "on_curve 256 p256_x p256_y"
  by (rule on_curveI [where k = "0x12bdd1ad23dfc833dccf5f6141d6bb4a1f365dc1430b0e600b52dd851938d2d6933106a72efbf035fdaf43963b37fd5456e90c6581a8fb7a0d8a46a3629f0458"])
    (simp_all add: nist_prime_def nist_b_def p256_x_def p256_y_def)

end
