(* ===== verification/Cng_Pubkey.thy ===== *)
theory Cng_Pubkey
  imports Errors Nist_Curves
begin

text \<open>
  \<open>internal/cng/pubkey.go\<close>: public keys as CNG blobs, with readers of the two blob formats as
  the specification of what the host makes of them.
\<close>

section \<open>The encoders\<close>

definition magicRSAPublic :: "32 word" where
  "magicRSAPublic = 0x31415352"

definition magicECDSAPubP256 :: "32 word" where
  "magicECDSAPubP256 = 0x31534345"

definition magicECDSAPubP384 :: "32 word" where
  "magicECDSAPubP384 = 0x33534345"

definition magicECDSAPubP521 :: "32 word" where
  "magicECDSAPubP521 = 0x35534345"

lemmas magic_defs = magicRSAPublic_def magicECDSAPubP256_def magicECDSAPubP384_def magicECDSAPubP521_def

definition RSAPublicBlob :: "nat \<Rightarrow> int \<Rightarrow> byte list" where
  "RSAPublicBlob N E =
     (let exp = big_bytes (nat \<bar>E\<bar>);
          modulus = big_bytes N;
          headerLen = 24;
          out = replicate headerLen 0;
          out = put_at 0 (put_u32 magicRSAPublic) out;
          out = put_at 4 (put_u32 (word_of_nat (bit_len N))) out;
          out = put_at 8 (put_u32 (word_of_nat (length exp))) out;
          out = put_at 12 (put_u32 (word_of_nat (length modulus))) out
      in out @ exp @ modulus)"

text \<open>\<open>(*ecdsa.PublicKey).Bytes\<close>: the uncompressed point, or an error off the curve.\<close>

definition ec_point_bytes :: "nat \<Rightarrow> nat \<Rightarrow> nat \<Rightarrow> byte list result" where
  "ec_point_bytes bits x y =
     (if on_curve bits x y
      then Inr (4 # be_fixed ((bits + 7) div 8) x @ be_fixed ((bits + 7) div 8) y)
      else Inl (StdError ''ecdsa: invalid public key''))"

definition ecc_magic :: "nat \<Rightarrow> (32 word) option" where
  "ecc_magic bits =
     (if bits = 256 then Some magicECDSAPubP256
      else if bits = 384 then Some magicECDSAPubP384
      else if bits = 521 then Some magicECDSAPubP521
      else None)"

definition ECCPublicBlob :: "nat \<Rightarrow> nat \<Rightarrow> nat \<Rightarrow> byte list result" where
  "ECCPublicBlob bits x y = (case ecc_magic bits of
       None \<Rightarrow> Inl (Errorf (''unsupported EC curve: '' @ nat_string bits @ '' bits''))
     | Some magic \<Rightarrow>
         (let cbKey = (bits + 7) div 8;
              headerLen = 8;
              out = replicate headerLen 0;
              out = put_at 0 (put_u32 magic) out;
              out = put_at 4 (put_u32 (word_of_nat cbKey)) out
          in case ec_point_bytes bits x y of
               Inl err \<Rightarrow> Inl (WrapErrorf (''invalid EC public key: '' @ error_text err) err)
             | Inr point \<Rightarrow> Inr (out @ drop 1 point)))"

section \<open>Readers, the specification of the formats\<close>

definition rsa_blob_read :: "byte list \<Rightarrow> (nat \<times> int) option" where
  "rsa_blob_read bs =
     (let cbExp = u32_at 8 bs; cbMod = u32_at 12 bs;
          exp = take cbExp (drop 24 bs); modulus = drop (24 + cbExp) bs
      in if length bs = 24 + cbExp + cbMod \<and> u32_at 0 bs = unat magicRSAPublic \<and>
            u32_at 4 bs = bit_len (be_nat modulus) \<and> u32_at 16 bs = 0 \<and> u32_at 20 bs = 0
         then Some (be_nat modulus, int (be_nat exp)) else None)"

definition ecc_blob_read :: "byte list \<Rightarrow> (nat \<times> nat \<times> nat) option" where
  "ecc_blob_read bs =
     (let cbKey = u32_at 4 bs;
          bits = (if u32_at 0 bs = unat magicECDSAPubP256 then 256
                  else if u32_at 0 bs = unat magicECDSAPubP384 then 384
                  else if u32_at 0 bs = unat magicECDSAPubP521 then 521 else 0)
      in if length bs = 8 + 2 * cbKey \<and> cbKey = (bits + 7) div 8 \<and> bits \<noteq> 0
         then Some (bits, be_nat (take cbKey (drop 8 bs)), be_nat (drop (8 + cbKey) bs)) else None)"

section \<open>Round trips\<close>

lemma put_u32_small: "n < 2 ^ 32 \<Longrightarrow> le_nat (put_u32 (word_of_nat n)) = n"
  by (simp add: le_nat_put_u32 unat_of_nat)

lemma unat_u32_small: "n < 4294967296 \<Longrightarrow> unat (word_of_nat n :: 32 word) = n"
  by (simp add: unat_of_nat)

lemma RSAPublicBlob_eq:
  "RSAPublicBlob N E =
     put_u32 magicRSAPublic @ put_u32 (word_of_nat (bit_len N)) @
     put_u32 (word_of_nat (length (big_bytes (nat \<bar>E\<bar>)))) @ put_u32 (word_of_nat (length (big_bytes N))) @
     replicate 8 0 @ big_bytes (nat \<bar>E\<bar>) @ big_bytes N"
  by (simp add: RSAPublicBlob_def put_at_def Let_def)

text \<open>A key \<open>crypto/x509\<close> can hand over: a machine-sized non-negative exponent, a modulus whose
  bit length fits the header.\<close>

definition rsa_key_valid :: "nat \<times> int \<Rightarrow> bool" where
  "rsa_key_valid k \<longleftrightarrow> bit_len (fst k) < 2 ^ 32 \<and> 0 \<le> snd k \<and> snd k < 2 ^ 63"

lemma rsa_blob_read_RSAPublicBlob:
  assumes "rsa_key_valid (N, E)"
  shows "rsa_blob_read (RSAPublicBlob N E) = Some (N, E)"
proof -
  from assms have bits: "bit_len N < 2 ^ 32" and E: "0 \<le> E" "E < 2 ^ 63"
    by (auto simp: rsa_key_valid_def)
  have "nat E < 256 ^ 8" using E by (simp add: nat_less_iff)
  then have exp: "length (big_bytes (nat E)) < 2 ^ 32"
    using big_bytes_length [of "nat E" 8] by simp
  have md: "length (big_bytes N) < 2 ^ 32"
    using bits by (simp add: length_big_bytes)
  show ?thesis
    using E bits exp md
    by (simp add: rsa_blob_read_def RSAPublicBlob_eq u32_at_def unat_u32_small le_nat_put_u32 Let_def)
qed

interpretation rsa_blob: codec "\<lambda>k. RSAPublicBlob (fst k) (snd k)" rsa_blob_read rsa_key_valid
  by unfold_locales (auto simp: rsa_blob_read_RSAPublicBlob)

lemma ECCPublicBlob_Inr:
  assumes "ECCPublicBlob bits x y = Inr blob"
  obtains magic where "ecc_magic bits = Some magic" "on_curve bits x y"
    "blob = put_u32 magic @ put_u32 (word_of_nat ((bits + 7) div 8)) @
      be_fixed ((bits + 7) div 8) x @ be_fixed ((bits + 7) div 8) y"
proof -
  from assms obtain magic where "ecc_magic bits = Some magic" "on_curve bits x y"
    by (auto simp: ECCPublicBlob_def ec_point_bytes_def Let_def split: option.splits if_splits sum.splits)
  with assms show ?thesis
    by (intro that [of magic]) (auto simp: ECCPublicBlob_def ec_point_bytes_def put_at_def Let_def)
qed

lemma ecc_magic_bits: "ecc_magic bits = Some magic \<Longrightarrow> bits = 256 \<or> bits = 384 \<or> bits = 521"
  by (auto simp: ecc_magic_def split: if_splits)

lemma ecc_blob_read_ECCPublicBlob:
  assumes "ECCPublicBlob bits x y = Inr blob"
    and "x < 256 ^ ((bits + 7) div 8)" "y < 256 ^ ((bits + 7) div 8)"
  shows "ecc_blob_read blob = Some (bits, x, y)"
  using assms(1)
proof (rule ECCPublicBlob_Inr)
  fix magic
  assume magic: "ecc_magic bits = Some magic"
    and blob: "blob = put_u32 magic @ put_u32 (word_of_nat ((bits + 7) div 8)) @
      be_fixed ((bits + 7) div 8) x @ be_fixed ((bits + 7) div 8) y"
  from ecc_magic_bits [OF magic] show ?thesis
    using magic assms(2,3)
    by (elim disjE) (simp_all add: blob ecc_blob_read_def ecc_magic_def u32_at_def le_nat_put_u32
        be_nat_be_fixed magic_defs Let_def)
qed

lemma ECCPublicBlob_error: "ECCPublicBlob bits x y = Inl e \<Longrightarrow> as_api e = None \<and> \<not> is_bad_handle e"
  by (auto simp: ECCPublicBlob_def ec_point_bytes_def Let_def split: option.splits if_splits sum.splits)

section \<open>Properties\<close>

text \<open>C24: The RSA public blob is read back by the host as the modulus and exponent of the key: sizes,
  offsets and byte order of the header agree with the two numbers that follow it.\<close>

theorem rsa_blob_roundtrip:
  assumes "bit_len N < 2 ^ 32" and "0 \<le> E" and "E < 2 ^ 63"
  shows "rsa_blob_read (RSAPublicBlob N E) = Some (N, E) \<and>
    length (RSAPublicBlob N E) = 24 + length (big_bytes (nat E)) + (bit_len N + 7) div 8"
  using rsa_blob.dec_enc [of "(N, E)"] assms
  by (simp add: rsa_key_valid_def RSAPublicBlob_eq length_big_bytes)

theorem rsa_blob_roundtrip_witness: "rsa_blob_read (RSAPublicBlob 3233 65537) = Some (3233, 65537)"
proof -
  have "bit_len 3233 \<le> 12" by (simp add: bit_len_le)
  then show ?thesis using rsa_blob_roundtrip [of 3233 65537] by simp
qed

text \<open>C25: The ECC public blob exists exactly for the points of P-256, P-384 and P-521; it has the size of
  the curve, and the host reads back the curve and both coordinates.\<close>

theorem ecc_blob_roundtrip:
  "((\<exists>blob. ECCPublicBlob bits x y = Inr blob) \<longleftrightarrow> on_curve bits x y) \<and>
   (\<forall>blob. ECCPublicBlob bits x y = Inr blob \<longrightarrow>
      ecc_blob_read blob = Some (bits, x, y) \<and> length blob = 8 + 2 * ((bits + 7) div 8))"
proof (intro conjI allI impI)
  show "(\<exists>blob. ECCPublicBlob bits x y = Inr blob) \<longleftrightarrow> on_curve bits x y"
    using on_curve_bits [of bits x y] by (auto simp: ECCPublicBlob_def ecc_magic_def ec_point_bytes_def Let_def)
next
  fix blob assume blob: "ECCPublicBlob bits x y = Inr blob"
  then show "length blob = 8 + 2 * ((bits + 7) div 8)" by (rule ECCPublicBlob_Inr) simp
  from blob have "on_curve bits x y" by (rule ECCPublicBlob_Inr)
  with ecc_blob_read_ECCPublicBlob [OF blob] on_curve_fits show "ecc_blob_read blob = Some (bits, x, y)" by blast
qed

theorem ecc_blob_roundtrip_witness:
  "\<exists>blob. ECCPublicBlob 256 p256_x p256_y = Inr blob \<and> ecc_blob_read blob = Some (256, p256_x, p256_y) \<and>
     length blob = 72"
  using ecc_blob_roundtrip [of 256 p256_x p256_y] p256_on_curve by auto

end
