(* ===== verification/Provider.thy ===== *)
theory Provider
  imports Handles Status Cng_Ecdsa Cng_Pubkey
begin

text \<open>
  \<open>cmd/ksp/provider_windows.go\<close>: opening a provider and a key, exporting the public key and
  signing. The state of the process is one record: the world of the session engine, the heap of
  sessions, the handle registry and the logger. \<open>run_session\<close> is a method call on the session a
  reference points to.
\<close>

section \<open>The process\<close>

record (overloaded) 'w ksp =
  k_world :: world
  k_sessions :: "session list"
  k_registry :: "'w::len registry"
  k_logger :: logger

definition initial_ksp :: "world \<Rightarrow> ('w::len) ksp" where
  "initial_ksp w = \<lparr>k_world = w, k_sessions = [], k_registry = empty_registry, k_logger = initial_logger\<rparr>"

definition run_session :: "nat \<Rightarrow> (session \<Rightarrow> world \<Rightarrow> 'a \<times> session \<times> world) \<Rightarrow> ('w::len) ksp \<Rightarrow> 'a \<times> 'w ksp" where
  "run_session i run k =
     (let (r, s, w) = run (k_sessions k ! i) (k_world k) in
      (r, k\<lparr>k_sessions := (k_sessions k)[i := s], k_world := w\<rparr>))"

definition register_ksp :: "handle_object \<Rightarrow> ('w::len) ksp \<Rightarrow> 'w word \<times> 'w ksp" where
  "register_ksp v k = (let (h, r) = registerHandle v (k_registry k) in (h, k\<lparr>k_registry := r\<rparr>))"

section \<open>Providers\<close>

definition openProvider :: "go_rt \<Rightarrow> ('w::len) ksp \<Rightarrow> ('w word) result \<times> 'w ksp" where
  "openProvider G k =
     (let env = w_os (k_world k) in
      case LoadConfig G env of
        Inl err \<Rightarrow> (Inl err, k\<lparr>k_logger := setupLogging env (DefaultLogPath env) (k_logger k)\<rparr>)
      | Inr cfg \<Rightarrow>
          (let k = k\<lparr>k_logger := setupLogging env (LogFile cfg) (k_logger k)\<rparr> in
           case NewSession G env cfg of
             Inl err \<Rightarrow> (Inl err, k)
           | Inr session \<Rightarrow>
               (let i = length (k_sessions k);
                    (h, k) = register_ksp (Provider i) (k\<lparr>k_sessions := k_sessions k @ [session]\<rparr>)
                in (Inr h, k))))"

definition provider_of :: "handle_object option \<Rightarrow> nat option" where
  "provider_of v = (case v of Some (Provider i) \<Rightarrow> Some i | _ \<Rightarrow> None)"

definition key_of :: "handle_object option \<Rightarrow> key_state option" where
  "key_of v = (case v of Some (Key ks) \<Rightarrow> Some ks | _ \<Rightarrow> None)"

section \<open>Keys\<close>

text \<open>The type switch on the public key; \<open>curveBits\<close> stays zero for RSA.\<close>

definition new_key_state :: "nat \<Rightarrow> signer \<Rightarrow> public_key \<Rightarrow> key_state result" where
  "new_key_state prov sg pub = (case pub of
       RSAKey N E \<Rightarrow> Inr \<lparr>ks_prov = prov, ks_signer = sg, ks_pub = pub, ks_keyType = KeyRSA, ks_curveBits = 0\<rparr>
     | ECKey bits x y \<Rightarrow>
         Inr \<lparr>ks_prov = prov, ks_signer = sg, ks_pub = pub, ks_keyType = KeyECDSA, ks_curveBits = bits\<rparr>
     | OtherKey tname \<Rightarrow> Inl (Errorf (''unsupported key type '' @ tname)))"

definition openKey :: "go_rt \<Rightarrow> 'w word \<Rightarrow> string \<Rightarrow> ('w::len) ksp \<Rightarrow> ('w word) result \<times> 'w ksp" where
  "openKey G provHandle name k = (case provider_of (lookupHandle provHandle (k_registry k)) of
       None \<Rightarrow> (Inl ErrBadHandle, k)
     | Some prov \<Rightarrow>
         (case run_session prov (FindSigner G name) k of
            (Inl err, k) \<Rightarrow> (Inl err, k)
          | (Inr sg, k) \<Rightarrow>
              (case run_session prov (PublicKey G (sg_ID sg)) k of
                 (Inl err, k) \<Rightarrow> (Inl err, k)
               | (Inr pub, k) \<Rightarrow>
                   (case new_key_state prov sg pub of
                      Inl err \<Rightarrow> (Inl err, k)
                    | Inr ks \<Rightarrow> (let (h, k) = register_ksp (Key ks) k in (Inr h, k))))))"

definition keyByHandle :: "'w word \<Rightarrow> ('w::len) ksp \<Rightarrow> key_state result" where
  "keyByHandle h k = (case key_of (lookupHandle h (k_registry k)) of
       None \<Rightarrow> Inl ErrBadHandle
     | Some ks \<Rightarrow> Inr ks)"

definition exportPublicBlob :: "key_state \<Rightarrow> byte list result" where
  "exportPublicBlob ks = (case ks_pub ks of
       RSAKey N E \<Rightarrow> Inr (RSAPublicBlob N E)
     | ECKey bits x y \<Rightarrow> ECCPublicBlob bits x y
     | OtherKey tname \<Rightarrow> Inl (Errorf (''unsupported key type '' @ tname)))"

text \<open>\<open>None\<close> is a panic of \<open>ECDSADERToRaw\<close>.\<close>

definition signHash ::
  "go_rt \<Rightarrow> key_state \<Rightarrow> padding \<Rightarrow> string \<Rightarrow> byte list \<Rightarrow> ('w::len) ksp \<Rightarrow> (byte list result \<times> 'w ksp) option"
where
  "signHash G ks padding hashName digest k = (case Algorithm G (ks_keyType ks) padding hashName of
       Inl err \<Rightarrow> Some (Inl err, k)
     | Inr algorithm \<Rightarrow>
         (case run_session (ks_prov ks) (Sign G (sg_ID (ks_signer ks)) algorithm digest) k of
            (Inl err, k) \<Rightarrow> Some (Inl err, k)
          | (Inr sig, k) \<Rightarrow>
              if ks_keyType ks = KeyECDSA then map_option (\<lambda>r. (r, k)) (ECDSADERToRaw sig (ks_curveBits ks))
              else Some (Inr sig, k)))"

definition keyLengthBits :: "key_state \<Rightarrow> nat" where
  "keyLengthBits ks = (case ks_pub ks of
       RSAKey N E \<Rightarrow> bit_len N
     | ECKey bits x y \<Rightarrow> bits
     | OtherKey _ \<Rightarrow> 0)"

definition algorithmGroup :: "key_state \<Rightarrow> string" where
  "algorithmGroup ks = (if ks_keyType ks = KeyRSA then ''RSA'' else ''ECDSA'')"

section \<open>Well-formed keys\<close>

text \<open>What \<open>openKey\<close> establishes of every key it registers: the fields agree with the public key.\<close>

definition key_ok :: "key_state \<Rightarrow> bool" where
  "key_ok ks \<longleftrightarrow>
     (case ks_pub ks of
        RSAKey N E \<Rightarrow> ks_keyType ks = KeyRSA \<and> ks_curveBits ks = 0
      | ECKey bits x y \<Rightarrow> ks_keyType ks = KeyECDSA \<and> ks_curveBits ks = bits
      | OtherKey _ \<Rightarrow> False)"

lemma new_key_state_ok:
  assumes "new_key_state prov sg pub = Inr ks"
  shows "key_ok ks \<and> ks_prov ks = prov \<and> ks_signer ks = sg \<and> ks_pub ks = pub"
  using assms by (auto simp: new_key_state_def key_ok_def split: public_key.splits)

lemma key_ok_cases:
  assumes "key_ok ks"
  obtains (rsa) N E where "ks_pub ks = RSAKey N E" "ks_keyType ks = KeyRSA"
  | (ecdsa) x y where "ks_pub ks = ECKey (ks_curveBits ks) x y" "ks_keyType ks = KeyECDSA"
  using assms by (auto simp: key_ok_def split: public_key.splits)

section \<open>The state of the process\<close>

text \<open>
  Handles are well-formed, and every object behind one refers to a session that exists; a key is
  consistent with its public key.
\<close>

definition object_ok :: "nat \<Rightarrow> handle_object \<Rightarrow> bool" where
  "object_ok n v = (case v of Provider i \<Rightarrow> i < n | Key ks \<Rightarrow> ks_prov ks < n \<and> key_ok ks)"

definition ksp_ok :: "('w::len) ksp \<Rightarrow> bool" where
  "ksp_ok k \<longleftrightarrow> registry_invar (k_registry k) \<and>
     (\<forall>h v. lookupHandle h (k_registry k) = Some v \<longrightarrow> object_ok (length (k_sessions k)) v)"

abbreviation ksp_room :: "('w::len) ksp \<Rightarrow> bool" where
  "ksp_room k \<equiv> registry_room (k_registry k)"

lemma ksp_ok_initial: "ksp_ok (initial_ksp w)"
  by (simp add: ksp_ok_def initial_ksp_def empty_registry_def registry_invar_def lookupHandle_def)

lemma object_ok_mono: "object_ok n v \<Longrightarrow> n \<le> m \<Longrightarrow> object_ok m v"
  by (cases v) (auto simp: object_ok_def)

lemma run_session_frame [simp]:
  "k_registry (snd (run_session i run k)) = k_registry k"
  "length (k_sessions (snd (run_session i run k))) = length (k_sessions k)"
  "k_logger (snd (run_session i run k)) = k_logger k"
  by (simp_all add: run_session_def split_beta Let_def)

lemma ksp_ok_cong:
  "k_registry k' = k_registry k \<Longrightarrow> length (k_sessions k') = length (k_sessions k) \<Longrightarrow> ksp_ok k' = ksp_ok k"
  by (simp add: ksp_ok_def)

lemma ksp_ok_run_session [simp]: "ksp_ok (snd (run_session i run k)) = ksp_ok k"
  by (rule ksp_ok_cong) simp_all

lemma ksp_ok_logger [simp]: "ksp_ok (k\<lparr>k_logger := l\<rparr>) = ksp_ok k"
  by (rule ksp_ok_cong) simp_all

lemma ksp_ok_register:
  assumes "ksp_ok k" "ksp_room k" "object_ok (length (k_sessions k)) v" "register_ksp v k = (h, k')"
  shows "ksp_ok k'"
    and "lookupHandle j (k_registry k') = (if j = h then Some v else lookupHandle j (k_registry k))"
    and "h \<noteq> 0 \<and> lookupHandle h (k_registry k) = None"
    and "k_sessions k' = k_sessions k" "k_world k' = k_world k" "k_logger k' = k_logger k"
proof -
  from assms(1) have inv: "registry_invar (k_registry k)" by (simp add: ksp_ok_def)
  from assms(4) obtain r where reg: "registerHandle v (k_registry k) = (h, r)" and k': "k' = k\<lparr>k_registry := r\<rparr>"
    by (auto simp: register_ksp_def split: prod.splits)
  note lookup = registry.lookup_register [OF inv assms(2) reg]
  show "ksp_ok k'"
    using assms(1,3) registry.invar_register [OF inv assms(2) reg]
    by (auto simp: ksp_ok_def k' lookup split: if_splits)
  show "lookupHandle j (k_registry k') = (if j = h then Some v else lookupHandle j (k_registry k))"
    by (simp add: k' lookup)
  show "h \<noteq> 0 \<and> lookupHandle h (k_registry k) = None"
    using registry.register_nonzero [OF inv assms(2) reg] registry.register_fresh [OF inv assms(2) reg] by simp
qed (use assms(4) in \<open>auto simp: register_ksp_def split: prod.splits\<close>)

end
