(* ===== verification/Utf16.thy ===== *)
theory Utf16
  imports Utf8
begin

text \<open>
  UTF-16 as \<open>x/sys/windows\<close> converts it (\<open>syscall/wtf8_windows.go\<close>): \<open>UTF16PtrToString\<close> reads to
  the terminator and keeps unpaired surrogates as three bytes each, and \<open>UTF16FromString\<close> undoes it.
  No wide string is lost on the way: reading is injective.
\<close>

section \<open>Code points of a string\<close>

text \<open>The code point of a well-formed sequence, by its length.\<close>

fun rune_value :: "string \<Rightarrow> nat" where
  "rune_value [a] = ord a"
| "rune_value [a, b] = (ord a mod 32) * 64 + ord b mod 64"
| "rune_value [a, b, c] = (ord a mod 16) * 4096 + (ord b mod 64) * 64 + ord c mod 64"
| "rune_value [a, b, c, d] = (ord a mod 8) * 262144 + (ord b mod 64) * 4096 + (ord c mod 64) * 64 + ord d mod 64"
| "rune_value _ = 0"

definition surrogate :: "nat \<Rightarrow> bool" where
  "surrogate n \<longleftrightarrow> 0xD800 \<le> n \<and> n < 0xE000"

section \<open>Writing\<close>

definition utf16_units :: "nat \<Rightarrow> 16 word list" where
  "utf16_units n =
     (if n < 0x10000 then [word_of_nat n]
      else [word_of_nat (0xD800 + (n - 0x10000) div 1024), word_of_nat (0xDC00 + (n - 0x10000) mod 1024)])"

text \<open>The three bytes that stand for an unpaired surrogate.\<close>

fun surrogate_bytes :: "string \<Rightarrow> bool" where
  "surrogate_bytes (a # b # c # s) \<longleftrightarrow> ord a = 0xED \<and> 0xA0 \<le> ord b \<and> ord b \<le> 0xBF \<and> continuation c"
| "surrogate_bytes _ = False"

function encodeWTF16 :: "string \<Rightarrow> 16 word list" where
  "encodeWTF16 s =
     (if s = [] then []
      else case first_rune s of
          Some k \<Rightarrow> utf16_units (rune_value (take k s)) @ encodeWTF16 (drop k s)
        | None \<Rightarrow>
            if surrogate_bytes s then word_of_nat (rune_value (take 3 s)) # encodeWTF16 (drop 3 s)
            else 0xFFFD # encodeWTF16 (drop 1 s))"
  by pat_completeness auto
termination
  by (relation "measure length") (auto dest: first_rune_bounds)

declare encodeWTF16.simps [simp del]

definition utf16_from_string :: "string \<Rightarrow> 16 word list option" where
  "utf16_from_string s = (if CHR 0x00 \<in> set s then None else Some (encodeWTF16 s @ [0]))"

section \<open>Reading\<close>

definition high_surrogate :: "16 word \<Rightarrow> bool" where
  "high_surrogate u \<longleftrightarrow> 0xD800 \<le> unat u \<and> unat u < 0xDC00"

definition low_surrogate :: "16 word \<Rightarrow> bool" where
  "low_surrogate u \<longleftrightarrow> 0xDC00 \<le> unat u \<and> unat u < 0xE000"

fun decodeWTF16 :: "16 word list \<Rightarrow> string" where
  "decodeWTF16 [] = []"
| "decodeWTF16 [u] = encode_rune (unat u)"
| "decodeWTF16 (u # v # us) =
     (if high_surrogate u \<and> low_surrogate v
      then encode_rune (0x10000 + (unat u - 0xD800) * 1024 + (unat v - 0xDC00)) @ decodeWTF16 us
      else encode_rune (unat u) @ decodeWTF16 (v # us))"

definition utf16_to_string :: "16 word list \<Rightarrow> string" where
  "utf16_to_string us = decodeWTF16 (takeWhile (\<lambda>u. u \<noteq> 0) us)"

section \<open>Reading loses nothing\<close>

lemma encodeWTF16_Nil [simp]: "encodeWTF16 [] = []"
  by (simp add: encodeWTF16.simps)

text \<open>The bytes of a code point, by its range, as parts that \<open>rune_value\<close> puts together.\<close>

lemma ord_char_of: "n < 256 \<Longrightarrow> ord (char_of n :: char) = n"
  by simp

lemma join_parts: "(n::nat) div 64 * 64 + n mod 64 = n" "n div 4096 * 4096 + n div 64 mod 64 * 64 + n mod 64 = n"
  "n div 262144 * 262144 + n div 4096 mod 64 * 4096 + n div 64 mod 64 * 64 + n mod 64 = n"
proof -
  have a: "n div 64 * 64 + n mod 64 = n" for n :: nat by simp
  have b: "n div 4096 = n div 64 div 64" "n div 262144 = n div 4096 div 64" for n :: nat by (simp_all add: div_mult2_eq [symmetric])
  show "n div 64 * 64 + n mod 64 = n" by simp
  show c: "n div 4096 * 4096 + n div 64 mod 64 * 64 + n mod 64 = n" for n :: nat
    using a [of n] a [of "n div 64"] unfolding b by linarith
  show "n div 262144 * 262144 + n div 4096 mod 64 * 4096 + n div 64 mod 64 * 64 + n mod 64 = n"
    using c [of n] a [of "n div 4096"] unfolding b(2) by linarith
qed

lemma continuation_part [simp]: "(128 + x mod 64) mod 64 = x mod (64::nat)"
proof -
  have "128 + x mod 64 = x mod 64 + 2 * 64" by simp
  then show ?thesis by (simp only: mod_mult_self1 mod_mod_trivial)
qed

lemma continuation_byte [simp]: "(128 + x mod 64) mod 256 = 128 + x mod (64::nat)"
proof -
  have "x mod 64 < 64" by simp
  then have "128 + x mod 64 < 256" by linarith
  then show ?thesis by (rule mod_less)
qed

lemma lead_part: "q < 16 \<Longrightarrow> (224 + q) mod 16 = q" "q < 8 \<Longrightarrow> (240 + q) mod 8 = (q :: nat)"
proof -
  have split: "224 + q = q + 14 * 16" "240 + q = q + 30 * 8" by simp_all
  show "q < 16 \<Longrightarrow> (224 + q) mod 16 = q" unfolding split by (simp only: mod_mult_self1 mod_less)
  show "q < 8 \<Longrightarrow> (240 + q) mod 8 = q" unfolding split by (simp only: mod_mult_self1 mod_less)
qed

lemma first_rune_encode:
  assumes "n < 0x110000" and "\<not> surrogate n"
  shows "first_rune (encode_rune n @ t) = Some (length (encode_rune n)) \<and> rune_value (encode_rune n) = n"
proof -
  consider "n < 0x80" | "0x80 \<le> n" "n < 0x800" | "0x800 \<le> n" "n < 0x10000" | "0x10000 \<le> n" by linarith
  then show ?thesis
  proof cases
    case 1
    then show ?thesis by (simp add: encode_rune_def bytes_string_def first_rune.simps(2))
  next
    case 2
    then obtain q r where n: "n = q * 64 + r" and r: "r < 64" by (metis div_mult_mod_eq mod_less_divisor zero_less_numeral)
    with 2 have q: "q < 32" "2 \<le> q" "n div 64 = q" "n mod 64 = r" by simp_all
    have "192 + q = q + 6 * 32" "128 + r = r + 2 * 64" by simp_all
    then have "(192 + q) mod 32 = q" "(128 + r) mod 64 = r" using q(1) r by (simp_all only: mod_mult_self1 mod_less)
    then show ?thesis using 2 q r unfolding encode_rune_def q(3,4)
      by (simp add: bytes_string_def first_rune.simps(2) continuation_def Let_def) (simp add: n)
  next
    case 3
    then have q: "n div 4096 < 16" by (simp add: less_mult_imp_div_less)
    moreover note lead_part(1) [OF q]
    moreover have "n div 4096 = 0 \<Longrightarrow> 32 \<le> n div 64 mod 64" "n div 4096 = 13 \<Longrightarrow> n div 64 mod 64 < 32"
      using 3 assms(2) join_parts(2) [of n] mod_less_divisor [of 64 n] mod_less_divisor [of 64 "n div 64"]
      unfolding surrogate_def by (simp, linarith)
    ultimately show ?thesis using 3 join_parts(2) [of n]
      by (simp add: encode_rune_def bytes_string_def first_rune.simps(2) continuation_def second_byte_def Let_def)
  next
    case 4
    with assms(1) have q: "n div 262144 < 5" by (simp add: less_mult_imp_div_less)
    moreover from q have "(240 + n div 262144) mod 8 = n div 262144" by (intro lead_part(2)) simp
    moreover have "n div 262144 = 0 \<Longrightarrow> 16 \<le> n div 4096 mod 64" "n div 262144 = 4 \<Longrightarrow> n div 4096 mod 64 < 16"
      using 4 assms(1) join_parts(3) [of n] by simp_all
    ultimately show ?thesis using 4 join_parts(3) [of n]
      by (simp add: encode_rune_def bytes_string_def first_rune.simps(2) continuation_def second_byte_def Let_def)
  qed
qed

lemma encode_surrogate:
  assumes "surrogate n"
  shows "first_rune (encode_rune n @ t) = None \<and> surrogate_bytes (encode_rune n @ t) \<and>
    length (encode_rune n) = 3 \<and> rune_value (encode_rune n) = n"
proof -
  have n: "n div 4096 = 13" using assms by (intro div_nat_eqI) (simp_all add: surrogate_def)
  moreover have "32 \<le> n div 64 mod 64" using assms join_parts(2) [of n] mod_less_divisor [of 64 n]
    unfolding n surrogate_def by linarith
  ultimately show ?thesis using assms join_parts(2) [of n]
    by (simp add: surrogate_def encode_rune_def bytes_string_def first_rune.simps(2) continuation_def second_byte_def Let_def)
qed

lemma encodeWTF16_rune:
  assumes "n < 0x110000"
  shows "encodeWTF16 (encode_rune n @ t) = utf16_units n @ encodeWTF16 t"
proof (cases "surrogate n")
  case True
  with encode_surrogate [OF this, of t] show ?thesis
    by (subst encodeWTF16.simps) (auto simp: utf16_units_def surrogate_def)
next
  case False
  with first_rune_encode [OF assms False, of t] show ?thesis
    by (subst encodeWTF16.simps) auto
qed

lemma decodeWTF16_inverse: "encodeWTF16 (decodeWTF16 us) = us"
proof (induction us rule: decodeWTF16.induct)
  case (2 u)
  have "unat u < 0x10000" using unsigned_less [of u] by simp
  then show ?case using encodeWTF16_rune [of "unat u" "[]"] by (simp add: utf16_units_def)
next
  case (3 u v us)
  show ?case
  proof (cases "high_surrogate u \<and> low_surrogate v")
    case True
    let ?n = "0x10000 + (unat u - 0xD800) * 1024 + (unat v - 0xDC00)"
    have high: "0xD800 \<le> unat u" "unat u - 0xD800 < 1024" and low: "0xDC00 \<le> unat v" "unat v - 0xDC00 < 1024"
      using True by (auto simp: high_surrogate_def low_surrogate_def)
    then have n: "?n < 0x110000" "\<not> ?n < 0x10000" by linarith+
    have "?n - 0x10000 = (unat v - 0xDC00) + (unat u - 0xD800) * 1024" by simp
    with low have parts: "(?n - 0x10000) div 1024 = unat u - 0xD800" "(?n - 0x10000) mod 1024 = unat v - 0xDC00"
      by (simp_all only: mod_mult_self1 mod_less div_mult_self1 div_less)
    have "utf16_units ?n = [word_of_nat (0xD800 + (unat u - 0xD800)), word_of_nat (0xDC00 + (unat v - 0xDC00))]"
      unfolding utf16_units_def parts using n(2) by (simp only: if_False)
    also have "\<dots> = [u, v]" using high(1) low(1) by simp
    finally show ?thesis using encodeWTF16_rune [OF n(1), of "decodeWTF16 us"] "3.IH"(1) [OF True]
      by (simp only: decodeWTF16.simps True if_True append.simps simp_thms)
  next
    case False
    have u: "unat u < 0x10000" using unsigned_less [of u] by simp
    then have "unat u < 0x110000" by simp
    moreover have "utf16_units (unat u) = [u]" using u by (simp add: utf16_units_def)
    ultimately have "encodeWTF16 (encode_rune (unat u) @ decodeWTF16 (v # us)) = u # encodeWTF16 (decodeWTF16 (v # us))"
      by (simp only: encodeWTF16_rune append.simps)
    with False "3.IH"(2) [OF False] show ?thesis by (simp only: decodeWTF16.simps if_False)
  qed
qed simp

text \<open>UTF-8 is a code for wide strings: nothing of a name is lost on its way into Go.\<close>

interpretation wide_codec: codec decodeWTF16 "\<lambda>s. Some (encodeWTF16 s)" "\<lambda>_. True"
  by unfold_locales (simp add: decodeWTF16_inverse)

lemma decodeWTF16_inject: "decodeWTF16 us = decodeWTF16 vs \<Longrightarrow> us = vs"
  by (rule wide_codec.enc_inject) simp_all

lemma utf16_to_string_inject:
  assumes "0 \<notin> set us" and "0 \<notin> set vs" and "utf16_to_string us = utf16_to_string vs"
  shows "us = vs"
proof -
  have "takeWhile (\<lambda>u. u \<noteq> 0) xs = xs" if "0 \<notin> set xs" for xs :: "16 word list"
    using that by (intro takeWhile_eq_all_conv [THEN iffD2]) auto
  with assms show ?thesis unfolding utf16_to_string_def by (metis decodeWTF16_inject)
qed

section \<open>ASCII\<close>

lemma decodeWTF16_ascii: "list_all (\<lambda>u. unat u < 128) us \<Longrightarrow> decodeWTF16 us = map (\<lambda>u. char_of (unat u)) us"
  by (induction us rule: decodeWTF16.induct)
    (auto simp: encode_rune_def bytes_string_def high_surrogate_def)

lemma encodeWTF16_ascii: "is_ascii s \<Longrightarrow> encodeWTF16 s = map (\<lambda>c. word_of_nat (ord c)) s"
proof (induction s)
  case (Cons c s)
  then show ?case
    by (subst encodeWTF16.simps) (simp add: is_ascii_def first_rune_ascii utf16_units_def)
qed simp

end
