(* ===== verification/Key_Properties.thy ===== *)
theory Key_Properties
  imports Provider Utf16
begin

text \<open>
  \<open>cmd/ksp/properties_windows.go\<close>: the key properties CNG queries, as bytes.
\<close>

definition propAlgorithmGroup :: string where
  "propAlgorithmGroup = ''Algorithm Group''"

definition propAlgorithmName :: string where
  "propAlgorithmName = ''Algorithm Name''"

definition propLength :: string where
  "propLength = ''Length''"

definition propExportPolicy :: string where
  "propExportPolicy = ''Export Policy''"

definition propKeyUsage :: string where
  "propKeyUsage = ''Key Usage''"

lemmas prop_defs = propAlgorithmGroup_def propAlgorithmName_def propLength_def propExportPolicy_def propKeyUsage_def

definition ncryptAllowSigningFlag :: "32 word" where
  "ncryptAllowSigningFlag = 0x00000001"

definition algorithmName :: "key_state \<Rightarrow> string" where
  "algorithmName ks =
     (if algorithmGroup ks = ''RSA'' then ''RSA''
      else if ks_curveBits ks = 256 then ''ECDSA_P256''
      else if ks_curveBits ks = 384 then ''ECDSA_P384''
      else if ks_curveBits ks = 521 then ''ECDSA_P521''
      else ''ECDSA'')"

definition utf16z :: "string \<Rightarrow> byte list" where
  "utf16z s = (case utf16_from_string s of
       None \<Rightarrow> []
     | Some u \<Rightarrow> concat (map put_u16 u))"

definition dwordLE :: "32 word \<Rightarrow> byte list" where
  "dwordLE v = put_u32 v"

definition keyProperty :: "key_state \<Rightarrow> string \<Rightarrow> byte list option" where
  "keyProperty ks name =
     (if name = propAlgorithmGroup then Some (utf16z (algorithmGroup ks))
      else if name = propAlgorithmName then Some (utf16z (algorithmName ks))
      else if name = propLength then Some (dwordLE (word_of_nat (keyLengthBits ks)))
      else if name = propExportPolicy then Some (dwordLE 0)
      else if name = propKeyUsage then Some (dwordLE ncryptAllowSigningFlag)
      else None)"

section \<open>Lemmas\<close>

lemma property_names_distinct:
  "distinct [propAlgorithmGroup, propAlgorithmName, propLength, propExportPolicy, propKeyUsage]"
  by (simp add: prop_defs)

definition property_names :: "string list" where
  "property_names = [propAlgorithmGroup, propAlgorithmName, propLength, propExportPolicy, propKeyUsage]"

lemma keyProperty_None: "keyProperty ks name = None \<longleftrightarrow> name \<notin> set property_names"
  by (simp add: keyProperty_def property_names_def)

lemma le_nat_dwordLE: "le_nat (dwordLE v) = unat v"
  by (simp add: dwordLE_def le_nat_put_u32)

lemma length_put_u16s: "length (concat (map put_u16 u)) = 2 * length u"
  by (induction u) simp_all

lemma algorithmGroup_ascii: "is_ascii (algorithmGroup ks) \<and> CHR 0x00 \<notin> set (algorithmGroup ks)"
  by (simp add: algorithmGroup_def is_ascii_def)

lemma algorithmName_ascii: "is_ascii (algorithmName ks) \<and> CHR 0x00 \<notin> set (algorithmName ks)"
  by (simp add: algorithmName_def is_ascii_def)

lemma put_u16_small: "n < 128 \<Longrightarrow> put_u16 (word_of_nat n) = [word_of_nat n, 0]"
proof -
  assume n: "n < 128"
  have two: "le_bytes 2 m = [word_of_nat m, word_of_nat (m div 256)]" for m
    by (subst numeral_2_eq_2) simp
  from n have "unat (word_of_nat n :: 16 word) = n" by (simp add: unat_of_nat)
  with n show ?thesis by (simp add: put_u16_def two)
qed

text \<open>A name in ASCII, as the host reads it.\<close>

lemma utf16z_ascii:
  assumes "is_ascii s" and "CHR 0x00 \<notin> set s"
  shows "utf16z s = concat (map (\<lambda>c. [word_of_nat (ord c), 0]) s) @ [0, 0]"
proof -
  have "put_u16 (word_of_nat (ord c)) = [word_of_nat (ord c), 0]" if "c \<in> set s" for c
    using that assms(1) by (intro put_u16_small) (simp add: is_ascii_def list_all_iff)
  then have units: "map (put_u16 \<circ> (\<lambda>c. word_of_nat (ord c))) s = map (\<lambda>c. [word_of_nat (ord c), 0]) s"
    by simp
  have zero: "put_u16 0 = [0, 0]" using put_u16_small [of 0] by simp
  have "utf16_from_string s = Some (map (\<lambda>c. word_of_nat (ord c)) s @ [0])"
    using assms by (simp add: utf16_from_string_def encodeWTF16_ascii)
  then show ?thesis by (simp add: utf16z_def units zero)
qed

section \<open>Properties\<close>

text \<open>C37: The properties of a well-formed key: the length property is the bit length of the public
  key, the key is reported as usable for signing only and not exportable, the algorithm name tells
  RSA from the three curves, and every other property name is unsupported.\<close>

theorem key_property_values:
  assumes "key_ok ks" and "keyLengthBits ks < 2 ^ 32"
  shows "(\<exists>bs. keyProperty ks ''Length'' = Some bs \<and> length bs = 4 \<and> le_nat bs = keyLengthBits ks) \<and>
    keyProperty ks ''Key Usage'' = Some [1, 0, 0, 0] \<and> keyProperty ks ''Export Policy'' = Some [0, 0, 0, 0] \<and>
    (\<forall>N E. ks_pub ks = RSAKey N E \<longrightarrow> keyProperty ks ''Algorithm Name'' = Some (utf16z ''RSA'')) \<and>
    (\<forall>bits x y. ks_pub ks = ECKey bits x y \<longrightarrow> bits \<in> {256, 384, 521} \<longrightarrow>
      keyProperty ks ''Algorithm Name'' = Some (utf16z (''ECDSA_P'' @ nat_string bits))) \<and>
    (name \<notin> {''Algorithm Group'', ''Algorithm Name'', ''Length'', ''Export Policy'', ''Key Usage''} \<longrightarrow>
      keyProperty ks name = None)"
proof -
  have digits: "nat_string 256 = ''256''" "nat_string 384 = ''384''" "nat_string 521 = ''521''"
    by code_simp+
  have dword: "dwordLE 1 = [1, 0, 0, 0]" "dwordLE 0 = [0, 0, 0, 0]"
    by code_simp+
  have "\<forall>N E. ks_pub ks = RSAKey N E \<longrightarrow> algorithmName ks = ''RSA''"
    "\<forall>bits x y. ks_pub ks = ECKey bits x y \<longrightarrow> bits \<in> {256, 384, 521} \<longrightarrow>
      algorithmName ks = ''ECDSA_P'' @ nat_string bits"
    using assms(1) by (auto simp: algorithmName_def algorithmGroup_def key_ok_def digits)
  moreover have "le_nat (dwordLE (word_of_nat (keyLengthBits ks))) = keyLengthBits ks"
    using assms(2) by (simp add: le_nat_dwordLE unat_of_nat)
  ultimately show ?thesis
    by (simp add: keyProperty_def prop_defs ncryptAllowSigningFlag_def dword)
      (simp add: dwordLE_def)
qed

theorem key_property_values_witness:
  "keyProperty \<lparr>ks_prov = 0, ks_signer = \<lparr>sg_ID = ''s1'', sg_Name = ''app'', sg_Status = '''',
      sg_CertificateID = '''', sg_KeyAlgorithm = '''', sg_ApprovalPolicyID = None\<rparr>,
      ks_pub = ECKey 256 1 2, ks_keyType = KeyECDSA, ks_curveBits = 256\<rparr> ''Key Usage'' = Some [1, 0, 0, 0]"
  using key_property_values [of "\<lparr>ks_prov = 0, ks_signer = \<lparr>sg_ID = ''s1'', sg_Name = ''app'', sg_Status = '''',
      sg_CertificateID = '''', sg_KeyAlgorithm = '''', sg_ApprovalPolicyID = None\<rparr>,
      ks_pub = ECKey 256 1 2, ks_keyType = KeyECDSA, ks_curveBits = 256\<rparr>"]
  by (simp add: key_ok_def keyLengthBits_def)

end
