(* ===== verification/Bridge.thy ===== *)
theory Bridge
  imports Key_Properties
begin

text \<open>
  \<open>cmd/ksp/bridge_windows.go\<close> and \<open>cmd/ksp/bridge_windows.c\<close>: the functions Go exports to C and
  the CNG entries that call them. A wide string is the list of its code units before the
  terminator, \<open>None\<close> for a null pointer; memory the host passes is the list of its bytes; an
  out-parameter is its content before the call and the result holds its content after it. A
  buffer on the C heap is the pair \<open>cBytes\<close> returns (the bytes, \<open>None\<close> for a null pointer, and the
  length as a C \<open>int\<close>). \<open>None\<close> as the result of a sign call is a panic of the Go code: of
  \<open>C.GoBytes\<close>, or of a slice in \<open>ECDSADERToRaw\<close>.
\<close>

section \<open>Marshalling\<close>

type_synonym wide_string = "16 word list option"

type_synonym c_buffer = "byte list option \<times> 32 word"

definition bcryptPadPKCS1 :: "32 word" where
  "bcryptPadPKCS1 = 0x00000002"

definition bcryptPadPSS :: "32 word" where
  "bcryptPadPSS = 0x00000008"

definition utf16PtrToString :: "wide_string \<Rightarrow> string" where
  "utf16PtrToString p = (case p of None \<Rightarrow> '''' | Some u \<Rightarrow> utf16_to_string u)"

definition cBytes :: "byte list \<Rightarrow> c_buffer" where
  "cBytes b = (if length b = 0 then (None, 0) else (Some b, word_of_nat (length b)))"

text \<open>\<open>pPaddingInfo\<close>: null, or a structure whose first field is a wide string.\<close>

definition readPaddingHashID :: "wide_string option \<Rightarrow> string" where
  "readPaddingHashID p = (case p of None \<Rightarrow> '''' | Some algIDPtr \<Rightarrow> utf16PtrToString algIDPtr)"

definition log_ksp :: "string \<Rightarrow> go_error \<Rightarrow> ('w::len) ksp \<Rightarrow> 'w ksp" where
  "log_ksp op err k = k\<lparr>k_logger := logError op err (k_logger k)\<rparr>"

section \<open>The exported Go functions\<close>

definition GoOpenProvider :: "go_rt \<Rightarrow> ('w::len) ksp \<Rightarrow> ('w word \<times> status) \<times> 'w ksp" where
  "GoOpenProvider G k = (case openProvider G k of
       (Inl err, k) \<Rightarrow> ((0, statusFromError (Some err)), log_ksp ''OpenProvider'' err k)
     | (Inr h, k) \<Rightarrow> ((h, statusSuccess), k))"

definition GoOpenKey :: "go_rt \<Rightarrow> 'w word \<Rightarrow> wide_string \<Rightarrow> ('w::len) ksp \<Rightarrow> ('w word \<times> status) \<times> 'w ksp" where
  "GoOpenKey G prov name k =
     (let keyName = utf16PtrToString name in
      case openKey G prov keyName k of
        (Inl err, k) \<Rightarrow> ((0, statusFromError (Some err)), log_ksp (''OpenKey('' @ keyName @ '')'') err k)
      | (Inr h, k) \<Rightarrow> ((h, statusSuccess), k))"

definition GoFreeHandle :: "'w word \<Rightarrow> ('w::len) ksp \<Rightarrow> 'w ksp" where
  "GoFreeHandle h k = k\<lparr>k_registry := freeHandle h (k_registry k)\<rparr>"

definition GoSignatureMaxSize :: "'w word \<Rightarrow> ('w::len) ksp \<Rightarrow> 32 word \<times> status" where
  "GoSignatureMaxSize key k = (case keyByHandle key k of
       Inl err \<Rightarrow> (0, statusInvalidParameter)
     | Inr ks \<Rightarrow>
         (let bits = keyLengthBits ks;
              size1 = (bits + 7) div 8;
              size2 = (if ks_keyType ks = KeyECDSA then size1 * 2 else size1)
          in (word_of_nat size2, statusSuccess)))"

text \<open>The \<open>switch\<close> on the padding flags.\<close>

definition sign_padding :: "32 word \<Rightarrow> wide_string option \<Rightarrow> byte list \<Rightarrow> (padding \<times> string) result" where
  "sign_padding dwFlags pPaddingInfo digest =
     (if and dwFlags bcryptPadPKCS1 \<noteq> 0 then Inr (PaddingPKCS1, readPaddingHashID pPaddingInfo)
      else if and dwFlags bcryptPadPSS \<noteq> 0 then Inr (PaddingPSS, readPaddingHashID pPaddingInfo)
      else (case HashFromDigestLen (length digest) of
          Inl herr \<Rightarrow> Inl herr
        | Inr h \<Rightarrow> Inr (PaddingNone, h)))"

definition GoSignHash ::
  "go_rt \<Rightarrow> 'w word \<Rightarrow> 32 word \<Rightarrow> wide_string option \<Rightarrow> byte list \<Rightarrow> 32 word \<Rightarrow> ('w::len) ksp \<Rightarrow>
    ((c_buffer \<times> status) \<times> 'w ksp) option"
where
  "GoSignHash G key dwFlags pPaddingInfo pbInput cbInput k = (case keyByHandle key k of
       Inl err \<Rightarrow> Some (((None, 0), statusInvalidParameter), k)
     | Inr ks \<Rightarrow>
         if sint cbInput < 0 then None
         else
           let digest = take (unat cbInput) pbInput in
           (case sign_padding dwFlags pPaddingInfo digest of
              Inl herr \<Rightarrow> Some (((None, 0), statusInvalidParameter), log_ksp ''SignHash'' herr k)
            | Inr (padding, hashName) \<Rightarrow>
                (case signHash G ks padding hashName digest k of
                   None \<Rightarrow> None
                 | Some (Inl err, k) \<Rightarrow> Some (((None, 0), statusFromError (Some err)), log_ksp ''SignHash'' err k)
                 | Some (Inr sig, k) \<Rightarrow> Some ((cBytes sig, statusSuccess), k))))"

definition GoExportKey :: "'w word \<Rightarrow> ('w::len) ksp \<Rightarrow> (c_buffer \<times> status) \<times> 'w ksp" where
  "GoExportKey key k = (case keyByHandle key k of
       Inl err \<Rightarrow> (((None, 0), statusInvalidParameter), k)
     | Inr ks \<Rightarrow>
         (case exportPublicBlob ks of
            Inl err \<Rightarrow> (((None, 0), statusFromError (Some err)), log_ksp ''ExportKey'' err k)
          | Inr blob \<Rightarrow> ((cBytes blob, statusSuccess), k)))"

definition GoGetKeyProperty :: "'w word \<Rightarrow> wide_string \<Rightarrow> ('w::len) ksp \<Rightarrow> c_buffer \<times> status" where
  "GoGetKeyProperty key prop k = (case keyByHandle key k of
       Inl err \<Rightarrow> ((None, 0), statusInvalidParameter)
     | Inr ks \<Rightarrow>
         (case keyProperty ks (utf16PtrToString prop) of
            None \<Rightarrow> ((None, 0), statusNotSupported)
          | Some value \<Rightarrow> (cBytes value, statusSuccess)))"

section \<open>The CNG entries\<close>

text \<open>
  What an entry that fills a buffer leaves behind. \<open>co_overrun\<close>: a \<open>memcpy\<close> read or wrote past
  the memory it was given; what happens then is undefined, and the other fields mean nothing.
\<close>

record call_out =
  co_status :: status
  co_output :: "byte list option"     \<comment> \<open>\<open>pbOutput\<close>, \<open>None\<close> for a null pointer\<close>
  co_result :: "32 word option"       \<comment> \<open>\<open>*pcbResult\<close>, \<open>None\<close> for a null pointer\<close>
  co_overrun :: bool

definition NTE_BUFFER_TOO_SMALL :: status where
  "NTE_BUFFER_TOO_SMALL = 0x80090028"

definition c_memory :: "c_buffer \<Rightarrow> byte list" where
  "c_memory b = (case fst b of None \<Rightarrow> [] | Some bs \<Rightarrow> bs)"

text \<open>\<open>(size_t)len\<close> on x64: the C \<open>int\<close> is extended with its sign.\<close>

definition size_t :: "32 word \<Rightarrow> nat" where
  "size_t len = unat (scast len :: 64 word)"

definition copyOut :: "c_buffer \<Rightarrow> byte list option \<Rightarrow> 32 word \<Rightarrow> 32 word option \<Rightarrow> call_out" where
  "copyOut b pbOutput cbOutput pcbResult =
     (let len = snd b;
          result = (if pcbResult \<noteq> None then Some len else None)
      in case pbOutput of
           None \<Rightarrow> \<lparr>co_status = statusSuccess, co_output = None, co_result = result, co_overrun = False\<rparr>
         | Some out \<Rightarrow>
             if cbOutput < len
             then \<lparr>co_status = NTE_BUFFER_TOO_SMALL, co_output = Some out, co_result = result, co_overrun = False\<rparr>
             else if size_t len \<le> length (c_memory b) \<and> size_t len \<le> length out
             then \<lparr>co_status = statusSuccess, co_output = Some (put_at 0 (take (size_t len) (c_memory b)) out),
                   co_result = result, co_overrun = False\<rparr>
             else \<lparr>co_status = statusSuccess, co_output = Some out, co_result = result, co_overrun = True\<rparr>)"

text \<open>An entry that failed before it wrote anything.\<close>

definition call_failed :: "status \<Rightarrow> byte list option \<Rightarrow> 32 word option \<Rightarrow> call_out" where
  "call_failed st pbOutput pcbResult =
     \<lparr>co_status = st, co_output = pbOutput, co_result = pcbResult, co_overrun = False\<rparr>"

definition ksp_OpenProvider :: "go_rt \<Rightarrow> 'w word \<Rightarrow> ('w::len) ksp \<Rightarrow> (status \<times> 'w word) \<times> 'w ksp" where
  "ksp_OpenProvider G phProvider k =
     (let ((r0, r1), k) = GoOpenProvider G k in
      (if r1 \<noteq> 0 then (r1, phProvider) else (statusSuccess, r0), k))"

definition ksp_OpenKey ::
  "go_rt \<Rightarrow> 'w word \<Rightarrow> 'w word \<Rightarrow> wide_string \<Rightarrow> ('w::len) ksp \<Rightarrow> (status \<times> 'w word) \<times> 'w ksp"
where
  "ksp_OpenKey G hProvider phKey pszKeyName k =
     (let ((r0, r1), k) = GoOpenKey G hProvider pszKeyName k in
      (if r1 \<noteq> 0 then (r1, phKey) else (statusSuccess, r0), k))"

definition ksp_GetKeyProperty ::
  "'w word \<Rightarrow> wide_string \<Rightarrow> byte list option \<Rightarrow> 32 word \<Rightarrow> 32 word option \<Rightarrow> ('w::len) ksp \<Rightarrow> call_out"
where
  "ksp_GetKeyProperty hKey pszProperty pbOutput cbOutput pcbResult k =
     (let (b, r2) = GoGetKeyProperty hKey pszProperty k in
      if r2 \<noteq> 0 then call_failed r2 pbOutput pcbResult else copyOut b pbOutput cbOutput pcbResult)"

text \<open>The blob names of \<open>bcrypt.h\<close>, as code units.\<close>

definition wide :: "string \<Rightarrow> 16 word list" where
  "wide s = map (\<lambda>c. word_of_nat (ord c)) s"

lemma utf16PtrToString_wide:
  assumes "is_ascii s" and "CHR 0x00 \<notin> set s"
  shows "utf16PtrToString (Some (wide s)) = s"
proof -
  have unit: "unat (word_of_nat (ord c) :: 16 word) = ord c" for c
    by (cases c) (simp add: unat_of_nat)
  have zero: "word_of_nat (ord c) \<noteq> (0 :: 16 word)" if "c \<in> set s" for c
  proof
    assume "word_of_nat (ord c) = (0 :: 16 word)"
    with unit [of c] have "ord c = 0" by simp
    then have "c = CHR 0x00" by (cases c) auto
    with that assms(2) show False by simp
  qed
  have whole: "takeWhile (\<lambda>u. u \<noteq> 0) (wide s) = wide s"
    by (intro takeWhile_eq_all_conv [THEN iffD2]) (auto simp: wide_def zero)
  have "list_all (\<lambda>u. unat u < 128) (wide s)"
    using assms(1) by (simp add: wide_def is_ascii_def list_all_iff unit)
  then have "decodeWTF16 (wide s) = map (\<lambda>u. char_of (unat u)) (wide s)" by (rule decodeWTF16_ascii)
  then show ?thesis
    by (simp only: utf16PtrToString_def option.case utf16_to_string_def whole) (simp add: wide_def unit comp_def)
qed

definition public_blob_types :: "16 word list list" where
  "public_blob_types = [wide ''RSAPUBLICBLOB'', wide ''ECCPUBLICBLOB'', wide ''PUBLICBLOB'']"

definition ksp_ExportKey ::
  "'w word \<Rightarrow> 16 word list \<Rightarrow> byte list option \<Rightarrow> 32 word \<Rightarrow> 32 word option \<Rightarrow> ('w::len) ksp \<Rightarrow>
    call_out \<times> 'w ksp"
where
  "ksp_ExportKey hKey pszBlobType pbOutput cbOutput pcbResult k =
     (if pszBlobType \<notin> set public_blob_types then (call_failed statusNotSupported pbOutput pcbResult, k)
      else
        let ((b, r2), k) = GoExportKey hKey k in
        (if r2 \<noteq> 0 then call_failed r2 pbOutput pcbResult else copyOut b pbOutput cbOutput pcbResult, k))"

definition ksp_SignHash ::
  "go_rt \<Rightarrow> 'w word \<Rightarrow> wide_string option \<Rightarrow> byte list \<Rightarrow> 32 word \<Rightarrow> byte list option \<Rightarrow> 32 word \<Rightarrow>
    32 word option \<Rightarrow> 32 word \<Rightarrow> ('w::len) ksp \<Rightarrow> (call_out \<times> 'w ksp) option"
where
  "ksp_SignHash G hKey pPaddingInfo pbHashValue cbHashValue pbSignature cbSignature pcbResult dwFlags k =
     (if pbSignature = None then
        (let (size, st) = GoSignatureMaxSize hKey k in
         Some (if st \<noteq> 0 then call_failed st pbSignature pcbResult
               else \<lparr>co_status = statusSuccess, co_output = None,
                     co_result = (if pcbResult \<noteq> None then Some size else None), co_overrun = False\<rparr>, k))
      else (case GoSignHash G hKey dwFlags pPaddingInfo pbHashValue cbHashValue k of
          None \<Rightarrow> None
        | Some ((b, r2), k) \<Rightarrow>
            Some (if r2 \<noteq> 0 then call_failed r2 pbSignature pcbResult
                  else copyOut b pbSignature cbSignature pcbResult, k)))"

definition ksp_FreeProvider :: "'w word \<Rightarrow> ('w::len) ksp \<Rightarrow> status \<times> 'w ksp" where
  "ksp_FreeProvider hProvider k = (statusSuccess, GoFreeHandle hProvider k)"

definition ksp_FreeKey :: "'w word \<Rightarrow> ('w::len) ksp \<Rightarrow> status \<times> 'w ksp" where
  "ksp_FreeKey hKey k = (statusSuccess, GoFreeHandle hKey k)"

definition ksp_FreeBuffer :: "('w::len) ksp \<Rightarrow> status \<times> 'w ksp" where
  "ksp_FreeBuffer k = (statusSuccess, k)"

text \<open>The entries that answer \<open>NTE_NOT_SUPPORTED\<close> whatever they are given.\<close>

datatype unsupported_entry =
    CreatePersistedKey | GetProviderProperty | SetProviderProperty | SetKeyProperty | FinalizeKey
  | DeleteKey | Encrypt | Decrypt | IsAlgSupported | EnumAlgorithms | EnumKeys | ImportKey
  | VerifySignature | PromptUser | NotifyChangeKey | SecretAgreement | DeriveKey | FreeSecret

definition ksp_unsupported :: "unsupported_entry \<Rightarrow> ('w::len) ksp \<Rightarrow> status \<times> 'w ksp" where
  "ksp_unsupported e k = (statusNotSupported, k)"

section \<open>Lemmas\<close>

lemma unat_length: "n < 2 ^ 32 \<Longrightarrow> unat (word_of_nat n :: 32 word) = n"
  by (simp add: unat_of_nat)

lemma cBytes_length: "length d < 2 ^ 32 \<Longrightarrow> unat (snd (cBytes d)) = length d"
  by (auto simp: cBytes_def unat_of_nat)

lemma cBytes_memory: "c_memory (cBytes d) = d"
  by (simp add: cBytes_def c_memory_def)

text \<open>The size \<open>memcpy\<close> is given: the length itself below 2 GiB, and far too much from there on.\<close>

lemma sint_mod: "sint (w :: 32 word) mod 2 ^ 32 = uint w"
  using take_bit_signed_take_bit [of 32 31 "uint w"] uint_lt2p [of w]
  by (simp add: sint_uint take_bit_eq_mod)

lemma size_t_eq: "int (size_t len) = sint len mod 2 ^ 64"
  by (simp only: size_t_def scast_eq of_nat_unat uint_word_of_int) simp

lemma size_t_small: "unat len < 2 ^ 31 \<Longrightarrow> size_t len = unat len"
proof -
  assume "unat len < 2 ^ 31"
  then have "0 \<le> sint len" using sint_negative [of len] by linarith
  moreover have "sint len < 2 ^ 31" using sint_less [of len] by simp
  ultimately have "sint len mod 2 ^ 32 = sint len" "sint len mod 2 ^ 64 = sint len" by simp_all
  then have "int (size_t len) = uint len" using sint_mod [of len] size_t_eq [of len] by simp
  then have "int (size_t len) = int (unat len)" by (simp only: of_nat_unat)
  then show ?thesis by (simp only: of_nat_eq_iff)
qed

lemma size_t_negative: "2 ^ 31 \<le> unat len \<Longrightarrow> 2 ^ 63 \<le> size_t len"
proof -
  assume "2 ^ 31 \<le> unat len"
  then have "sint len < 0" using sint_negative [of len] by blast
  moreover have "- (2 ^ 31) \<le> sint len" using sint_ge [of len] by simp
  ultimately have "(sint len + 2 ^ 64) mod 2 ^ 64 = sint len + 2 ^ 64" by (intro mod_pos_pos_trivial) simp_all
  then have "int (size_t len) = sint len + 2 ^ 64" by (simp add: size_t_eq)
  with \<open>- (2 ^ 31) \<le> sint len\<close> have "2 ^ 63 \<le> int (size_t len)" by simp
  then have "int (2 ^ 63) \<le> int (size_t len)" by simp
  then show ?thesis by (simp only: of_nat_le_iff)
qed

lemma status_not_small [simp]:
  "statusFromError (Some e) \<noteq> NTE_BUFFER_TOO_SMALL" "statusInvalidParameter \<noteq> NTE_BUFFER_TOO_SMALL"
  "statusSuccess \<noteq> NTE_BUFFER_TOO_SMALL" "statusFail \<noteq> NTE_BUFFER_TOO_SMALL"
  by (auto simp: statusFromError_def status_defs NTE_BUFFER_TOO_SMALL_def split: option.splits)

lemma copyOut_cases:
  "co_status (copyOut b (Some out) cb (Some p)) = (if cb < snd b then NTE_BUFFER_TOO_SMALL else statusSuccess)"
  "co_result (copyOut b (Some out) cb (Some p)) = Some (snd b)"
  by (simp_all add: copyOut_def Let_def)

section \<open>Properties\<close>

text \<open>C36: The buffer protocol of the entries, for data of less than 4 GiB on the C heap and a host
  buffer of the size it declares: a null buffer is a sizing call that succeeds; a buffer that is too
  small is left alone and refused; one that is large enough begins with the data and keeps its other
  bytes; and in all three cases a result pointer receives the size of the data. Only data of 2 GiB or
  more overruns a buffer: there the C int is negative, and the size given to memcpy is its
  sign extension.\<close>

theorem copy_out_protocol:
  assumes "length d < 2 ^ 32" and "length out = unat cbOutput"
  shows "let sizing = copyOut (cBytes d) None cbOutput (Some r);
      call = copyOut (cBytes d) (Some out) cbOutput (Some r)
    in co_status sizing = statusSuccess \<and> co_output sizing = None \<and> \<not> co_overrun sizing \<and>
      co_result sizing = Some (word_of_nat (length d)) \<and> co_result call = Some (word_of_nat (length d)) \<and>
      (if length out < length d
       then co_status call = NTE_BUFFER_TOO_SMALL \<and> co_output call = Some out \<and> \<not> co_overrun call
       else co_status call = statusSuccess \<and> (co_overrun call \<longleftrightarrow> 2 ^ 31 \<le> length d) \<and>
         (length d < 2 ^ 31 \<longrightarrow> co_output call = Some (d @ drop (length d) out)))"
proof -
  let ?len = "word_of_nat (length d) :: 32 word"
  have buffer: "snd (cBytes d) = ?len" "c_memory (cBytes d) = d" by (simp_all add: cBytes_def c_memory_def)
  have len: "unat ?len = length d" using assms(1) by (rule unat_length)
  then have small: "cbOutput < ?len \<longleftrightarrow> length out < length d"
    using assms(2) by (simp add: word_less_nat_alt)
  have fits: "size_t ?len \<le> length d \<and> size_t ?len \<le> length out \<longleftrightarrow> length d < 2 ^ 31"
    if "length d \<le> length out"
  proof (cases "length d < 2 ^ 31")
    case True
    with that size_t_small [of ?len] show ?thesis by (simp add: len)
  next
    case False
    with size_t_negative [of ?len] have "2 ^ 63 \<le> size_t ?len" by (simp add: len not_less)
    with False assms(1) show ?thesis by simp
  qed
  have "size_t ?len = length d" if "length d < 2 ^ 31" using that size_t_small [of ?len] by (simp add: len)
  with fits small show ?thesis
    by (auto simp: copyOut_def buffer put_at_def Let_def)
qed

theorem copy_out_protocol_witness:
  "co_output (copyOut (cBytes [1, 2]) (Some [7, 8, 9]) 3 (Some 0)) = Some [1, 2, 9]"
  using copy_out_protocol [of "[1, 2]" "[7, 8, 9]" 3 0] by (simp add: Let_def)

end
