(* ===== verification/Sample.thy ===== *)
theory Sample
  imports Session Sample_Runtime
begin

text \<open>
  A concrete machine, configuration and server, on which the theorems of the later theories are
  evaluated; the runtime is the one of \<open>Sample_Runtime\<close>.
\<close>

definition sample_env :: os_env where
  "sample_env =
     \<lparr>os_windows = True,
      os_getenv = (\<lambda>name.
        if name = EnvServerURL then ''https://ksp''
        else if name = EnvToken then ''jwt''
        else ''''),
      os_file = (\<lambda>_. FileNotExist),
      os_can_append = (\<lambda>_. True),
      os_executable = Some ''signtool.exe'',
      os_hostname = ''build'',
      os_username = Some ''ci'',
      os_args = [''signtool'', ''/p'', ''hunter2''],
      os_command_line = None,
      os_decompose = (\<lambda>_. None)\<rparr>"

text \<open>The body of a denial.\<close>

definition denied_document :: json where
  "denied_document = JObj [(''error'', JStr ''ApprovalRequired''), (''message'', JStr ''approval required'')]"

definition denied_body :: string where
  "denied_body = json_render denied_document"

lemma denied_body_parsed: "json_parse denied_body = Some denied_document"
  unfolding denied_body_def
  by (rule json_parse_render) (simp_all add: denied_document_def utf8_valid_ascii is_ascii_def max_nesting_def)

text \<open>
  A server that knows two signers, signs for the first and asks for an approval for the second.
\<close>

definition sample_reply :: "http_request \<Rightarrow> http_reply" where
  "sample_reply rq =
     (if rq_Path rq = ''/api/v1/auth/universal-auth/login'' then
        (if rq_Body rq = Some (JObj [(''clientId'', JStr ''id''), (''clientSecret'', JStr ''good'')])
         then HttpReply 200 '''' (Some (JObj [(''accessToken'', JStr ''tok''), (''expiresIn'', JNum ''3600'')]))
         else HttpReply 401 ''bad'' None)
      else if rq_Path rq = ''/api/v1/cert-manager/signers'' then
        HttpReply 200 '''' (Some (JObj [(''signers'', JArr
          [JObj [(''id'', JStr ''s1''), (''name'', JStr ''app'')],
           JObj [(''id'', JStr ''s2''), (''name'', JStr ''release'')]])]))
      else if rq_Path rq = ''/api/v1/cert-manager/signers/s1/certificate'' then
        HttpReply 200 '''' (Some (JObj [(''certificatePem'', JStr ''P256'')]))
      else if rq_Path rq = ''/api/v1/cert-manager/signers/s2/certificate'' then
        HttpReply 200 '''' (Some (JObj [(''certificatePem'', JStr ''RSA'')]))
      else if rq_Path rq = ''/api/v1/cert-manager/signers/s1/sign'' then
        HttpReply 200 '''' (Some (JObj [(''signature'', JStr ''MAYCAQECAQI='')]))
      else if rq_Path rq = ''/api/v1/cert-manager/signers/s2/sign'' then HttpReply 403 denied_body None
      else if rq_Path rq = ''/api/v1/cert-manager/signers/s2/requests'' then
        HttpReply 200 '''' (Some (JObj [(''id'', JStr ''r1''), (''status'', JStr ''pending'')]))
      else HttpReply 404 '''' None)"

definition sample_world :: world where
  "sample_world =
     \<lparr>w_server = (\<lambda>_. sample_reply), w_sent = [], w_time = (\<lambda>n. int n * Second), w_ticks = 0,
      w_authFail = (\<lambda>_. None), w_signingCtx = None, w_os = sample_env\<rparr>"

text \<open>A session with a token, one with credentials the server accepts, one with credentials it refuses.\<close>

definition sample_config :: config where
  "sample_config = zero_config
     \<lparr>ServerURL := ''https://ksp'',
      Auth := \<lparr>Method = AuthMethodToken, ClientID = '''', ClientSecret = '''', Token = ''jwt''\<rparr>,
      Cache := \<lparr>TokenTTLSeconds = 300, CertTTLSeconds = 300, SignerTTLSeconds = 300\<rparr>,
      Approval := \<lparr>SigningCount = 5, SigningDuration = ''8h'', ExcludeScopeFields = [''command''], IPAddress = ''''\<rparr>\<rparr>"

definition sample_client :: client where
  "sample_client =
     \<lparr>cl_BaseURL = ''https://ksp'', cl_MinVersion = VersionTLS12, cl_SkipVerify = False, cl_RootCAs = None,
      cl_Timeout = clientTimeout, cl_UserAgent = userAgent\<rparr>"

definition sample_session :: session where
  "sample_session =
     \<lparr>s_cfg = sample_config,
      s_client = sample_client,
      s_token = '''', s_tokenExpiry = 0, s_signers = None, s_signersExpiry = 0, s_pubKeys = (\<lambda>_. None)\<rparr>"

definition login_session_with :: "string \<Rightarrow> session" where
  "login_session_with secret = sample_session\<lparr>s_cfg := sample_config
     \<lparr>Auth := \<lparr>Method = AuthMethodUniversalAuth, ClientID = ''id'', ClientSecret = secret, Token = ''''\<rparr>\<rparr>\<rparr>"

lemma sample_transport: "w_server sample_world sent rq \<noteq> HttpFailed err"
  by (simp add: sample_world_def sample_reply_def)

lemma sample_token: "ensureToken G sample_session w = (Inr ''jwt'', sample_session, w)"
  by (simp add: ensureToken_def sample_session_def sample_config_def)

lemmas sample_defs = sample_world_def sample_session_def sample_config_def login_session_with_def zero_config_def

text \<open>The first login of each of the two other sessions.\<close>

lemma sample_Atoi: "Atoi sample_rt ''3600'' = Some 3600"
  by code_simp

lemma sample_decode_login:
  "decode_login sample_rt (Some (JObj [(''accessToken'', JStr ''tok''), (''expiresIn'', JNum ''3600'')])) =
     \<lparr>lr_AccessToken = ''tok'', lr_ExpiresIn = 3600\<rparr>"
  by (simp add: decode_login_def decode_struct_def resolve_key_def set_login_def into_def decode_string_def
      decode_int_def sample_Atoi Let_def)

lemma sample_ttl: "cache_ttl (wrap64 (3600 * Second)) 300 = 270 * Second"
  by (simp add: cache_ttl_def wrap64_def tokenSafetyMargin_def Second_def Let_def)

lemma sample_refused:
  "ensureToken sample_rt (login_session_with ''bad'') sample_world =
     (Inl (newAPIError sample_rt ''login'' 401 ''bad''), login_session_with ''bad'',
      recordAuthFailure ''id@https://ksp'' (newAPIError sample_rt ''login'' 401 ''bad'')
        (snd (send (login_request (s_client sample_session) ''id'' ''bad'') sample_world)))"
  by (simp add: ensureToken_def token_fresh_def cachedAuthFailure_def login_session_def Login_def send_def
      call_result_def sample_reply_def login_request_def auth_key_def Let_def sample_defs)

lemma sample_accepted:
  "ensureToken sample_rt (login_session_with ''good'') sample_world =
     (Inr ''tok'', (login_session_with ''good'')\<lparr>s_token := ''tok'', s_tokenExpiry := 270 * Second\<rparr>,
      clearAuthFailure ''id@https://ksp''
        (snd (now (snd (send (login_request (s_client sample_session) ''id'' ''good'') sample_world)))))"
  by (simp add: ensureToken_def token_fresh_def cachedAuthFailure_def login_session_def Login_def send_def
      call_result_def sample_reply_def login_request_def auth_key_def Let_def sample_defs
      sample_decode_login cacheExpiry_def sample_ttl now_def)

section \<open>What it loads and what the server answers\<close>

lemma sample_getenv:
  "os_getenv sample_env EnvServerURL = ''https://ksp''" "os_getenv sample_env EnvToken = ''jwt''"
  "os_getenv sample_env EnvClientID = ''''" "os_getenv sample_env EnvClientSecret = ''''"
  "os_getenv sample_env EnvConfigPath = ''''"
  by (simp_all add: sample_env_def EnvServerURL_def EnvToken_def EnvClientID_def EnvClientSecret_def EnvConfigPath_def)

lemma sample_load:
  "LoadConfig sample_rt sample_env = Inr (applyEnvOverrides sample_env (setDefaults sample_env zero_config))"
proof -
  have "config_file sample_rt sample_env (ConfigPath sample_env) True zero_config"
    by (rule config_file.Absent) (simp_all add: sample_env_def)
  moreover have "validate sample_rt (applyEnvOverrides sample_env (setDefaults sample_env zero_config)) = None"
    by (simp add: validate_None applyEnvOverrides_eq setDefaults_eq env_or_def sample_getenv valid_url_def
        valid_approval_def valid_duration_def zero_config_def to_lower_def is_ascii_def lower_char_def sample_rt_def)
  ultimately show ?thesis by (simp add: LoadConfig_def sample_getenv loadConfigFrom_file Let_def)
qed

definition sample_app :: signer where
  "sample_app = \<lparr>sg_ID = ''s1'', sg_Name = ''app'', sg_Status = '''', sg_CertificateID = '''', sg_KeyAlgorithm = '''',
     sg_ApprovalPolicyID = None\<rparr>"

definition sample_release :: signer where
  "sample_release = \<lparr>sg_ID = ''s2'', sg_Name = ''release'', sg_Status = '''', sg_CertificateID = '''', sg_KeyAlgorithm = '''',
     sg_ApprovalPolicyID = None\<rparr>"

lemma sample_listing:
  "w_server sample_world sent (list_signers_request c token) =
     HttpReply 200 '''' (Some (JObj [(''signers'', JArr
       [JObj [(''id'', JStr ''s1''), (''name'', JStr ''app'')], JObj [(''id'', JStr ''s2''), (''name'', JStr ''release'')]])]))"
  "decode_signers sample_rt (Some (JObj [(''signers'', JArr
       [JObj [(''id'', JStr ''s1''), (''name'', JStr ''app'')], JObj [(''id'', JStr ''s2''), (''name'', JStr ''release'')]])])) =
     Some [sample_app, sample_release]"
  by (simp add: sample_world_def sample_reply_def list_signers_request_def)
    (simp add: decode_signers_def decode_signer_def decode_struct_def resolve_key_def set_signer_def into_def
      decode_string_def sample_app_def sample_release_def Let_def)

lemma sample_certificates:
  "w_server sample_world sent (certificate_request c token ''s1'') =
     HttpReply 200 '''' (Some (JObj [(''certificatePem'', JStr ''P256'')]))"
  "w_server sample_world sent (certificate_request c token ''s2'') =
     HttpReply 200 '''' (Some (JObj [(''certificatePem'', JStr ''RSA'')]))"
  by (simp_all add: sample_world_def sample_reply_def certificate_request_def signer_path_def PathEscape_def segment_char_def)

lemma sample_certificate_keys:
  "publicKeyFromCertPEM sample_rt (cr_CertificatePem (decode_cert sample_rt
     (Some (JObj [(''certificatePem'', JStr ''P256'')])))) = Inr (ECKey 256 1 2)"
  "publicKeyFromCertPEM sample_rt (cr_CertificatePem (decode_cert sample_rt
     (Some (JObj [(''certificatePem'', JStr ''RSA'')])))) = Inr (RSAKey 3233 17)"
  by (simp_all add: decode_cert_def decode_struct_def resolve_key_def into_def decode_string_def Let_def
      publicKeyFromCertPEM_def trim_space_id sample_rt_def string_bytes_def)

end
