(* ===== verification/Sample_Process.thy ===== *)
theory Sample_Process
  imports Bridge Sample
begin

text \<open>
  A process on the machine and the server of \<open>Sample\<close>: the host opens a provider, then the key of
  the signer \<open>app\<close>. Its states are computed here once, call by call.
\<close>

section \<open>Loading\<close>

definition loaded_config :: config where
  "loaded_config =
     \<lparr>ServerURL = ''https://ksp'',
      Auth = \<lparr>Method = AuthMethodToken, ClientID = '''', ClientSecret = '''', Token = ''jwt''\<rparr>,
      TLS = \<lparr>CACertPath = '''', SkipVerify = False\<rparr>,
      Cache = \<lparr>TokenTTLSeconds = 300, CertTTLSeconds = 3600, SignerTTLSeconds = 300\<rparr>,
      Approval = \<lparr>SigningCount = 0, SigningDuration = '''', ExcludeScopeFields = [], IPAddress = ''''\<rparr>,
      LogLevel = ''info'',
      LogFile = DefaultLogPath sample_env\<rparr>"

lemma sample_log_path: "DefaultLogPath sample_env \<noteq> ''''"
  by (simp add: DefaultLogPath_def sample_env_def)

lemma loaded_config_eq: "applyEnvOverrides sample_env (setDefaults sample_env zero_config) = loaded_config"
  by (simp add: applyEnvOverrides_eq setDefaults_eq env_or_def sample_getenv zero_config_def default_cache_def
      default_auth_def loaded_config_def)

definition loaded_session :: session where
  "loaded_session =
     \<lparr>s_cfg = loaded_config, s_client = sample_client,
      s_token = '''', s_tokenExpiry = 0, s_signers = None, s_signersExpiry = 0, s_pubKeys = (\<lambda>_. None)\<rparr>"

lemma sample_new_session: "NewSession sample_rt sample_env loaded_config = Inr loaded_session"
  by (simp add: NewSession_def NewClient_def sample_client_def loaded_config_def loaded_session_def trim_right_char_def Let_def)

lemma loaded_token: "ensureToken G (loaded_session\<lparr>s_signers := sgs, s_signersExpiry := t, s_pubKeys := keys\<rparr>) w =
    (Inr ''jwt'', loaded_session\<lparr>s_signers := sgs, s_signersExpiry := t, s_pubKeys := keys\<rparr>, w)"
  by (simp add: ensureToken_def loaded_session_def loaded_config_def)

lemma loaded_token_initial: "ensureToken G loaded_session w = (Inr ''jwt'', loaded_session, w)"
  by (simp add: ensureToken_def loaded_session_def loaded_config_def)

section \<open>The process\<close>

definition sample_ksp :: "64 ksp" where
  "sample_ksp = initial_ksp sample_world"

definition sample_opened :: "64 ksp" where
  "sample_opened = snd (ksp_OpenProvider sample_rt 0 sample_ksp)"

definition sample_keyed :: "64 ksp" where
  "sample_keyed = snd (ksp_OpenKey sample_rt 1 0 (Some (wide ''app'')) sample_opened)"

lemma sample_opened_eq: "sample_opened =
    \<lparr>k_world = sample_world, k_sessions = [loaded_session],
     k_registry = \<lparr>rg_handles = (\<lambda>_. None)(1 := Some (Provider 0)), rg_next = 2\<rparr>,
     k_logger = setupLogging sample_env (LogFile loaded_config) initial_logger\<rparr>"
proof -
  have "w_os sample_world = sample_env" by (simp add: sample_world_def)
  then show ?thesis
    by (simp add: sample_opened_def sample_ksp_def initial_ksp_def ksp_OpenProvider_def GoOpenProvider_def openProvider_def
        sample_load loaded_config_eq sample_new_session register_ksp_def registerHandle_def empty_registry_def
        statusSuccess_def Let_def)
qed

text \<open>The world after the two requests of \<open>OpenKey\<close>, the session with what it cached, the key.\<close>

definition keyed_world :: world where
  "keyed_world = sample_world
     \<lparr>w_sent := [list_signers_request (s_client loaded_session) ''jwt'',
        certificate_request (s_client loaded_session) ''jwt'' ''s1''], w_ticks := 2\<rparr>"

definition keyed_session :: session where
  "keyed_session = loaded_session
     \<lparr>s_signers := Some [sample_app, sample_release], s_signersExpiry := wrap64 (300 * Second),
      s_pubKeys := (\<lambda>_. None)(''s1'' := Some \<lparr>pk_key = ECKey 256 1 2, pk_expiresAt = Second + wrap64 (3600 * Second)\<rparr>)\<rparr>"

definition keyed_key :: key_state where
  "keyed_key = \<lparr>ks_prov = 0, ks_signer = sample_app, ks_pub = ECKey 256 1 2, ks_keyType = KeyECDSA, ks_curveBits = 256\<rparr>"

lemma sample_key_name: "utf16PtrToString (Some (wide ''app'')) = ''app''"
  by (rule utf16PtrToString_wide) (simp_all add: is_ascii_def)

lemma sample_find_signer: "FindSigner sample_rt ''app'' loaded_session sample_world =
    (Inr sample_app,
     loaded_session\<lparr>s_signers := Some [sample_app, sample_release], s_signersExpiry := wrap64 (300 * Second)\<rparr>,
     sample_world\<lparr>w_sent := [list_signers_request (s_client loaded_session) ''jwt''], w_ticks := 1\<rparr>)"
proof -
  have fresh: "signers_fresh loaded_session w = (False, w)" for w
    by (simp add: signers_fresh_def loaded_session_def)
  have "w_sent sample_world = []" "w_ticks sample_world = 0" "w_time sample_world 0 = 0"
    "SignerTTLSeconds (Cache (s_cfg loaded_session)) = 300"
    by (simp_all add: sample_world_def loaded_session_def loaded_config_def)
  then show ?thesis
    by (simp add: FindSigner_def Signers_def fresh loaded_token_initial ListSigners_def send_def call_result_def
        sample_listing now_def slice_def sample_app_def Let_def)
qed

lemma sample_public_key: "PublicKey sample_rt ''s1''
    (loaded_session\<lparr>s_signers := Some [sample_app, sample_release], s_signersExpiry := wrap64 (300 * Second)\<rparr>)
    (sample_world\<lparr>w_sent := [list_signers_request (s_client loaded_session) ''jwt''], w_ticks := 1\<rparr>) =
    (Inr (ECKey 256 1 2), keyed_session, keyed_world)"
proof -
  let ?s = "loaded_session\<lparr>s_signers := Some [sample_app, sample_release], s_signersExpiry := wrap64 (300 * Second)\<rparr>"
  have none: "pub_key_lookup ''s1'' ?s w = (None, w)" for w
    by (simp add: pub_key_lookup_def loaded_session_def)
  have token: "ensureToken G ?s w = (Inr ''jwt'', ?s, w)" for G w
    by (simp add: ensureToken_def loaded_session_def loaded_config_def)
  have "w_time sample_world 1 = Second" "CertTTLSeconds (Cache (s_cfg loaded_session)) = 3600"
    "s_pubKeys loaded_session = (\<lambda>_. None)"
    by (simp_all add: sample_world_def loaded_session_def loaded_config_def)
  then show ?thesis
    by (simp add: PublicKey_def none token GetCertificate_def send_def call_result_def sample_certificates
        sample_certificate_keys now_def keyed_session_def keyed_world_def numeral_2_eq_2 Let_def)
qed

lemma sample_open_key: "ksp_OpenKey sample_rt 1 0 (Some (wide ''app'')) sample_opened =
    ((statusSuccess, 2),
     \<lparr>k_world = keyed_world, k_sessions = [keyed_session],
      k_registry = \<lparr>rg_handles = (\<lambda>_. None)(1 := Some (Provider 0), 2 := Some (Key keyed_key)), rg_next = 3\<rparr>,
      k_logger = setupLogging sample_env (LogFile loaded_config) initial_logger\<rparr>)"
proof -
  have "sg_ID sample_app = ''s1''" by (simp add: sample_app_def)
  then show ?thesis
    by (simp add: sample_opened_eq ksp_OpenKey_def GoOpenKey_def openKey_def sample_key_name lookupHandle_def
        provider_of_def run_session_def sample_find_signer
        sample_public_key [unfolded One_nat_def] new_key_state_def register_ksp_def
        registerHandle_def keyed_key_def statusSuccess_def Let_def)
qed

lemma sample_keyed_eq: "sample_keyed =
    \<lparr>k_world = keyed_world, k_sessions = [keyed_session],
     k_registry = \<lparr>rg_handles = (\<lambda>_. None)(1 := Some (Provider 0), 2 := Some (Key keyed_key)), rg_next = 3\<rparr>,
     k_logger = setupLogging sample_env (LogFile loaded_config) initial_logger\<rparr>"
  by (simp add: sample_keyed_def sample_open_key)

end
