(* ===== verification/Process.thy ===== *)
theory Process
  imports Session_Calls Sample_Process
begin

text \<open>
  The process as a state machine: the host calls the entries of the function table in any order
  and with any arguments (\<open>ksp_step\<close>), and \<open>reachable G w n k\<close> says that \<open>n\<close> calls can lead to
  \<open>k\<close>. The invariant is the well-formedness of handles and keys with the provenance of the
  traffic: every request sent belongs to a session some provider handle was opened for. It needs
  fewer calls than there are handles, since \<open>nextHandle\<close> wraps.
\<close>

section \<open>The invariant\<close>

definition traffic_ok :: "('w::len) ksp \<Rightarrow> bool" where
  "traffic_ok k \<longleftrightarrow> (\<forall>rq \<in> set (w_sent (k_world k)). \<exists>s \<in> set (k_sessions k). session_request s rq)"

definition ksp_inv :: "('w::len) ksp \<Rightarrow> bool" where
  "ksp_inv k \<longleftrightarrow> ksp_ok k \<and> traffic_ok k"

lemma ksp_inv_initial: "w_sent w = [] \<Longrightarrow> ksp_inv (initial_ksp w)"
  using ksp_ok_initial [of w] by (simp add: ksp_inv_def traffic_ok_def) (simp add: initial_ksp_def)

lemma ksp_inv_logger [simp]: "ksp_inv (k\<lparr>k_logger := l\<rparr>) = ksp_inv k"
  by (simp add: ksp_inv_def traffic_ok_def)

lemma ksp_inv_new_session:
  "ksp_inv k \<Longrightarrow> ksp_inv (k\<lparr>k_sessions := k_sessions k @ [s]\<rparr>)"
  by (fastforce simp: ksp_inv_def ksp_ok_def traffic_ok_def intro: object_ok_mono)

lemma ksp_inv_register:
  assumes "ksp_inv k" "ksp_room k" "object_ok (length (k_sessions k)) v" "register_ksp v k = (h, k')"
  shows "ksp_inv k'"
  using assms ksp_ok_register [OF _ assms(2-4)] by (auto simp: ksp_inv_def traffic_ok_def)

lemma ksp_inv_free: "ksp_inv k \<Longrightarrow> ksp_inv (GoFreeHandle h k)"
  by (auto simp: ksp_inv_def ksp_ok_def traffic_ok_def GoFreeHandle_def registry.invar_free
      registry.lookup_free split: if_splits)

text \<open>A method of a session keeps the invariant of the process it runs in.\<close>

context session_op
begin

lemma run_session_inv:
  assumes inv: "ksp_inv k" and i: "i < length (k_sessions k)" and run: "run_session i run k = (r, k')"
  shows "ksp_inv k'"
proof -
  obtain s' w' where call: "run (k_sessions k ! i) (k_world k) = (r, s', w')"
    and k': "k' = k\<lparr>k_sessions := (k_sessions k)[i := s'], k_world := w'\<rparr>"
    using run by (auto simp: run_session_def split: prod.splits)
  note same = op_session [OF call]
  have req: "session_request s' = session_request (k_sessions k ! i)"
    by (rule session_request_cong [OF same])
  have "\<exists>s \<in> set ((k_sessions k)[i := s']). session_request s rq" if rq: "rq \<in> set (w_sent w')" for rq
  proof -
    have "\<exists>j < length (k_sessions k). session_request (k_sessions k ! j) rq"
    proof (cases "rq \<in> set (w_sent (k_world k))")
      case True
      with inv obtain s where "s \<in> set (k_sessions k)" "session_request s rq"
        by (auto simp: ksp_inv_def traffic_ok_def)
      then show ?thesis by (metis in_set_conv_nth)
    next
      case False
      with op_requests [OF call rq] i show ?thesis by blast
    qed
    then obtain j where j: "j < length (k_sessions k)" "session_request (k_sessions k ! j) rq" by blast
    then have "session_request ((k_sessions k)[i := s'] ! j) rq"
      using req by (cases "j = i") simp_all
    with j(1) show ?thesis by (metis length_list_update nth_mem)
  qed
  moreover have "ksp_ok k'"
    using inv ksp_ok_run_session [of i run k] run by (simp add: ksp_inv_def)
  ultimately show ?thesis by (simp add: ksp_inv_def traffic_ok_def k')
qed

end

section \<open>The contract of an entry\<close>

text \<open>
  A call that is not a free: it keeps the invariant, registers at most one handle, leaves the
  meaning of every live handle alone and only appends to the log.
\<close>

locale ksp_op =
  fixes run :: "('w::len) ksp \<Rightarrow> 'a \<times> 'w ksp"
  assumes op_inv: "ksp_inv k \<Longrightarrow> ksp_room k \<Longrightarrow> run k = (r, k') \<Longrightarrow> ksp_inv k'"
    and op_next: "ksp_inv k \<Longrightarrow> ksp_room k \<Longrightarrow> run k = (r, k') \<Longrightarrow>
      rg_next (k_registry k') = rg_next (k_registry k) \<or> rg_next (k_registry k') = rg_next (k_registry k) + 1"
    and op_live: "ksp_inv k \<Longrightarrow> ksp_room k \<Longrightarrow> run k = (r, k') \<Longrightarrow>
      lookupHandle h (k_registry k) = Some v \<Longrightarrow> lookupHandle h (k_registry k') = Some v"
begin

text \<open>Logging after the call changes none of this.\<close>

lemma op_logged:
  assumes "ksp_inv k" "ksp_room k" "run k = (r, k')"
  shows "ksp_inv (log_ksp op e k')"
    and "k_registry (log_ksp op e k') = k_registry k'"
  using op_inv [OF assms] by (simp_all add: log_ksp_def)

end

lemma register_ksp_next: "register_ksp v k = (h, k') \<Longrightarrow> rg_next (k_registry k') = rg_next (k_registry k) + 1"
  by (auto simp: register_ksp_def registerHandle_def Let_def)

lemma log_ksp_simps [simp]:
  "ksp_inv (log_ksp op e k) = ksp_inv k" "k_registry (log_ksp op e k) = k_registry k"
  "k_sessions (log_ksp op e k) = k_sessions k" "k_world (log_ksp op e k) = k_world k"
  by (simp_all add: log_ksp_def)

lemma openProvider_cases:
  assumes "openProvider G k = (r, k')"
  obtains (failed) e where "r = Inl e" "k_registry k' = k_registry k" "k_sessions k' = k_sessions k"
      "k_world k' = k_world k"
  | (opened) h cfg s k1 where "r = Inr h" "LoadConfig G (w_os (k_world k)) = Inr cfg"
      "NewSession G (w_os (k_world k)) cfg = Inr s"
      "k1 = k\<lparr>k_logger := setupLogging (w_os (k_world k)) (LogFile cfg) (k_logger k), k_sessions := k_sessions k @ [s]\<rparr>"
      "register_ksp (Provider (length (k_sessions k))) k1 = (h, k')"
  using assms
  by (auto simp: openProvider_def Let_def split_beta split: sum.splits)

interpretation open_provider: ksp_op "openProvider G" for G
proof -
  have all: "ksp_inv k' \<and>
      (rg_next (k_registry k') = rg_next (k_registry k) \<or> rg_next (k_registry k') = rg_next (k_registry k) + 1) \<and>
      (\<forall>h v. lookupHandle h (k_registry k) = Some v \<longrightarrow> lookupHandle h (k_registry k') = Some v)"
    if inv: "ksp_inv k" and room: "ksp_room k" and run: "openProvider G k = (r, k')" for k k' :: "'b::len ksp" and r
    using run
  proof (cases rule: openProvider_cases)
    case (failed e)
    with inv show ?thesis by (simp add: ksp_inv_def ksp_ok_def traffic_ok_def)
  next
    case (opened h cfg s k1)
    have inv1: "ksp_inv k1" and room1: "ksp_room k1"
      using ksp_inv_new_session [OF inv, of s] room by (simp_all add: opened(4) ksp_inv_def traffic_ok_def ksp_ok_def)
    have obj: "object_ok (length (k_sessions k1)) (Provider (length (k_sessions k)))"
      by (simp add: object_ok_def opened(4))
    have ok1: "ksp_ok k1" using inv1 by (simp add: ksp_inv_def)
    note reg = ksp_ok_register [OF ok1 room1 obj opened(5)]
    have "lookupHandle j (k_registry k') = Some v" if "lookupHandle j (k_registry k) = Some v" for j v
      using reg(2) [of j] reg(3) that by (auto simp: opened(4))
    then show ?thesis
      using ksp_inv_register [OF inv1 room1 obj opened(5)] register_ksp_next [OF opened(5)]
      by (simp add: opened(4))
  qed
  show "ksp_op (openProvider G :: 'b::len ksp \<Rightarrow> ('b word) result \<times> 'b ksp)"
    by unfold_locales (use all in blast)+
qed

lemma run_session_registry: "run_session i run k = (r, k') \<Longrightarrow> k_registry k' = k_registry k"
  by (metis run_session_frame(1) snd_conv)

lemma run_session_length: "run_session i run k = (r, k') \<Longrightarrow> length (k_sessions k') = length (k_sessions k)"
  by (metis run_session_frame(2) snd_conv)

lemma provider_of_Some: "provider_of v = Some i \<longleftrightarrow> v = Some (Provider i)"
  by (auto simp: provider_of_def split: option.splits handle_object.splits)

lemma key_of_Some: "key_of v = Some ks \<longleftrightarrow> v = Some (Key ks)"
  by (auto simp: key_of_def split: option.splits handle_object.splits)

lemma provider_of_None: "provider_of v = None \<longleftrightarrow> (\<forall>i. v \<noteq> Some (Provider i))"
  by (auto simp: provider_of_def split: option.splits handle_object.splits)

lemma key_of_None: "key_of v = None \<longleftrightarrow> (\<forall>ks. v \<noteq> Some (Key ks))"
  by (auto simp: key_of_def split: option.splits handle_object.splits)

lemma live_provider: "ksp_inv k \<Longrightarrow> lookupHandle h (k_registry k) = Some (Provider i) \<Longrightarrow> i < length (k_sessions k)"
  by (fastforce simp: ksp_inv_def ksp_ok_def object_ok_def)

lemma live_key:
  "ksp_inv k \<Longrightarrow> lookupHandle h (k_registry k) = Some (Key ks) \<Longrightarrow> ks_prov ks < length (k_sessions k) \<and> key_ok ks"
  by (fastforce simp: ksp_inv_def ksp_ok_def object_ok_def)

lemma keyByHandle_Inr: "keyByHandle h k = Inr ks \<longleftrightarrow> lookupHandle h (k_registry k) = Some (Key ks)"
  by (auto simp: keyByHandle_def key_of_Some key_of_None split: option.splits)

lemma keyByHandle_Inl: "keyByHandle h k = Inl e \<longleftrightarrow> e = ErrBadHandle \<and> (\<forall>ks. lookupHandle h (k_registry k) \<noteq> Some (Key ks))"
  unfolding key_of_None [symmetric] by (auto simp: keyByHandle_def split: option.splits)

text \<open>
  The ways \<open>openKey\<close> ends: a handle that is no provider, an engine error, an unusable key, or a
  key registered with the signer found and its public key.
\<close>

lemma openKey_cases:
  assumes "openKey G provHandle name k = (r, k')"
  obtains (bad) "r = Inl ErrBadHandle" "k' = k" "\<forall>i. lookupHandle provHandle (k_registry k) \<noteq> Some (Provider i)"
  | (no_signer) i e where "lookupHandle provHandle (k_registry k) = Some (Provider i)"
      "run_session i (FindSigner G name) k = (Inl e, k')" "r = Inl e"
  | (no_key) i sg k1 e where "lookupHandle provHandle (k_registry k) = Some (Provider i)"
      "run_session i (FindSigner G name) k = (Inr sg, k1)"
      "run_session i (PublicKey G (sg_ID sg)) k1 = (Inl e, k')" "r = Inl e"
  | (unusable) i sg k1 pub e where "lookupHandle provHandle (k_registry k) = Some (Provider i)"
      "run_session i (FindSigner G name) k = (Inr sg, k1)"
      "run_session i (PublicKey G (sg_ID sg)) k1 = (Inr pub, k')" "new_key_state i sg pub = Inl e" "r = Inl e"
  | (opened) i sg k1 pub k2 ks h where "lookupHandle provHandle (k_registry k) = Some (Provider i)"
      "run_session i (FindSigner G name) k = (Inr sg, k1)"
      "run_session i (PublicKey G (sg_ID sg)) k1 = (Inr pub, k2)" "new_key_state i sg pub = Inr ks"
      "register_ksp (Key ks) k2 = (h, k')" "r = Inr h"
proof (cases "provider_of (lookupHandle provHandle (k_registry k))")
  case None
  with assms bad show ?thesis by (simp add: openKey_def provider_of_None)
next
  case (Some i)
  note prov = Some [unfolded provider_of_Some]
  obtain r1 k1 where find: "run_session i (FindSigner G name) k = (r1, k1)" by (cases "run_session i (FindSigner G name) k")
  show ?thesis
  proof (cases r1)
    case (Inl e)
    with assms find Some prov no_signer show ?thesis by (auto simp: openKey_def)
  next
    case (Inr sg)
    obtain r2 k2 where pub: "run_session i (PublicKey G (sg_ID sg)) k1 = (r2, k2)"
      by (cases "run_session i (PublicKey G (sg_ID sg)) k1")
    show ?thesis
    proof (cases r2)
      case (Inl e)
      with assms find Some prov Inr pub no_key show ?thesis by (auto simp: openKey_def)
    next
      case key: (Inr pk)
      show ?thesis
      proof (cases "new_key_state i sg pk")
        case (Inl e)
        with assms find Some prov \<open>r1 = Inr sg\<close> pub key unusable show ?thesis by (auto simp: openKey_def)
      next
        case ok: (Inr ks)
        obtain h k3 where "register_ksp (Key ks) k2 = (h, k3)" by (cases "register_ksp (Key ks) k2")
        with assms find Some prov Inr pub key ok opened show ?thesis by (auto simp: openKey_def)
      qed
    qed
  qed
qed

interpretation open_key: ksp_op "openKey G provHandle name" for G and provHandle :: "'b::len word" and name
proof -
  have all: "ksp_inv k' \<and>
      (rg_next (k_registry k') = rg_next (k_registry k) \<or> rg_next (k_registry k') = rg_next (k_registry k) + 1) \<and>
      (\<forall>h v. lookupHandle h (k_registry k) = Some v \<longrightarrow> lookupHandle h (k_registry k') = Some v)"
    if inv: "ksp_inv k" and room: "ksp_room k" and run: "openKey G provHandle name k = (r, k')" for k k' :: "'b ksp" and r
    using run
  proof (cases rule: openKey_cases)
    case (no_signer i e)
    note inv' = find_signer.run_session_inv [OF inv live_provider [OF inv no_signer(1)] no_signer(2)]
    with run_session_registry [OF no_signer(2)] show ?thesis by simp
  next
    case (no_key i sg k1 e)
    note inv1 = find_signer.run_session_inv [OF inv live_provider [OF inv no_key(1)] no_key(2)]
    note i1 = live_provider [OF inv no_key(1), folded run_session_length [OF no_key(2)]]
    note inv' = public_key.run_session_inv [OF inv1 i1 no_key(3)]
    with run_session_registry [OF no_key(2)] run_session_registry [OF no_key(3)] show ?thesis by simp
  next
    case (unusable i sg k1 pub e)
    note inv1 = find_signer.run_session_inv [OF inv live_provider [OF inv unusable(1)] unusable(2)]
    note i1 = live_provider [OF inv unusable(1), folded run_session_length [OF unusable(2)]]
    note inv' = public_key.run_session_inv [OF inv1 i1 unusable(3)]
    with run_session_registry [OF unusable(2)] run_session_registry [OF unusable(3)] show ?thesis by simp
  next
    case (opened i sg k1 pub k2 ks h)
    note inv1 = find_signer.run_session_inv [OF inv live_provider [OF inv opened(1)] opened(2)]
    note i1 = live_provider [OF inv opened(1), folded run_session_length [OF opened(2)]]
    note inv2 = public_key.run_session_inv [OF inv1 i1 opened(3)]
    have same: "k_registry k2 = k_registry k"
      using run_session_registry [OF opened(2)] run_session_registry [OF opened(3)] by simp
    have room2: "ksp_room k2" using room same by simp
    have obj: "object_ok (length (k_sessions k2)) (Key ks)"
      using new_key_state_ok [OF opened(4)] i1 run_session_length [OF opened(3)] by (simp add: object_ok_def)
    have ok2: "ksp_ok k2" using inv2 by (simp add: ksp_inv_def)
    note reg = ksp_ok_register [OF ok2 room2 obj opened(5)]
    have "lookupHandle j (k_registry k') = Some v" if "lookupHandle j (k_registry k) = Some v" for j v
      using reg(2) [of j] reg(3) that by (auto simp: same)
    then show ?thesis
      using ksp_inv_register [OF inv2 room2 obj opened(5)] register_ksp_next [OF opened(5)] by (simp add: same)
  qed (use inv in simp)
  show "ksp_op (openKey G provHandle name)"
    by unfold_locales (use all in blast)+
qed

section \<open>Exporting and signing\<close>

text \<open>The signature CNG gets for a key from the bytes of the server.\<close>

definition cng_signature :: "key_state \<Rightarrow> byte list \<Rightarrow> byte list result" where
  "cng_signature ks sig = (if ks_keyType ks = KeyECDSA then raw_signature sig (ks_curveBits ks) else Inr sig)"

lemma signHash_eq:
  "signHash G ks padding hashName digest k = Some (case Algorithm G (ks_keyType ks) padding hashName of
       Inl err \<Rightarrow> (Inl err, k)
     | Inr a \<Rightarrow>
         (case run_session (ks_prov ks) (Sign G (sg_ID (ks_signer ks)) a digest) k of
            (Inl err, k) \<Rightarrow> (Inl err, k)
          | (Inr sig, k) \<Rightarrow> (cng_signature ks sig, k)))"
  by (auto simp: signHash_def cng_signature_def ECDSADERToRaw_eq split: sum.splits prod.splits)

text \<open>
  The ways a sign call that returns can end. The request is refused locally, or the session is
  asked to sign; then its error, or the reshaping of what it returned, decides.
\<close>

lemma GoSignHash_cases:
  assumes "GoSignHash G key dwFlags pad pbInput cbInput k = Some ((b, st), k')"
  obtains (bad) "b = (None, 0)" "st = statusInvalidParameter" "k' = k"
      "\<forall>ks. lookupHandle key (k_registry k) \<noteq> Some (Key ks)"
  | (refused) ks e op where "lookupHandle key (k_registry k) = Some (Key ks)" "b = (None, 0)"
      "st = statusInvalidParameter \<or> st = statusFail" "k' = log_ksp op e k"
  | (asked) ks padding hashName a r k1 where "lookupHandle key (k_registry k) = Some (Key ks)"
      "sign_padding dwFlags pad (take (unat cbInput) pbInput) = Inr (padding, hashName)"
      "Algorithm G (ks_keyType ks) padding hashName = Inr a"
      "run_session (ks_prov ks) (Sign G (sg_ID (ks_signer ks)) a (take (unat cbInput) pbInput)) k = (r, k1)"
      "case (case r of Inl e \<Rightarrow> Inl e | Inr sig \<Rightarrow> cng_signature ks sig) of
         Inl e \<Rightarrow> b = (None, 0) \<and> st = statusFromError (Some e) \<and> k' = log_ksp ''SignHash'' e k1
       | Inr out \<Rightarrow> b = cBytes out \<and> st = statusSuccess \<and> k' = k1"
proof (cases "keyByHandle key k")
  case (Inl e)
  with assms bad show ?thesis by (auto simp: GoSignHash_def keyByHandle_Inl)
next
  case (Inr ks)
  note live = Inr [unfolded keyByHandle_Inr]
  let ?digest = "take (unat cbInput) pbInput"
  from assms Inr have call: "Some ((b, st), k') = (case sign_padding dwFlags pad ?digest of
      Inl herr \<Rightarrow> Some (((None, 0), statusInvalidParameter), log_ksp ''SignHash'' herr k)
    | Inr (padding, hashName) \<Rightarrow>
        (case signHash G ks padding hashName ?digest k of
           None \<Rightarrow> None
         | Some (Inl err, k) \<Rightarrow> Some (((None, 0), statusFromError (Some err)), log_ksp ''SignHash'' err k)
         | Some (Inr sig, k) \<Rightarrow> Some ((cBytes sig, statusSuccess), k)))"
    by (simp add: GoSignHash_def Let_def split: if_splits)
  show ?thesis
  proof (cases "sign_padding dwFlags pad ?digest")
    case (Inl e)
    with call live refused show ?thesis by simp
  next
    case (Inr ph)
    then obtain padding hashName where ph: "sign_padding dwFlags pad ?digest = Inr (padding, hashName)"
      by (cases ph) auto
    show ?thesis
    proof (cases "Algorithm G (ks_keyType ks) padding hashName")
      case (Inl e)
      moreover from Algorithm_error_not_bad_handle [OF Inl] have "statusFromError (Some e) = statusFail"
        by (auto simp: statusFromError_local)
      ultimately show ?thesis using call live ph refused by (simp add: signHash_eq)
    next
      case (Inr a)
      obtain r k1 where run: "run_session (ks_prov ks) (Sign G (sg_ID (ks_signer ks)) a ?digest) k = (r, k1)"
        by (cases "run_session (ks_prov ks) (Sign G (sg_ID (ks_signer ks)) a ?digest) k")
      show ?thesis
        by (rule asked [OF live ph Inr run]) (use call ph Inr run in \<open>auto simp: signHash_eq split: sum.splits\<close>)
    qed
  qed
qed

lemma GoSignHash_frame:
  assumes inv: "ksp_inv k" and call: "GoSignHash G key dwFlags pad pbInput cbInput k = Some (r, k')"
  shows "ksp_inv k'" and "k_registry k' = k_registry k"
proof -
  obtain b st where r: "r = (b, st)" by (cases r)
  have "ksp_inv k' \<and> k_registry k' = k_registry k"
    using call [unfolded r]
  proof (cases rule: GoSignHash_cases)
    case (asked ks padding hashName a q k1)
    from live_key [OF inv asked(1)] have i: "ks_prov ks < length (k_sessions k)" by simp
    from sign_call.run_session_inv [OF inv i asked(4)] run_session_registry [OF asked(4)] asked(5)
    show ?thesis by (auto split: sum.splits)
  qed (use inv in auto)
  then show "ksp_inv k'" "k_registry k' = k_registry k" by auto
qed

lemma GoExportKey_frame:
  "GoExportKey key k = (r, k') \<Longrightarrow> ksp_inv k' = ksp_inv k \<and> k_registry k' = k_registry k"
  by (auto simp: GoExportKey_def split: sum.splits)

section \<open>The step relation\<close>

inductive ksp_step :: "go_rt \<Rightarrow> ('w::len) ksp \<Rightarrow> 'w ksp \<Rightarrow> bool" for G where
  OpenProvider: "ksp_OpenProvider G phProvider k = (r, k') \<Longrightarrow> ksp_step G k k'"
| OpenKey: "ksp_OpenKey G hProvider phKey pszKeyName k = (r, k') \<Longrightarrow> ksp_step G k k'"
| GetKeyProperty: "ksp_GetKeyProperty hKey pszProperty pbOutput cbOutput pcbResult k = r \<Longrightarrow> ksp_step G k k"
| ExportKey: "ksp_ExportKey hKey pszBlobType pbOutput cbOutput pcbResult k = (r, k') \<Longrightarrow> ksp_step G k k'"
| SignHash: "ksp_SignHash G hKey pPaddingInfo pbHashValue cbHashValue pbSignature cbSignature pcbResult dwFlags k =
    Some (r, k') \<Longrightarrow> ksp_step G k k'"
| FreeProvider: "ksp_FreeProvider hProvider k = (r, k') \<Longrightarrow> ksp_step G k k'"
| FreeKey: "ksp_FreeKey hKey k = (r, k') \<Longrightarrow> ksp_step G k k'"
| FreeBuffer: "ksp_FreeBuffer k = (r, k') \<Longrightarrow> ksp_step G k k'"
| Unsupported: "ksp_unsupported e k = (r, k') \<Longrightarrow> ksp_step G k k'"

inductive_cases ksp_step_cases: "ksp_step G k k'"

inductive reachable :: "go_rt \<Rightarrow> world \<Rightarrow> nat \<Rightarrow> ('w::len) ksp \<Rightarrow> bool" for G w where
  Start: "reachable G w 0 (initial_ksp w)"
| Step: "reachable G w n k \<Longrightarrow> ksp_step G k k' \<Longrightarrow> reachable G w (Suc n) k'"

text \<open>What the exported functions add to the operations is the log.\<close>

lemma ksp_OpenProvider_frame:
  assumes "ksp_OpenProvider G ph k = (r, k')"
  obtains q k1 where "openProvider G k = (q, k1)" "ksp_inv k' = ksp_inv k1" "k_registry k' = k_registry k1"
  using assms
  by (cases "openProvider G k"; cases "fst (openProvider G k)")
    (auto simp: ksp_OpenProvider_def GoOpenProvider_def)

lemma ksp_OpenKey_frame:
  assumes "ksp_OpenKey G hp ph name k = (r, k')"
  obtains q k1 where "openKey G hp (utf16PtrToString name) k = (q, k1)"
    "ksp_inv k' = ksp_inv k1" "k_registry k' = k_registry k1"
  using assms
  by (cases "openKey G hp (utf16PtrToString name) k"; cases "fst (openKey G hp (utf16PtrToString name) k)")
    (auto simp: ksp_OpenKey_def GoOpenKey_def Let_def)

lemma step_result:
  assumes step: "ksp_step G k k'" and inv: "ksp_inv k" and room: "ksp_room k"
  shows "ksp_inv k' \<and>
    (rg_next (k_registry k') = rg_next (k_registry k) \<or> rg_next (k_registry k') = rg_next (k_registry k) + 1)"
  using step
proof (cases rule: ksp_step.cases)
  case (OpenProvider ph r)
  then show ?thesis
    by (elim ksp_OpenProvider_frame) (use open_provider.op_inv [OF inv room] open_provider.op_next [OF inv room] in metis)
next
  case (OpenKey hp ph name r)
  then show ?thesis
    by (elim ksp_OpenKey_frame) (use open_key.op_inv [OF inv room] open_key.op_next [OF inv room] in metis)
next
  case (ExportKey hk bt ob cb pcb r)
  then have "k' = k \<or> (\<exists>q. GoExportKey hk k = (q, k'))"
    by (auto simp: ksp_ExportKey_def split_beta Let_def split: if_splits prod.splits) (metis surjective_pairing)+
  then show ?thesis using GoExportKey_frame [of hk k _ k'] inv by auto
next
  case (SignHash hk pad hv chv sg cs pcb fl r)
  then have "k' = k \<or> (\<exists>q. GoSignHash G hk fl pad hv chv k = Some (q, k'))"
    by (auto simp: ksp_SignHash_def split_beta Let_def split: if_splits option.splits)
  then show ?thesis using GoSignHash_frame [OF inv] inv by metis
qed (use inv in \<open>auto simp: ksp_FreeProvider_def ksp_FreeKey_def ksp_FreeBuffer_def ksp_unsupported_def ksp_inv_free\<close>,
  simp_all add: GoFreeHandle_def freeHandle_def)

lemma unat_minus_1: "unat (- 1 :: 'w::len word) = 2 ^ LENGTH('w) - 1"
  by transfer (simp add: take_bit_minus_one_eq_mask mask_eq_exp_minus_1 nat_diff_distrib' nat_power_eq)

lemma reachable_inv:
  assumes "reachable G w n k" and "w_sent w = []" and "n < 2 ^ LENGTH('w::len) - 1"
  shows "ksp_inv (k :: 'w ksp) \<and> unat (rg_next (k_registry k)) \<le> Suc n"
  using assms
proof (induction rule: reachable.induct)
  case Start
  have "unat (1 :: 'w word) = 1" by (metis unat_1)
  then show ?case using ksp_inv_initial [OF Start(1)] by (simp add: initial_ksp_def empty_registry_def)
next
  case (Step n k k')
  then have inv: "ksp_inv k" and bound: "unat (rg_next (k_registry k)) \<le> Suc n" by auto
  have "Suc n < 2 ^ LENGTH('w) - 1" by (rule Step.prems(2))
  moreover have "unat (- 1 :: 'w word) = 2 ^ LENGTH('w) - 1" by (rule unat_minus_1)
  ultimately have room: "ksp_room k" using bound by (auto simp: registry_room_def)
  from step_result [OF Step.hyps(2) inv room]
  have "ksp_inv k'" "unat (rg_next (k_registry k')) \<le> Suc (unat (rg_next (k_registry k)))"
    by (auto simp: unat_plus_if')
  with bound show ?case by simp
qed

section \<open>Where the sessions come from\<close>

text \<open>Every session was built from the configuration the process loads, and never reconfigured.\<close>

definition origin_ok :: "go_rt \<Rightarrow> os_env \<Rightarrow> ('w::len) ksp \<Rightarrow> bool" where
  "origin_ok G env k \<longleftrightarrow> w_os (k_world k) = env \<and>
     (\<forall>s \<in> set (k_sessions k). LoadConfig G env = Inr (s_cfg s) \<and> NewClient G env (s_cfg s) = Inr (s_client s))"

lemma origin_ok_log [simp]: "origin_ok G env (log_ksp op e k) = origin_ok G env k"
  by (simp add: origin_ok_def)

lemma origin_ok_cong:
  "k_sessions k' = k_sessions k \<Longrightarrow> k_world k' = k_world k \<Longrightarrow> origin_ok G env k' = origin_ok G env k"
  by (simp add: origin_ok_def)

context session_op
begin

lemma run_session_origin:
  assumes "origin_ok G env k" and "i < length (k_sessions k)" and "run_session i run k = (r, k')"
  shows "origin_ok G env k'"
proof -
  obtain s' w' where call: "run (k_sessions k ! i) (k_world k) = (r, s', w')"
    and k': "k' = k\<lparr>k_sessions := (k_sessions k)[i := s'], k_world := w'\<rparr>"
    using assms(3) by (auto simp: run_session_def split: prod.splits)
  have "k_sessions k ! i \<in> set (k_sessions k)" using assms(2) by simp
  with assms(1) op_frame [OF call] have "LoadConfig G env = Inr (s_cfg s')" "NewClient G env (s_cfg s') = Inr (s_client s')"
    "w_os w' = env" by (auto simp: origin_ok_def)
  with assms(1) show ?thesis
    by (auto simp: origin_ok_def k' dest!: set_update_subset_insert [THEN subsetD])
qed

end

lemma NewSession_Inr: "NewSession G env cfg = Inr s \<Longrightarrow> s_cfg s = cfg \<and> NewClient G env cfg = Inr (s_client s)"
  by (auto simp: NewSession_def split: sum.splits)

lemma register_ksp_frame:
  "register_ksp v k = (h, k') \<Longrightarrow> k_sessions k' = k_sessions k \<and> k_world k' = k_world k"
  by (auto simp: register_ksp_def Let_def split_beta)

lemma openProvider_origin:
  assumes "origin_ok G env k" and "openProvider G k = (r, k')"
  shows "origin_ok G env k'"
  using assms(2)
proof (cases rule: openProvider_cases)
  case (failed e)
  with assms(1) origin_ok_cong [of k' k] show ?thesis by simp
next
  case (opened h cfg s k1)
  from register_ksp_frame [OF opened(5)] assms(1) opened(2,3) NewSession_Inr [OF opened(3)] show ?thesis
    by (auto simp: origin_ok_def opened(4))
qed

lemma openKey_origin:
  assumes inv: "ksp_inv k" and origin: "origin_ok G env k" and run: "openKey G provHandle name k = (r, k')"
  shows "origin_ok G env k'"
proof -
  have session: "origin_ok G env k1 \<and> length (k_sessions k1) = length (k_sessions k) \<and> i < length (k_sessions k)"
    if "lookupHandle provHandle (k_registry k) = Some (Provider i)" "run_session i (FindSigner G name) k = (q, k1)" for i q k1
    using find_signer.run_session_origin [OF origin live_provider [OF inv that(1)] that(2)]
      run_session_length [OF that(2)] live_provider [OF inv that(1)] by simp
  have key: "origin_ok G env k2"
    if "origin_ok G env k1" "i < length (k_sessions k1)" "run_session i (PublicKey G n) k1 = (q, k2)" for i k1 n q k2
    using public_key.run_session_origin [OF that] .
  show ?thesis
    using run
  proof (cases rule: openKey_cases)
    case (opened i sg k1 pub k2 ks h)
    from session [OF opened(1,2)] key [OF _ _ opened(3)] have "origin_ok G env k2" by simp
    with register_ksp_frame [OF opened(5)] origin_ok_cong [of k' k2] show ?thesis by simp
  next
    case (no_key i sg k1 e)
    from session [OF no_key(1,2)] key [OF _ _ no_key(3)] show ?thesis by simp
  next
    case (unusable i sg k1 pub e)
    from session [OF unusable(1,2)] key [OF _ _ unusable(3)] show ?thesis by simp
  qed (use origin session in auto)
qed

lemma GoSignHash_origin:
  assumes inv: "ksp_inv k" and origin: "origin_ok G env k"
    and call: "GoSignHash G key dwFlags pad pbInput cbInput k = Some (r, k')"
  shows "origin_ok G env k'"
proof -
  obtain b st where r: "r = (b, st)" by (cases r)
  show ?thesis
    using call [unfolded r]
  proof (cases rule: GoSignHash_cases)
    case (asked ks padding hashName a q k1)
    from live_key [OF inv asked(1)] have i: "ks_prov ks < length (k_sessions k)" by simp
    from sign_call.run_session_origin [OF origin i asked(4)] asked(5) show ?thesis
      by (auto split: sum.splits)
  qed (use origin in auto)
qed

lemma step_origin:
  assumes step: "ksp_step G k k'" and inv: "ksp_inv k" and origin: "origin_ok G env k"
  shows "origin_ok G env k'"
  using step
proof (cases rule: ksp_step.cases)
  case (OpenProvider ph r)
  obtain q k1 where run: "openProvider G k = (q, k1)" by (cases "openProvider G k")
  with OpenProvider openProvider_origin [OF origin run] show ?thesis
    by (cases q) (auto simp: ksp_OpenProvider_def GoOpenProvider_def)
next
  case (OpenKey hp ph name r)
  obtain q k1 where run: "openKey G hp (utf16PtrToString name) k = (q, k1)"
    by (cases "openKey G hp (utf16PtrToString name) k")
  with OpenKey openKey_origin [OF inv origin run] show ?thesis
    by (cases q) (auto simp: ksp_OpenKey_def GoOpenKey_def Let_def)
next
  case (ExportKey hk bt ob cb pcb r)
  with origin show ?thesis
    by (auto simp: ksp_ExportKey_def GoExportKey_def Let_def split: if_splits sum.splits prod.splits)
next
  case (SignHash hk pad hv chv sg cs pcb fl r)
  then have "k' = k \<or> (\<exists>q. GoSignHash G hk fl pad hv chv k = Some (q, k'))"
    by (auto simp: ksp_SignHash_def split_beta Let_def split: if_splits option.splits)
  then show ?thesis using GoSignHash_origin [OF inv origin] origin by metis
qed (use origin in \<open>auto simp: ksp_FreeProvider_def ksp_FreeKey_def ksp_FreeBuffer_def ksp_unsupported_def
    GoFreeHandle_def origin_ok_def\<close>)

lemma reachable_origin:
  assumes "reachable G w n (k :: 'w::len ksp)" and "w_sent w = []" and "n < 2 ^ LENGTH('w) - 1"
  shows "origin_ok G (w_os w) k"
  using assms
proof (induction rule: reachable.induct)
  case Start
  then show ?case by (simp add: origin_ok_def initial_ksp_def)
next
  case (Step n k k')
  then have "n < 2 ^ LENGTH('w) - 1" by simp
  with Step reachable_inv [OF Step.hyps(1)] step_origin [OF Step.hyps(2)] show ?case by blast
qed

lemma reachable_room:
  assumes "reachable G w n (k :: 'w::len ksp)" and "w_sent w = []" and "Suc n < 2 ^ LENGTH('w) - 1"
  shows "ksp_inv k" and "ksp_room k"
proof -
  from assms reachable_inv [OF assms(1,2)] have "ksp_inv k" "unat (rg_next (k_registry k)) \<le> Suc n" by auto
  with assms(3) unat_minus_1 [where 'w = 'w] show "ksp_inv k" "ksp_room k" by (auto simp: registry_room_def)
qed

lemma LoadConfig_url:
  assumes "LoadConfig G env = Inr cfg"
  shows "\<exists>scheme host. rt_url G (ServerURL cfg) = Inr (scheme, host) \<and> to_lower G scheme \<in> {''http'', ''https''}"
  using assms unfolding LoadConfig_def
  by (elim loadConfigFrom_Inr) (auto simp: validate_None valid_url_def)

lemma NewClient_settings:
  assumes "NewClient G env cfg = Inr c"
  shows "cl_BaseURL c = trim_right_char CHR ''/'' (ServerURL cfg)"
    and "cl_MinVersion c = VersionTLS12" and "cl_SkipVerify c = SkipVerify (TLS cfg)"
    and "case cl_RootCAs c of None \<Rightarrow> CACertPath (TLS cfg) = ''''
      | Some cert \<Rightarrow> os_file env (CACertPath (TLS cfg)) = FileData cert \<and> rt_cert_pool G cert"
  using assms by (auto simp: NewClient_def Let_def split: if_splits file_result.splits)

section \<open>A sample process\<close>

text \<open>The host opens a provider, then the key of the first signer.\<close>

lemma sample_world_silent: "w_sent sample_world = []"
  by (simp add: sample_world_def)

lemma sample_opened_reachable: "reachable sample_rt sample_world 1 sample_opened"
proof -
  have "ksp_step sample_rt sample_ksp sample_opened"
    unfolding sample_opened_def
    by (rule ksp_step.OpenProvider [where r = "fst (ksp_OpenProvider sample_rt 0 sample_ksp)"]) (simp add: prod_eq_iff)
  moreover have "reachable sample_rt sample_world 0 sample_ksp"
    unfolding sample_ksp_def by (rule reachable.Start)
  ultimately show ?thesis unfolding One_nat_def by (metis reachable.Step)
qed

lemma sample_keyed_reachable: "reachable sample_rt sample_world 2 sample_keyed"
proof -
  have "ksp_step sample_rt sample_opened sample_keyed"
    unfolding sample_keyed_def
    by (rule ksp_step.OpenKey [where r = "fst (ksp_OpenKey sample_rt 1 0 (Some (wide ''app'')) sample_opened)"])
      (simp add: prod_eq_iff)
  with sample_opened_reachable show ?thesis unfolding numeral_2_eq_2 One_nat_def by (rule reachable.Step)
qed

lemma sample_keyed_status: "fst (fst (ksp_OpenKey sample_rt 1 0 (Some (wide ''app'')) sample_opened)) = statusSuccess"
  by (simp add: sample_open_key)

section \<open>Properties\<close>

text \<open>C6: However the host calls the entries, as long as it made fewer calls than there are handles:
  the null handle names nothing; every live handle names a provider whose session exists or a key
  bound to such a session whose family and curve agree with its public key; and the next handle to
  be handed out is neither null nor the name of a live object.\<close>

theorem reachable_state:
  assumes "reachable G w n (k :: 'w::len ksp)" and "w_sent w = []" and "Suc n < 2 ^ LENGTH('w) - 1"
  shows "lookupHandle 0 (k_registry k) = None \<and>
    (\<forall>h i. lookupHandle h (k_registry k) = Some (Provider i) \<longrightarrow> i < length (k_sessions k)) \<and>
    (\<forall>h ks. lookupHandle h (k_registry k) = Some (Key ks) \<longrightarrow> ks_prov ks < length (k_sessions k) \<and> key_ok ks) \<and>
    (\<forall>v h r. registerHandle v (k_registry k) = (h, r) \<longrightarrow> h \<noteq> 0 \<and> lookupHandle h (k_registry k) = None)"
proof -
  note inv = reachable_room(1) [OF assms] and room = reachable_room(2) [OF assms]
  have reg: "registry_invar (k_registry k)" using inv by (simp add: ksp_inv_def ksp_ok_def)
  then show ?thesis
    using live_provider [OF inv] live_key [OF inv] registry.null_free [OF reg]
      registry.register_nonzero [OF reg room] registry.register_fresh [OF reg room] by blast
qed

theorem reachable_state_witness:
  "\<exists>h. registerHandle (Provider 0) (k_registry sample_keyed) = (h, snd (registerHandle (Provider 0) (k_registry sample_keyed)))
     \<and> h \<noteq> 0 \<and> lookupHandle h (k_registry sample_keyed) = None"
  using reachable_state [OF sample_keyed_reachable sample_world_silent] by (simp add: prod_eq_iff)

text \<open>C7: Whatever a process sends goes to the server of the configuration it loaded, an http or https
  URL. Its client is set up so that TLS, where the URL asks for it, is 1.2 or later, with the
  server's certificate verified unless the configuration says otherwise, against the system's roots
  or those of the configured file; an http URL is accepted too, and there nothing is encrypted. A
  request carries a token unless it is the login with the configured credentials; with token auth no
  login is sent.\<close>

theorem request_authorized:
  assumes "reachable G w n (k :: 'w::len ksp)" and "w_sent w = []" and "n < 2 ^ LENGTH('w) - 1"
    and "rq \<in> set (w_sent (k_world k))"
  shows "\<exists>cfg c. LoadConfig G (w_os w) = Inr cfg \<and> NewClient G (w_os w) cfg = Inr c \<and>
    rq_Client rq = c \<and> cl_BaseURL c = trim_right_char CHR ''/'' (ServerURL cfg) \<and>
    (\<exists>scheme host. rt_url G (ServerURL cfg) = Inr (scheme, host) \<and> to_lower G scheme \<in> {''http'', ''https''}) \<and>
    cl_MinVersion c = VersionTLS12 \<and> cl_SkipVerify c = SkipVerify (TLS cfg) \<and>
    (case cl_RootCAs c of None \<Rightarrow> CACertPath (TLS cfg) = ''''
     | Some cert \<Rightarrow> os_file (w_os w) (CACertPath (TLS cfg)) = FileData cert \<and> rt_cert_pool G cert) \<and>
    (rq_AuthToken rq = None \<longrightarrow> Method (Auth cfg) \<noteq> AuthMethodToken \<and>
      rq = login_request c (ClientID (Auth cfg)) (ClientSecret (Auth cfg))) \<and>
    (rq_AuthToken rq \<noteq> None \<longrightarrow> rq_Path rq \<noteq> ''/api/v1/auth/universal-auth/login'')"
proof -
  have "traffic_ok k" using reachable_inv [OF assms(1-3)] by (simp add: ksp_inv_def)
  with assms(4) obtain s where s: "s \<in> set (k_sessions k)" "session_request s rq" by (auto simp: traffic_ok_def)
  from reachable_origin [OF assms(1-3)] s(1)
  have cfg: "LoadConfig G (w_os w) = Inr (s_cfg s)" "NewClient G (w_os w) (s_cfg s) = Inr (s_client s)"
    by (auto simp: origin_ok_def)
  moreover note NewClient_settings [OF cfg(2)] LoadConfig_url [OF cfg(1)]
  moreover from s(2) have "rq_Client rq = s_client s"
    and "rq_AuthToken rq = None \<Longrightarrow> Method (Auth (s_cfg s)) \<noteq> AuthMethodToken \<and>
      rq = login_request (s_client s) (ClientID (Auth (s_cfg s))) (ClientSecret (Auth (s_cfg s)))"
    and "rq_AuthToken rq \<noteq> None \<Longrightarrow> rq_Path rq \<noteq> ''/api/v1/auth/universal-auth/login''"
    by (auto simp: session_request_def split: option.splits)
  ultimately show ?thesis
    by (intro exI [of _ "s_cfg s"] exI [of _ "s_client s"] conjI impI) simp_all
qed

theorem request_authorized_witness:
  "list_all (\<lambda>rq. cl_BaseURL (rq_Client rq) = ''https://ksp'' \<and> \<not> cl_SkipVerify (rq_Client rq))
     (w_sent (k_world sample_keyed)) \<and>
   length (w_sent (k_world sample_keyed)) = 2"
proof -
  have two: "length (w_sent (k_world sample_keyed)) = 2" by (simp add: sample_keyed_eq keyed_world_def)
  have cfg: "LoadConfig sample_rt sample_env = Inr loaded_config"
    "trim_right_char CHR ''/'' (ServerURL loaded_config) = ''https://ksp''" "\<not> SkipVerify (TLS loaded_config)"
    by (simp_all add: sample_load loaded_config_eq) (simp_all add: loaded_config_def trim_right_char_def)
  have "cl_BaseURL (rq_Client rq) = ''https://ksp'' \<and> \<not> cl_SkipVerify (rq_Client rq)" if "rq \<in> set (w_sent (k_world sample_keyed))" for rq
    using request_authorized [OF sample_keyed_reachable sample_world_silent _ that] cfg
    by (auto simp: sample_world_def simp del: not_None_eq)
  with two show ?thesis by (simp add: list_all_iff)
qed

end
