(* ===== verification/Signing.thy ===== *)
theory Signing
  imports Session_Calls Sample Cng_Algorithm
begin

text \<open>
  The behaviour of \<open>Session.Sign\<close>, \<open>ensureToken\<close>, \<open>FindSigner\<close> and \<open>PublicKey\<close>
  (\<open>internal/infisical/session.go\<close>) on every branch: what is sent, what is returned, and what the
  caches save.
\<close>

section \<open>The sign request\<close>

text \<open>
  The sign call decided by the reply of the server: the abstract view of \<open>client_Sign\<close> and
  \<open>autoRequestOnDenial\<close>.
\<close>

definition denial_code :: "go_rt \<Rightarrow> string \<Rightarrow> string" where
  "denial_code G body = eb_Error (fst (decode_error_body G body))"

definition denial_pending :: "go_rt \<Rightarrow> string \<Rightarrow> bool" where
  "denial_pending G body = eb_HasPendingRequest (fst (decode_error_body G body))"

definition approval_configured :: "approval_config \<Rightarrow> bool" where
  "approval_configured cfg \<longleftrightarrow> SigningCount cfg \<noteq> 0 \<or> SigningDuration cfg \<noteq> ''''"

definition approval_due :: "go_rt \<Rightarrow> approval_config \<Rightarrow> http_reply \<Rightarrow> bool" where
  "approval_due G cfg reply = (case reply of
       HttpFailed err \<Rightarrow> False
     | HttpReply status body out \<Rightarrow> status = 403 \<and> denial_code G body = ErrorCodeApprovalRequired \<and>
         \<not> denial_pending G body \<and> approval_configured cfg)"

text \<open>The parameters of the approval request, as the configuration and the denied call give them.\<close>

definition approval_for :: "go_rt \<Rightarrow> approval_config \<Rightarrow> signing_context \<Rightarrow> byte list \<Rightarrow> approval_params" where
  "approval_for G cfg signCtx digest =
     \<lparr>ap_Justification = approvalJustification (sc_Hostname signCtx),
      ap_RequestedSignings = (if 0 < SigningCount cfg then SigningCount cfg else 0),
      ap_RequestedWindowDuration = SigningDuration cfg,
      ap_Scope = RequestScope signCtx (hex_encode (sha256 digest)) (ExcludeScopeFields cfg) (IPAddress cfg)\<rparr>"

lemma requestApproval_eq:
  "requestApproval G s token signerID signCtx (hex_encode (sha256 digest)) =
     RequestApproval G (s_client s) token signerID (approval_for G (Approval (s_cfg s)) signCtx digest)"
  by (rule ext) (simp add: requestApproval_def approval_for_def Let_def)

lemma as_api_newAPIError [simp]:
  "\<exists>a. newAPIError G op status body = APIError a \<and> ae_StatusCode a = status \<and>
     ae_Code a = denial_code G body \<and> ae_HasPendingRequest a = denial_pending G body"
  by (simp add: newAPIError_def denial_code_def denial_pending_def split_beta Let_def)

text \<open>What becomes of an error reply to the sign request.\<close>

lemma autoRequestOnDenial_api:
  assumes "signErr = APIError a"
  shows "autoRequestOnDenial G s token signerID signCtx digest signErr w =
    (if \<not> (ae_StatusCode a = 403 \<and> ae_Code a = ErrorCodeApprovalRequired) then (signErr, w)
     else if ae_HasPendingRequest a then (ApprovalRequestPendingError signErr, w)
     else if \<not> approval_configured (Approval (s_cfg s)) then (ApprovalNotConfiguredError signErr, w)
     else (case RequestApproval G (s_client s) token signerID
             (approval_for G (Approval (s_cfg s)) signCtx digest) w of
         (Inl err, w) \<Rightarrow> (ApprovalRequestFailedError signErr err, w)
       | (Inr (i, status), w) \<Rightarrow> (ApprovalRequestOpenedError signErr i status, w)))"
  unfolding assms
  by (simp add: autoRequestOnDenial_def IsApprovalRequired_def approval_configured_def requestApproval_eq)

lemma autoRequestOnDenial_silent:
  assumes "\<not> (ae_StatusCode a = 403 \<and> ae_Code a = ErrorCodeApprovalRequired \<and> \<not> ae_HasPendingRequest a \<and>
    approval_configured (Approval (s_cfg s)))"
  shows "snd (autoRequestOnDenial G s token signerID signCtx digest (APIError a) w) = w"
  using assms by (auto simp: autoRequestOnDenial_api [OF refl])

lemma autoRequestOnDenial_none:
  "as_api signErr = None \<Longrightarrow> autoRequestOnDenial G s token signerID signCtx digest signErr w = (signErr, w)"
  by (simp add: autoRequestOnDenial_def)

text \<open>Opening a request sends one request, whatever comes of it.\<close>

lemma autoRequestOnDenial_sent:
  assumes "signErr = APIError a" and "ae_StatusCode a = 403" "ae_Code a = ErrorCodeApprovalRequired"
    and "\<not> ae_HasPendingRequest a" "approval_configured (Approval (s_cfg s))"
  shows "w_sent (snd (autoRequestOnDenial G s token signerID signCtx digest signErr w)) =
    w_sent w @ [approval_request (s_client s) token signerID (approval_for G (Approval (s_cfg s)) signCtx digest)]"
  using assms request_approval.run_sent
  by (auto simp: autoRequestOnDenial_api split: prod.splits sum.splits) (metis snd_conv)+

text \<open>\<open>errors.As\<close> sees the API error of the sign call through every outcome.\<close>

lemma autoRequestOnDenial_as_api:
  "as_api (fst (autoRequestOnDenial G s token signerID signCtx digest signErr w)) = as_api signErr"
  by (auto simp: autoRequestOnDenial_def pending.as_api_wrap not_configured.as_api_wrap
      request_failed.as_api_wrap opened.as_api_wrap split: option.splits prod.splits sum.splits)

lemma autoRequestOnDenial_outcome:
  assumes "as_api signErr = Some a" and "IsApprovalRequired a"
  shows "IsApprovalOutcome (fst (autoRequestOnDenial G s token signerID signCtx digest signErr w))"
  using assms
  by (auto simp: autoRequestOnDenial_def pending.IsApprovalOutcome_wrap not_configured.IsApprovalOutcome_wrap
      request_failed.IsApprovalOutcome_wrap opened.IsApprovalOutcome_wrap split: prod.splits sum.splits)

section \<open>What a sign call sends and returns\<close>

lemma Sign_after_token:
  assumes "ensureToken G s w = (Inr token, s1, w1)" and "current_context G w1 = (ctx, w2)"
  shows "Sign G signerID algorithm digest s w =
    (case client_Sign G (s_client s1) token signerID (sign_params ctx algorithm digest) w2 of
       (Inl err, w3) \<Rightarrow>
         (let (err, w4) = autoRequestOnDenial G s1 token signerID ctx digest err w3 in (Inl err, s1, w4))
     | (Inr sigB64, w3) \<Rightarrow>
         (case b64_decode sigB64 of
            None \<Rightarrow> (Inl (StdError ''illegal base64 data''), s1, w3)
          | Some sig \<Rightarrow> (Inr sig, s1, w3)))"
  by (simp add: Sign_def assms)

lemma current_context_frame:
  assumes "current_context G w = (ctx, w')"
  shows "w_server w' = w_server w" "w_sent w' = w_sent w" "w_signingCtx w' = Some ctx" "w_time w' = w_time w"
    "w_ticks w' = w_ticks w"
  using assms by (auto simp: current_context_def CurrentSigningContext_def Let_def split: option.splits)

text \<open>The three replies to the sign request, each with what the session makes of it.\<close>

lemma client_Sign_reply:
  "client_Sign G c token signerID p w = (case w_server w (w_sent w) (sign_request c token signerID p) of
       HttpFailed err \<Rightarrow> (Inl (RequestError ''sign'' err), snd (send (sign_request c token signerID p) w))
     | HttpReply status body out \<Rightarrow>
         (if 399 < status then Inl (newAPIError G ''sign'' status body) else Inr (decode_signature G out),
          snd (send (sign_request c token signerID p) w)))"
  by (simp add: client_Sign_def send_def call_result_def split: http_reply.splits)

lemma Sign_reply:
  fixes G s w token s1 w1 ctx w2 signerID algorithm digest
  assumes token: "ensureToken G s w = (Inr token, s1, w1)" and ctx: "current_context G w1 = (ctx, w2)"
  defines "rq \<equiv> sign_request (s_client s) token signerID (sign_params ctx algorithm digest)"
  defines "w3 \<equiv> snd (send rq w2)"
  shows "Sign G signerID algorithm digest s w = (case w_server w (w_sent w1) rq of
      HttpFailed err \<Rightarrow>
        (let (err, w4) = autoRequestOnDenial G s1 token signerID ctx digest (RequestError ''sign'' err) w3
         in (Inl err, s1, w4))
    | HttpReply status body out \<Rightarrow>
        if 399 < status then
          (let (err, w4) = autoRequestOnDenial G s1 token signerID ctx digest (newAPIError G ''sign'' status body) w3
           in (Inl err, s1, w4))
        else (case b64_decode (decode_signature G out) of
            None \<Rightarrow> (Inl (StdError ''illegal base64 data''), s1, w3)
          | Some sig \<Rightarrow> (Inr sig, s1, w3)))"
proof -
  have "s_client s1 = s_client s" and "w_server w1 = w_server w"
    using ensure_token.op_frame [OF token] ensure_token.op_world [OF token] by (auto simp: world_step_def)
  then show ?thesis
    using current_context_frame [OF ctx]
    by (simp add: Sign_after_token [OF token ctx] client_Sign_reply rq_def w3_def
        split: http_reply.splits option.splits)
qed

definition transport_errors :: "world \<Rightarrow> bool" where
  "transport_errors w \<longleftrightarrow> (\<forall>sent rq err. w_server w sent rq = HttpFailed err \<longrightarrow> local_error err)"

lemma transport_errorsD: "transport_errors w \<Longrightarrow> w_server w sent rq = HttpFailed err \<Longrightarrow> local_error err"
  by (auto simp: transport_errors_def)

lemma transport_errors_step: "world_step s w w' \<Longrightarrow> transport_errors w' = transport_errors w"
  by (simp add: transport_errors_def world_step_def)

lemma sample_transport_errors: "transport_errors sample_world"
  by (simp add: transport_errors_def sample_transport)

lemma sent_Sign:
  fixes G s w token s1 w1 ctx w2 signerID algorithm digest
  assumes token: "ensureToken G s w = (Inr token, s1, w1)" and ctx: "current_context G w1 = (ctx, w2)"
    and transport: "transport_errors w"
  defines "rq \<equiv> sign_request (s_client s) token signerID (sign_params ctx algorithm digest)"
  shows "w_sent (snd (snd (Sign G signerID algorithm digest s w))) = w_sent w1 @ [rq] @
    (if approval_due G (Approval (s_cfg s)) (w_server w (w_sent w1) rq)
     then [approval_request (s_client s) token signerID (approval_for G (Approval (s_cfg s)) ctx digest)] else [])"
proof (cases "w_server w (w_sent w1) rq")
  case (HttpFailed err)
  with transport have "as_api (RequestError ''sign'' err) = None"
    by (auto dest: transport_errorsD simp: local_error_def)
  with HttpFailed show ?thesis
    using current_context_frame [OF ctx]
    by (simp add: Sign_reply [OF token ctx] rq_def [symmetric] approval_due_def send_def
        autoRequestOnDenial_none split_beta)
next
  case (HttpReply status body out)
  have same: "s_client s1 = s_client s" "s_cfg s1 = s_cfg s"
    using ensure_token.op_frame [OF token] by auto
  obtain a where a: "newAPIError G ''sign'' status body = APIError a" "ae_StatusCode a = status"
    "ae_Code a = denial_code G body" "ae_HasPendingRequest a = denial_pending G body"
    using as_api_newAPIError by blast
  note call = Sign_reply [OF token ctx, of signerID algorithm digest, folded rq_def, unfolded HttpReply, simplified]
  show ?thesis
  proof (cases "approval_due G (Approval (s_cfg s)) (w_server w (w_sent w1) rq)")
    case True
    with HttpReply have "status = 403" "denial_code G body = ErrorCodeApprovalRequired"
      "\<not> denial_pending G body" "approval_configured (Approval (s_cfg s1))"
      by (auto simp: approval_due_def same)
    with a autoRequestOnDenial_sent [OF a(1), of s1 G token signerID ctx digest] True show ?thesis
      using current_context_frame [OF ctx] by (simp add: call split_beta send_def same)
  next
    case False
    with HttpReply a have "snd (autoRequestOnDenial G s1 token signerID ctx digest
        (newAPIError G ''sign'' status body) w') = w'" for w'
      unfolding a(1) by (intro autoRequestOnDenial_silent) (auto simp: approval_due_def same)
    with False show ?thesis
      using current_context_frame [OF ctx]
      by (auto simp: call split_beta send_def split: option.splits)
  qed
qed

lemma Sign_Inr:
  assumes "Sign G signerID algorithm digest s w = (Inr sig, s', w')"
  obtains token s1 w1 ctx w2 status body out where
    "ensureToken G s w = (Inr token, s1, w1)" "current_context G w1 = (ctx, w2)"
    "w_server w (w_sent w1) (sign_request (s_client s) token signerID (sign_params ctx algorithm digest)) =
       HttpReply status body out"
    "status \<le> 399" "b64_decode (decode_signature G out) = Some sig"
    "w_sent w' = w_sent w1 @ [sign_request (s_client s) token signerID (sign_params ctx algorithm digest)]"
proof -
  obtain tr s1 w1 where token: "ensureToken G s w = (tr, s1, w1)" by (cases "ensureToken G s w")
  with assms obtain token where tr: "tr = Inr token" by (cases tr) (auto simp: Sign_def)
  obtain ctx w2 where ctx: "current_context G w1 = (ctx, w2)" by (cases "current_context G w1")
  note reply = Sign_reply [OF token [unfolded tr] ctx, of signerID algorithm digest]
  let ?rq = "sign_request (s_client s) token signerID (sign_params ctx algorithm digest)"
  show thesis
  proof (cases "w_server w (w_sent w1) ?rq")
    case (HttpFailed err)
    with assms reply show ?thesis by (simp add: split_beta)
  next
    case (HttpReply status body out)
    with assms reply have ok: "status \<le> 399" "b64_decode (decode_signature G out) = Some sig"
        "w' = snd (send ?rq w2)"
      by (auto simp: split_beta split: if_splits option.splits)
    show ?thesis
      by (rule that [OF token [unfolded tr] ctx HttpReply ok(1,2)])
        (use ok(3) current_context_frame [OF ctx] in \<open>simp add: send_def\<close>)
  qed
qed

text \<open>An error of a sign call is classified by the reply alone.\<close>

lemma Sign_status_error:
  assumes token: "ensureToken G s w = (Inr token, s1, w1)" and ctx: "current_context G w1 = (ctx, w2)"
    and reply: "w_server w (w_sent w1) (sign_request (s_client s) token signerID (sign_params ctx algorithm digest)) =
       HttpReply status body out" and err: "399 < status"
  obtains e a w' where "Sign G signerID algorithm digest s w = (Inl e, s1, w')" "as_api e = Some a"
    "ae_StatusCode a = status"
    "status = 403 \<and> denial_code G body = ErrorCodeApprovalRequired \<longrightarrow> IsApprovalOutcome e"
proof -
  obtain a where a: "newAPIError G ''sign'' status body = APIError a" "ae_StatusCode a = status"
    "ae_Code a = denial_code G body"
    using as_api_newAPIError by blast
  let ?w3 = "snd (send (sign_request (s_client s) token signerID (sign_params ctx algorithm digest)) w2)"
  obtain e w' where e: "autoRequestOnDenial G s1 token signerID ctx digest (APIError a) ?w3 = (e, w')"
    by (cases "autoRequestOnDenial G s1 token signerID ctx digest (APIError a) ?w3")
  have "as_api e = Some a"
    using autoRequestOnDenial_as_api [of G s1 token signerID ctx digest "APIError a" ?w3] by (simp add: e)
  moreover have "status = 403 \<and> denial_code G body = ErrorCodeApprovalRequired \<longrightarrow> IsApprovalOutcome e"
    using autoRequestOnDenial_outcome [of "APIError a" a G s1 token signerID ctx digest ?w3] a
    by (auto simp: e IsApprovalRequired_def)
  ultimately show thesis
    using that [of e w' a] a err e reply by (simp add: Sign_reply [OF token ctx])
qed

text \<open>What an approval denial becomes: the outcome the caller sees around the API error.\<close>

definition denied_as :: "go_error \<Rightarrow> bool \<Rightarrow> bool \<Rightarrow> (string \<times> string) result \<Rightarrow> go_error" where
  "denied_as err pending configured opened =
     (if pending then ApprovalRequestPendingError err
      else if \<not> configured then ApprovalNotConfiguredError err
      else (case opened of
          Inl requestErr \<Rightarrow> ApprovalRequestFailedError err requestErr
        | Inr (requestID, status) \<Rightarrow> ApprovalRequestOpenedError err requestID status))"

lemma Sign_denied:
  assumes token: "ensureToken G s w = (Inr token, s1, w1)" and ctx: "current_context G w1 = (ctx, w2)"
    and rq: "rq = sign_request (s_client s) token signerID (sign_params ctx algorithm digest)"
    and err: "err = newAPIError G ''sign'' 403 body"
    and reply: "w_server w (w_sent w1) rq = HttpReply 403 body out"
  shows "\<exists>w'. Sign G signerID algorithm digest s w = (Inl
    (if denial_code G body = ErrorCodeApprovalRequired
     then denied_as err (denial_pending G body) (approval_configured (Approval (s_cfg s)))
       (fst (RequestApproval G (s_client s) token signerID (approval_for G (Approval (s_cfg s)) ctx digest)
         (snd (send rq w2))))
     else err), s1, w')"
proof -
  obtain a where a: "err = APIError a" "ae_StatusCode a = 403" "ae_Code a = denial_code G body"
    "ae_HasPendingRequest a = denial_pending G body"
    using as_api_newAPIError unfolding err by blast
  have "s_cfg s1 = s_cfg s" "s_client s1 = s_client s" using ensure_token.op_frame [OF token] by simp_all
  then have "fst (autoRequestOnDenial G s1 token signerID ctx digest err (snd (send rq w2))) =
      (if denial_code G body = ErrorCodeApprovalRequired
       then denied_as err (denial_pending G body) (approval_configured (Approval (s_cfg s)))
         (fst (RequestApproval G (s_client s) token signerID (approval_for G (Approval (s_cfg s)) ctx digest)
           (snd (send rq w2))))
       else err)"
    by (simp add: autoRequestOnDenial_api [OF a(1)] a(2-4) denied_as_def split_beta split: prod.splits sum.splits)
  then show ?thesis
    by (simp add: Sign_reply [OF token ctx] reply [unfolded rq] rq err [symmetric] split_beta Let_def)
qed

section \<open>Authentication\<close>

lemma ensureToken_universal:
  assumes "Method (Auth (s_cfg s)) \<noteq> AuthMethodToken" and "s_token s = ''''"
  shows "ensureToken G s w = (case cachedAuthFailure (auth_key s) w of
      (Some err, w) \<Rightarrow> (Inl err, s, w) | (None, w) \<Rightarrow> login_session G s w)"
  using assms by (simp add: ensureToken_def token_fresh_def)

lemma cachedAuthFailure_hit:
  "auth_failure_at key w (clock w) = Some err \<Longrightarrow> cachedAuthFailure key w = (Some err, snd (now w))"
  by (auto simp: auth_failure_at_def cachedAuthFailure_def split_beta Let_def split: option.splits if_splits)

text \<open>A login that was refused is in the failure cache, until ten seconds after it was refused.\<close>

lemma login_session_failed:
  assumes "login_session G s w = (Inl err, s1, w1)"
  shows "s1 = s \<and> auth_failure_at (auth_key s) w1 t =
    (if t < w_time w (w_ticks w1 - 1) + authFailureCacheTTL then Some err else None)"
proof -
  have rec: "auth_failure_at key (recordAuthFailure key e v) t =
      (if t < w_time v (w_ticks (recordAuthFailure key e v) - 1) + authFailureCacheTTL then Some e else None)"
    for key e v
    by (simp add: recordAuthFailure_at) (simp add: recordAuthFailure_def now_def Let_def)
  show ?thesis
    using assms rec login.run_frame(2)
    by (auto simp: login_session_def Let_def split_beta split: if_splits sum.splits)
qed

lemma ensureToken_failed:
  assumes "ensureToken G s w = (Inl err, s1, w1)" and "w_sent w1 \<noteq> w_sent w"
  shows "s1 = s" and "auth_failure_at (auth_key s) w1 t =
    (if t < w_time w (w_ticks w1 - 1) + authFailureCacheTTL then Some err else None)"
proof -
  have frame: "w_sent (snd (token_fresh q v)) = w_sent v" "w_time (snd (token_fresh q v)) = w_time v"
    "w_sent (snd (cachedAuthFailure k v)) = w_sent v" "w_time (snd (cachedAuthFailure k v)) = w_time v" for q k v
    by (auto simp: token_fresh_def cachedAuthFailure_def split_beta Let_def split: option.splits)
  let ?w2 = "snd (cachedAuthFailure (auth_key s) (snd (token_fresh s w)))"
  from assms have "login_session G s ?w2 = (Inl err, s1, w1)"
    by (auto simp: ensureToken_def split_beta Let_def frame split: if_splits option.splits)
  from login_session_failed [OF this] frame
  show "s1 = s" "auth_failure_at (auth_key s) w1 t =
    (if t < w_time w (w_ticks w1 - 1) + authFailureCacheTTL then Some err else None)"
    by auto
qed

lemma Login_token_nonempty: "fst (Login G c i p w) = Inr (token, ttl) \<Longrightarrow> token \<noteq> ''''"
  by (auto simp: Login_def call_result_def Let_def split_beta split: http_reply.splits if_splits)

text \<open>A token handed out with Universal Auth is the one in the slot, read or just stored.\<close>

lemma login_session_Inr:
  "login_session G s w = (Inr token, s1, w1) \<Longrightarrow> token \<noteq> '''' \<and> s_token s1 = token"
  by (auto simp: login_session_def Let_def split_beta split: if_splits sum.splits dest: Login_token_nonempty)

lemma ensureToken_slot:
  assumes "ensureToken G s w = (Inr token, s1, w1)" and "Method (Auth (s_cfg s)) \<noteq> AuthMethodToken"
  shows "token \<noteq> '''' \<and> s_token s1 = token"
proof (cases "fst (token_fresh s w)")
  case True
  with assms show ?thesis by (auto simp: ensureToken_def split_beta Let_def token_fresh_def split: if_splits)
next
  case False
  with assms have "\<exists>w2. login_session G s w2 = (Inr token, s1, w1)"
    by (auto simp: ensureToken_def split_beta Let_def split: option.splits)
  then show ?thesis using login_session_Inr by blast
qed

lemma ensureToken_hit:
  assumes "Method (Auth (s_cfg s)) \<noteq> AuthMethodToken" and "token_at s (clock w) = Some token"
  shows "ensureToken G s w = (Inr token, s, snd (now w))"
  using assms by (auto simp: ensureToken_def token_fresh_def token_at_def Let_def split_beta split: if_splits)

section \<open>Signers and public keys\<close>

lemma Signers_hit:
  assumes "signers_at s (clock w) = Some sgs"
  shows "Signers G s w = (Inr (Some sgs), s, snd (now w))"
  using assms by (auto simp: Signers_def signers_fresh_def signers_at_def Let_def split_beta split: if_splits)

lemma Signers_slot:
  assumes "Signers G s w = (Inr signers, s1, w1)"
  shows "s_signers s1 = signers"
  using assms by (auto simp: Signers_def Let_def split_beta split: if_splits sum.splits)

text \<open>The first signer of the list whose name or ID is the one asked for.\<close>

lemma find_first: "find P xs = Some x \<longleftrightarrow> (\<exists>as bs. xs = as @ x # bs \<and> P x \<and> (\<forall>a \<in> set as. \<not> P a))"
proof (induction xs)
  case (Cons y ys)
  show ?case
  proof (cases "P y")
    case True
    then show ?thesis by (auto simp: Cons_eq_append_conv)
  next
    case False
    with Cons show ?thesis by (auto simp: Cons_eq_append_conv) (metis Cons_eq_appendI set_ConsD)+
  qed
qed simp

lemma FindSigner_result:
  "FindSigner G nameOrID s w = (case Signers G s w of
      (Inl err, s, w) \<Rightarrow> (Inl err, s, w)
    | (Inr signers, s, w) \<Rightarrow>
        (case find (\<lambda>sg. nameOrID \<in> {sg_Name sg, sg_ID sg}) (slice signers) of
           Some sg \<Rightarrow> (Inr sg, s, w)
         | None \<Rightarrow> (Inl (Errorf (''no signer named '' @ go_quote G nameOrID @ '' is available to this identity'')), s, w)))"
  by (simp add: FindSigner_def eq_commute cong: sum.case_cong option.case_cong)

lemma PublicKey_hit:
  assumes "pub_key_at signerID s (clock w) = Some key"
  shows "PublicKey G signerID s w = (Inr key, s, snd (now w))"
  using assms
  by (auto simp: PublicKey_def pub_key_lookup_def pub_key_at_def Let_def split_beta split: if_splits option.splits)

lemma PublicKey_slot:
  assumes "PublicKey G signerID s w = (Inr key, s1, w1)"
  obtains e where "s_pubKeys s1 signerID = Some \<lparr>pk_key = key, pk_expiresAt = e\<rparr>"
proof (cases "fst (pub_key_lookup signerID s w)")
  case (Some k)
  with assms have "s1 = s" "key = k" by (simp_all add: PublicKey_def split_beta)
  with Some obtain entry where "s_pubKeys s1 signerID = Some entry" "pk_key entry = key"
    by (auto simp: pub_key_lookup_fst pub_key_at_def split: option.splits if_splits)
  then show ?thesis by (intro that [of "pk_expiresAt entry"]) simp
next
  case None
  with assms show ?thesis
    by (auto simp: PublicKey_def split_beta Let_def split: sum.splits intro: that)
qed

text \<open>Where a public key comes from: the cache, or the certificate the server returned for the signer.\<close>

lemma PublicKey_source:
  assumes "PublicKey G signerID s w = (Inr key, s1, w1)"
  obtains (cached) "pub_key_at signerID s (clock w) = Some key" "s1 = s"
  | (fetched) token s2 w2 status body out where
      "ensureToken G s (snd (pub_key_lookup signerID s w)) = (Inr token, s2, w2)"
      "w_server w (w_sent w2) (certificate_request (s_client s) token signerID) = HttpReply status body out"
      "status \<le> 399" "publicKeyFromCertPEM G (cr_CertificatePem (decode_cert G out)) = Inr key"
proof (cases "fst (pub_key_lookup signerID s w)")
  case (Some k)
  with assms show ?thesis by (auto simp: PublicKey_def split_beta pub_key_lookup_fst intro: cached)
next
  case None
  let ?w1 = "snd (pub_key_lookup signerID s w)"
  obtain tr s2 w2 where token: "ensureToken G s ?w1 = (tr, s2, w2)" by (cases "ensureToken G s ?w1")
  with assms None obtain t where t: "tr = Inr t" by (cases tr) (auto simp: PublicKey_def split_beta)
  have client: "s_client s2 = s_client s" using ensure_token.op_frame [OF token] by simp
  have server: "w_server w2 = w_server w"
    using ensure_token.op_world [OF token] world_step_reads(3) [of s w signerID s] by (simp add: world_step_def)
  obtain certPEM where pem: "fst (GetCertificate G (s_client s) t signerID w2) = Inr certPEM"
    and key: "publicKeyFromCertPEM G certPEM = Inr key"
    using assms None token t client
    by (auto simp: PublicKey_def split_beta Let_def split: sum.splits)
  from pem obtain status body out where
    "w_server w (w_sent w2) (certificate_request (s_client s) t signerID) = HttpReply status body out"
    "status \<le> 399" "certPEM = cr_CertificatePem (decode_cert G out)"
    by (auto simp: GetCertificate_def call_result_def send_def server split: http_reply.splits if_splits)
  with key show ?thesis using fetched token t by blast
qed

section \<open>Properties\<close>

text \<open>C4: Once a token is at hand, signing sends exactly the sign request, and after it an
  approval request if and only if the server answered 403 with the code ApprovalRequired, has no
  pending request and the configuration asks for requests to be opened; the approval request is
  for the same signer, with the same token, scoped to the digest that was refused.\<close>

theorem sign_requests:
  assumes "ensureToken G s w = (Inr token, s1, w1)" and "transport_errors w"
  shows "let ctx = fst (current_context G w1);
      rq = sign_request (s_client s) token signerID (sign_params ctx algorithm digest)
    in w_sent (snd (snd (Sign G signerID algorithm digest s w))) = w_sent w1 @ [rq] @
      (if approval_due G (Approval (s_cfg s)) (w_server w (w_sent w1) rq)
       then [approval_request (s_client s) token signerID (approval_for G (Approval (s_cfg s)) ctx digest)]
       else [])"
proof -
  obtain ctx w2 where ctx: "current_context G w1 = (ctx, w2)" by (cases "current_context G w1")
  show ?thesis using sent_Sign [OF assms(1) ctx assms(2)] by (simp add: Let_def ctx)
qed

lemma sample_context: "fst (current_context sample_rt sample_world) = observe_context sample_rt sample_env"
  by (simp add: current_context_def CurrentSigningContext_def sample_world_def Let_def)

lemma sample_denied:
  "w_server sample_world sent (sign_request (s_client sample_session) token ''s2'' p) = HttpReply 403 denied_body None"
  by (simp add: sample_world_def sample_reply_def sign_request_def signer_path_def PathEscape_def segment_char_def)

lemma sample_denial: "decode_error_body sample_rt denied_body =
    (\<lparr>eb_Message = ''approval required'', eb_Error = ''ApprovalRequired'', eb_HasPendingRequest = False\<rparr>, True)"
  by (simp add: decode_error_body_def denied_body_parsed denied_document_def decode_struct_def resolve_key_def
      set_error_body_def into_def decode_string_def Let_def)

lemma sample_due:
  "approval_due sample_rt (Approval (s_cfg sample_session)) (HttpReply 403 denied_body None)"
  by (simp add: approval_due_def denial_code_def denial_pending_def sample_denial ErrorCodeApprovalRequired_def
      approval_configured_def sample_session_def sample_config_def)

theorem sign_requests_witness:
  "let ctx = observe_context sample_rt sample_env; digest = [1, 2, 3] in
   w_sent (snd (snd (Sign sample_rt ''s2'' AlgECDSASHA256 digest sample_session sample_world))) =
     [sign_request (s_client sample_session) ''jwt'' ''s2'' (sign_params ctx AlgECDSASHA256 digest),
      approval_request (s_client sample_session) ''jwt'' ''s2''
        (approval_for sample_rt (Approval (s_cfg sample_session)) ctx digest)]"
  using sign_requests [OF sample_token sample_transport_errors, of sample_rt "''s2''" AlgECDSASHA256 "[1, 2, 3]"]
  by (simp add: Let_def sample_context sample_denied sample_due) (simp add: sample_world_def)

text \<open>C9: The sign request is a POST to the sign action of the signer, whose escaped path segment
  reads back as the signer's ID, and its body carries the algorithm and, declared as a digest, data
  that decodes from base64 to exactly the digest the host passed.\<close>

theorem sign_delivers:
  "let rq = sign_request c token signerID (sign_params ctx algorithm digest) in
   \<exists>segment data meta. rq_Method rq = POST \<and> rq_AuthToken rq = Some token \<and>
     rq_Path rq = ''/api/v1/cert-manager/signers/'' @ segment @ ''/sign'' \<and>
     path_unescape segment = Some signerID \<and> CHR ''/'' \<notin> set segment \<and> CHR ''?'' \<notin> set segment \<and>
     rq_Body rq = Some (JObj [(''data'', JStr data), (''signingAlgorithm'', JStr algorithm),
       (''isDigest'', JBool True), (''clientMetadata'', meta)]) \<and>
     b64_decode data = Some digest"
proof -
  have "path_unescape (PathEscape signerID) = Some signerID" "b64_decode (b64_encode digest) = Some digest"
    by (simp_all add: path.dec_enc b64.dec_enc)
  then show ?thesis
    using PathEscape_no_delimiter [of signerID]
    by (fastforce simp: sign_request_def signer_path_def sign_params_json_def sign_params_def Let_def)
qed

text \<open>C32: A token obtained with Universal Auth is handed out again without a request for as long as
  the clock reads less than the expiry stored with it.\<close>

theorem token_reuse:
  assumes "ensureToken G s w = (Inr token, s1, w1)" and "Method (Auth (s_cfg s)) \<noteq> AuthMethodToken"
    and "clock w2 < s_tokenExpiry s1"
  shows "ensureToken G s1 w2 = (Inr token, s1, snd (now w2)) \<and> w_sent (snd (now w2)) = w_sent w2"
proof -
  have "token_at s1 (clock w2) = Some token"
    using ensureToken_slot [OF assms(1,2)] assms(3) by (simp add: token_at_def)
  moreover have "Method (Auth (s_cfg s1)) \<noteq> AuthMethodToken"
    using ensure_token.op_frame [OF assms(1)] assms(2) by simp
  ultimately show ?thesis using ensureToken_hit by simp
qed

theorem token_reuse_witness:
  "let (r, s1, w1) = ensureToken sample_rt (login_session_with ''good'') sample_world
   in ensureToken sample_rt s1 w1 = (Inr ''tok'', s1, snd (now w1))"
proof -
  have universal: "Method (Auth (s_cfg (login_session_with ''good''))) \<noteq> AuthMethodToken"
    by (simp add: sample_defs)
  have early: "clock (clearAuthFailure k (snd (now (snd (send rq sample_world))))) < 270 * Second" for k rq
    by (simp add: clearAuthFailure_def send_def sample_world_def Second_def)
  from token_reuse [OF sample_accepted universal, simplified, OF early] show ?thesis
    by (simp add: sample_accepted)
qed

text \<open>C33: Whatever the server reports and whatever the configured ceiling, a token is cached for at
  least the safety margin. Where the reported lifetime is at least twice the margin (and below 2^63
  ns), and the ceiling is absent (0 or less) or at least twice the margin too, its seconds within
  9000000000 in absolute value so that they do not overflow as nanoseconds, the cached token expires
  at least the margin before the server's, and at least the margin before the ceiling.\<close>

theorem cache_expiry_bounds:
  "clock w + tokenSafetyMargin \<le> fst (cacheExpiry reported ceilingSeconds w) \<and>
   (2 * tokenSafetyMargin \<le> reported \<and> reported < 2 ^ 63 \<and> \<bar>ceilingSeconds\<bar> \<le> 9000000000 \<and>
    (ceilingSeconds \<le> 0 \<or> 60 \<le> ceilingSeconds) \<longrightarrow>
      fst (cacheExpiry reported ceilingSeconds w) \<le> clock w + reported - tokenSafetyMargin \<and>
      (0 < ceilingSeconds \<longrightarrow>
        fst (cacheExpiry reported ceilingSeconds w) \<le> clock w + ceilingSeconds * Second - tokenSafetyMargin))"
proof (intro conjI impI)
  show "clock w + tokenSafetyMargin \<le> fst (cacheExpiry reported ceilingSeconds w)"
    by (simp add: cacheExpiry_def cache_ttl_def Let_def now_def)
next
  assume assms: "2 * tokenSafetyMargin \<le> reported \<and> reported < 2 ^ 63 \<and> \<bar>ceilingSeconds\<bar> \<le> 9000000000 \<and>
    (ceilingSeconds \<le> 0 \<or> 60 \<le> ceilingSeconds)"
  have ceiling: "wrap64 (ceilingSeconds * Second) = ceilingSeconds * Second"
    using assms by (intro wrap64_id) (simp_all add: Second_def abs_le_iff)
  have margin: "wrap64 (t - tokenSafetyMargin) = t - tokenSafetyMargin"
    if "2 * tokenSafetyMargin \<le> t" "t < 2 ^ 63" for t
    using that by (intro wrap64_id) (simp_all add: tokenSafetyMargin_def Second_def)
  from assms margin ceiling show "fst (cacheExpiry reported ceilingSeconds w) \<le> clock w + reported - tokenSafetyMargin"
    "0 < ceilingSeconds \<Longrightarrow>
      fst (cacheExpiry reported ceilingSeconds w) \<le> clock w + ceilingSeconds * Second - tokenSafetyMargin"
    by (auto simp: cacheExpiry_def cache_ttl_def Let_def tokenSafetyMargin_def Second_def now_def)
qed

theorem cache_expiry_bounds_witness:
  "fst (cacheExpiry (3600 * Second) 300 sample_world) \<le> clock sample_world + 270 * Second"
  using cache_expiry_bounds [of sample_world "3600 * Second" 300]
  by (simp add: tokenSafetyMargin_def Second_def Let_def)

text \<open>C40: The margin does not hold for short lifetimes: whatever lifetime below the margin the
  server reports, the token is cached for the full margin, so it is handed out after it expired.\<close>

theorem token_outlives:
  assumes "0 \<le> reported" and "reported < tokenSafetyMargin"
  shows "fst (cacheExpiry reported ceilingSeconds w) = clock w + tokenSafetyMargin \<and>
    clock w + reported < fst (cacheExpiry reported ceilingSeconds w)"
proof -
  have "wrap64 (t - tokenSafetyMargin) < tokenSafetyMargin" if "0 < t \<or> t = reported" "t \<le> reported" for t
  proof -
    have "wrap64 (t - tokenSafetyMargin) = t - tokenSafetyMargin"
      using that assms by (intro wrap64_id) (auto simp: tokenSafetyMargin_def Second_def)
    then show ?thesis using that assms by simp
  qed
  then have "cache_ttl reported ceilingSeconds = tokenSafetyMargin"
    by (simp add: cache_ttl_def Let_def)
  then show ?thesis using assms by (simp add: cacheExpiry_def Let_def split_beta)
qed

theorem token_outlives_witness:
  "fst (cacheExpiry (10 * Second) 300 sample_world) = clock sample_world + 30 * Second"
  using token_outlives [of "10 * Second" 300 sample_world] by (simp add: tokenSafetyMargin_def Second_def)

text \<open>A signer is resolved to the first one of the list whose name or ID is the one given;
  one that matches neither is never returned.\<close>

lemma find_signer_first:
  assumes "FindSigner G nameOrID s w = (Inr sg, s1, w1)"
  shows "\<exists>signers as bs. Signers G s w = (Inr signers, s1, w1) \<and> slice signers = as @ sg # bs \<and>
    nameOrID \<in> {sg_Name sg, sg_ID sg} \<and> (\<forall>a \<in> set as. nameOrID \<notin> {sg_Name a, sg_ID a})"
proof -
  from assms obtain signers where "Signers G s w = (Inr signers, s1, w1)"
    "find (\<lambda>sg. nameOrID \<in> {sg_Name sg, sg_ID sg}) (slice signers) = Some sg"
    by (auto simp: FindSigner_result split: sum.splits prod.splits option.splits)
  then show ?thesis unfolding find_first by blast
qed

text \<open>Once a public key was returned, asking again before the cached entry expires returns the
  same key and sends nothing.\<close>

lemma public_key_reuse:
  assumes "PublicKey G signerID s w = (Inr key, s1, w1)" and "pub_key_at signerID s1 (clock w2) \<noteq> None"
  shows "PublicKey G signerID s1 w2 = (Inr key, s1, snd (now w2)) \<and> w_sent (snd (now w2)) = w_sent w2"
proof -
  obtain e where "s_pubKeys s1 signerID = Some \<lparr>pk_key = key, pk_expiresAt = e\<rparr>"
    using PublicKey_slot [OF assms(1)] .
  with assms(2) have "pub_key_at signerID s1 (clock w2) = Some key"
    by (auto simp: pub_key_at_def split: if_splits)
  then show ?thesis using PublicKey_hit by simp
qed

text \<open>Once a list of signers was returned, asking again before it expires returns the same list
  and sends nothing; a nil list is not cached.\<close>

lemma signers_reuse:
  assumes "Signers G s w = (Inr signers, s1, w1)" and "clock w2 < s_signersExpiry s1"
  shows "if signers = None then \<not> fst (signers_fresh s1 w2)
    else Signers G s1 w2 = (Inr signers, s1, snd (now w2)) \<and> w_sent (snd (now w2)) = w_sent w2"
proof (cases signers)
  case None
  with Signers_slot [OF assms(1)] show ?thesis by (simp add: signers_fresh_def)
next
  case (Some sgs)
  with Signers_slot [OF assms(1)] assms(2) have "signers_at s1 (clock w2) = Some sgs"
    by (simp add: signers_at_def)
  with Some Signers_hit show ?thesis by simp
qed

text \<open>What the provider says of its host is observed once: every sign call after the first one
  reports the same context, whatever was signed in between.\<close>

lemma context_once:
  assumes "current_context G w = (ctx, w1)" and "Sign G signerID algorithm digest s w1 = (r, s1, w2)"
  shows "current_context G w2 = (ctx, w2)"
proof -
  have "w_signingCtx w1 = Some ctx" using current_context_frame [OF assms(1)] by simp
  with sign_call.op_world [OF assms(2)] have "w_signingCtx w2 = Some ctx" by (auto simp: world_step_def)
  then show ?thesis by (cases w2) (simp add: current_context_def CurrentSigningContext_def)
qed

end
