(* ===== verification/Key_Store.thy ===== *)
theory Key_Store
  imports Process Signing "HOL-Library.Sublist"
begin

text \<open>
  What a host may expect of a remote key store, without sessions, caches, tokens or logs: a map
  from handles to objects (a provider, or a key with its signer and public key) and a journal of
  what the server was asked to sign. \<open>store_step\<close> gives the answers a call may have and what it
  does to the store; \<open>store_of\<close> is the store a process stands for, its journal what a reader of
  the requests finds in the trace. Every run of the process is a run of the store (\<open>run_refines\<close>),
  so what is proved of the store holds for the process.
\<close>

section \<open>The requests as the server reads them\<close>

text \<open>The signer, algorithm and digest of a sign request; \<open>None\<close> for any other request.\<close>

definition asked_to_sign :: "http_request \<Rightarrow> (string \<times> string \<times> byte list) option" where
  "asked_to_sign rq =
     (let signers = ''/api/v1/cert-manager/signers/''; action = ''/sign''; p = rq_Path rq in
      if rq_Method rq = POST \<and> prefix signers p \<and> suffix action p
      then (case (path_unescape (take (length p - length signers - length action) (drop (length signers) p)), rq_Body rq) of
          (Some signerID, Some (JObj m)) \<Rightarrow>
            (case (map_of m ''data'', map_of m ''signingAlgorithm'', map_of m ''isDigest'') of
               (Some (JStr data), Some (JStr a), Some (JBool True)) \<Rightarrow>
                 map_option (\<lambda>digest. (signerID, a, digest)) (b64_decode data)
             | _ \<Rightarrow> None)
        | _ \<Rightarrow> None)
      else None)"

definition journal :: "world \<Rightarrow> (string \<times> string \<times> byte list) list" where
  "journal w = List.map_filter asked_to_sign (w_sent w)"

lemma asked_sign [simp]:
  "asked_to_sign (sign_request c token signerID (sign_params ctx a digest)) = Some (signerID, a, digest)"
proof -
  let ?seg = "PathEscape signerID"
  have "suffix ''/sign'' (xs @ ''/sign'')" for xs by (simp add: suffix_def)
  from this [of "''/api/v1/cert-manager/signers/'' @ ?seg"]
  have "suffix ''/sign'' (signer_path signerID ''sign'')" by (simp add: signer_path_def)
  moreover have "path_unescape ?seg = Some signerID" "b64_decode (b64_encode digest) = Some digest"
    by (simp_all add: path.dec_enc b64.dec_enc)
  ultimately show ?thesis
    by (simp add: asked_to_sign_def sign_request_def sign_params_json_def sign_params_def Let_def)
      (simp add: signer_path_def)
qed

lemma asked_other [simp]:
  "asked_to_sign (login_request c clientID clientSecret) = None"
  "asked_to_sign (list_signers_request c token) = None"
  "asked_to_sign (certificate_request c token signerID) = None"
  "asked_to_sign (approval_request c token signerID q) = None"
proof -
  have "\<not> suffix ''/sign'' (xs @ ''/requests'')" for xs :: string
    by (simp add: suffix_to_prefix)
  from this [of "''/api/v1/cert-manager/signers/'' @ PathEscape signerID"]
  show "asked_to_sign (approval_request c token signerID q) = None"
    by (simp add: asked_to_sign_def approval_request_def signer_path_def)
qed (simp_all add: asked_to_sign_def login_request_def list_signers_request_def certificate_request_def)

named_theorems journal_simps

lemma journal_send [journal_simps]:
  "journal (snd (send rq w)) = journal w @ (case asked_to_sign rq of None \<Rightarrow> [] | Some e \<Rightarrow> [e])"
  by (simp add: journal_def send_def map_filter_def split: option.splits)

lemma journal_cong: "w_sent w' = w_sent w \<Longrightarrow> journal w' = journal w"
  by (simp add: journal_def)

lemma journal_frame [journal_simps]:
  "journal (snd (now w)) = journal w" "journal (w\<lparr>w_authFail := m\<rparr>) = journal w"
  "journal (recordAuthFailure key err w) = journal w" "journal (clearAuthFailure key w) = journal w"
  "journal (snd (cacheExpiry reported ceiling w)) = journal w"
  "journal (snd (cachedAuthFailure key w)) = journal w" "journal (snd (token_fresh s w)) = journal w"
  "journal (snd (signers_fresh s w)) = journal w" "journal (snd (pub_key_lookup signerID s w)) = journal w"
  "journal (snd (current_context G w)) = journal w"
  by (auto intro!: journal_cong simp: recordAuthFailure_def clearAuthFailure_def cacheExpiry_def
      cachedAuthFailure_def token_fresh_def signers_fresh_def pub_key_lookup_def current_context_def
      CurrentSigningContext_def split_beta Let_def split: option.splits)

lemma journal_calls [journal_simps]:
  "journal (snd (Login G c clientID clientSecret w)) = journal w"
  "journal (snd (ListSigners G c token w)) = journal w"
  "journal (snd (GetCertificate G c token signerID w)) = journal w"
  "journal (snd (RequestApproval G c token signerID q w)) = journal w"
  "journal (snd (client_Sign G c token signerID (sign_params ctx a digest) w)) = journal w @ [(signerID, a, digest)]"
  by (simp_all add: login.sends list_signers.sends get_certificate.sends request_approval.sends sign.sends
      journal_send)

section \<open>Only signing writes the journal\<close>

lemma journal_login_session [journal_simps]: "journal (snd (snd (login_session G s w))) = journal w"
  by (auto simp: login_session_def Let_def split_beta journal_simps split: sum.splits)

lemma journal_ensureToken [journal_simps]: "journal (snd (snd (ensureToken G s w))) = journal w"
  by (auto simp: ensureToken_def Let_def split_beta journal_simps split: option.splits)

lemma journal_Signers [journal_simps]: "journal (snd (snd (Signers G s w))) = journal w"
  by (auto simp: Signers_def Let_def split_beta journal_simps split: sum.splits)

lemma journal_FindSigner [journal_simps]: "journal (snd (snd (FindSigner G nameOrID s w))) = journal w"
  by (auto simp: FindSigner_def Let_def split_beta journal_simps split: sum.splits option.splits)

lemma journal_PublicKey [journal_simps]: "journal (snd (snd (PublicKey G signerID s w))) = journal w"
  by (auto simp: PublicKey_def Let_def split_beta journal_simps split: sum.splits option.splits)

lemma journal_autoRequest [journal_simps]:
  "journal (snd (autoRequestOnDenial G s token signerID ctx digest e w)) = journal w"
  by (auto simp: autoRequestOnDenial_def requestApproval_def Let_def split_beta journal_simps
      split: sum.splits option.splits)

lemma journal_Sign:
  assumes "Sign G signerID a digest s w = (r, s', w')"
  shows "journal w' = journal w @ (case fst (ensureToken G s w) of Inl _ \<Rightarrow> [] | Inr _ \<Rightarrow> [(signerID, a, digest)])"
proof -
  have "journal (snd (snd (Sign G signerID a digest s w))) =
      journal w @ (case fst (ensureToken G s w) of Inl _ \<Rightarrow> [] | Inr _ \<Rightarrow> [(signerID, a, digest)])"
    by (auto simp: Sign_def Let_def split_beta journal_simps split: sum.splits option.splits)
  with assms show ?thesis by simp
qed

lemma Sign_error_token: "Sign G signerID a digest s w = (Inr sig, s', w') \<Longrightarrow> \<exists>t. fst (ensureToken G s w) = Inr t"
  by (auto simp: Sign_def split: prod.splits sum.splits)

section \<open>The store\<close>

datatype store_object =
    StoreProvider
  | StoreKey signer public_key

record 'h store =
  st_objects :: "'h \<Rightarrow> store_object option"
  st_journal :: "(string \<times> string \<times> byte list) list"

definition empty_store :: "'h store" where
  "empty_store = \<lparr>st_objects = (\<lambda>_. None), st_journal = []\<rparr>"

definition store_key :: "store_object option \<Rightarrow> public_key option" where
  "store_key v = (case v of Some (StoreKey _ pub) \<Rightarrow> Some pub | _ \<Rightarrow> None)"

text \<open>What a host can ask of a key follows from its public key.\<close>

definition store_family :: "public_key \<Rightarrow> key_type" where
  "store_family pub = (case pub of RSAKey _ _ \<Rightarrow> KeyRSA | _ \<Rightarrow> KeyECDSA)"

definition store_length :: "public_key \<Rightarrow> nat" where
  "store_length pub = (case pub of RSAKey N _ \<Rightarrow> bit_len N | ECKey bits _ _ \<Rightarrow> bits | OtherKey _ \<Rightarrow> 0)"

definition store_name :: "public_key \<Rightarrow> string" where
  "store_name pub = (case pub of
       RSAKey _ _ \<Rightarrow> ''RSA''
     | ECKey bits _ _ \<Rightarrow>
         ''ECDSA'' @ (if bits \<in> {256, 384, 521} then ''_P'' @ nat_string bits else '''')
     | OtherKey _ \<Rightarrow> '''')"

definition store_property :: "public_key \<Rightarrow> string \<Rightarrow> byte list option" where
  "store_property pub = map_of
     [(''Algorithm Group'', utf16z (if store_family pub = KeyRSA then ''RSA'' else ''ECDSA'')),
      (''Algorithm Name'', utf16z (store_name pub)),
      (''Length'', put_u32 (word_of_nat (store_length pub))),
      (''Export Policy'', [0, 0, 0, 0]),
      (''Key Usage'', [1, 0, 0, 0])]"

definition store_blob :: "public_key \<Rightarrow> byte list option" where
  "store_blob pub = (case pub of
       RSAKey N E \<Rightarrow> Some (RSAPublicBlob N E)
     | ECKey bits x y \<Rightarrow> (case ECCPublicBlob bits x y of Inl _ \<Rightarrow> None | Inr blob \<Rightarrow> Some blob)
     | OtherKey _ \<Rightarrow> None)"

definition store_signature_size :: "public_key \<Rightarrow> nat" where
  "store_signature_size pub =
     (if store_family pub = KeyECDSA then 2 else 1) * ((store_length pub + 7) div 8)"

section \<open>Calls and answers\<close>

text \<open>An entry of the table with its arguments, and what the host gets back.\<close>

datatype 'h ksp_call =
    OpenProviderCall 'h
  | OpenKeyCall 'h 'h wide_string
  | GetKeyPropertyCall 'h wide_string "byte list option" "32 word" "32 word option"
  | ExportKeyCall 'h "16 word list" "byte list option" "32 word" "32 word option"
  | SignHashCall 'h "wide_string option" "byte list" "32 word" "byte list option" "32 word" "32 word option" "32 word"
  | FreeProviderCall 'h
  | FreeKeyCall 'h
  | FreeBufferCall
  | UnsupportedCall unsupported_entry

datatype 'h answer =
    HandleAnswer status 'h
  | BufferAnswer call_out
  | StatusAnswer status

definition run_call :: "go_rt \<Rightarrow> 'w word ksp_call \<Rightarrow> ('w::len) ksp \<Rightarrow> ('w word answer \<times> 'w ksp) option" where
  "run_call G c k = (case c of
       OpenProviderCall ph \<Rightarrow> (let ((st, h), k) = ksp_OpenProvider G ph k in Some (HandleAnswer st h, k))
     | OpenKeyCall hp ph name \<Rightarrow> (let ((st, h), k) = ksp_OpenKey G hp ph name k in Some (HandleAnswer st h, k))
     | GetKeyPropertyCall h name out cb res \<Rightarrow> Some (BufferAnswer (ksp_GetKeyProperty h name out cb res k), k)
     | ExportKeyCall h bt out cb res \<Rightarrow> (let (r, k) = ksp_ExportKey h bt out cb res k in Some (BufferAnswer r, k))
     | SignHashCall h pad hv chv out cb res fl \<Rightarrow>
         (case ksp_SignHash G h pad hv chv out cb res fl k of
            None \<Rightarrow> None
          | Some (r, k) \<Rightarrow> Some (BufferAnswer r, k))
     | FreeProviderCall h \<Rightarrow> (let (st, k) = ksp_FreeProvider h k in Some (StatusAnswer st, k))
     | FreeKeyCall h \<Rightarrow> (let (st, k) = ksp_FreeKey h k in Some (StatusAnswer st, k))
     | FreeBufferCall \<Rightarrow> (let (st, k) = ksp_FreeBuffer k in Some (StatusAnswer st, k))
     | UnsupportedCall e \<Rightarrow> (let (st, k) = ksp_unsupported e k in Some (StatusAnswer st, k)))"

text \<open>The steps of the process are the calls that return.\<close>

lemma run_call_step: "run_call G c k = Some (ans, k') \<Longrightarrow> ksp_step G k k'"
  by (cases c) (auto simp: run_call_def intro: ksp_step.intros split: prod.splits option.splits)

lemma step_run_call:
  assumes "ksp_step G k k'"
  shows "\<exists>c ans. run_call G c k = Some (ans, k')"
  using assms
proof (cases rule: ksp_step.cases)
  case (OpenProvider ph r)
  then show ?thesis by (intro exI [of _ "OpenProviderCall ph"]) (auto simp: run_call_def split: prod.splits)
next
  case (OpenKey hp ph name r)
  then show ?thesis by (intro exI [of _ "OpenKeyCall hp ph name"]) (auto simp: run_call_def split: prod.splits)
next
  case (GetKeyProperty h name out cb res r)
  then show ?thesis by (intro exI [of _ "GetKeyPropertyCall h name out cb res"]) (auto simp: run_call_def)
next
  case (ExportKey h bt out cb res r)
  then show ?thesis by (intro exI [of _ "ExportKeyCall h bt out cb res"]) (auto simp: run_call_def)
next
  case (SignHash h pad hv chv out cb res fl r)
  then show ?thesis by (intro exI [of _ "SignHashCall h pad hv chv out cb res fl"]) (auto simp: run_call_def)
next
  case (FreeProvider h r)
  then show ?thesis by (intro exI [of _ "FreeProviderCall h"]) (auto simp: run_call_def split: prod.splits)
next
  case (FreeKey h r)
  then show ?thesis by (intro exI [of _ "FreeKeyCall h"]) (auto simp: run_call_def split: prod.splits)
next
  case (FreeBuffer r)
  then show ?thesis by (intro exI [of _ FreeBufferCall]) (auto simp: run_call_def split: prod.splits)
next
  case (Unsupported e r)
  then show ?thesis by (intro exI [of _ "UnsupportedCall e"]) (auto simp: run_call_def split: prod.splits)
qed

section \<open>The steps of the store\<close>

text \<open>A call that fills a buffer: a status, or data handed over by the buffer protocol.\<close>

definition buffer_answer ::
  "status + byte list \<Rightarrow> byte list option \<Rightarrow> 32 word \<Rightarrow> 32 word option \<Rightarrow> 'h answer" where
  "buffer_answer r out cb res = BufferAnswer (case r of
       Inl st \<Rightarrow> call_failed st out res
     | Inr data \<Rightarrow> copyOut (cBytes data) out cb res)"

definition store_read :: "store_object option \<Rightarrow> (public_key \<Rightarrow> status + 'a) \<Rightarrow> status + 'a" where
  "store_read v f = (case store_key v of None \<Rightarrow> Inl statusInvalidParameter | Some pub \<Rightarrow> f pub)"

definition or_status :: "status \<Rightarrow> 'a option \<Rightarrow> status + 'a" where
  "or_status st v = (case v of None \<Rightarrow> Inl st | Some x \<Rightarrow> Inr x)"

text \<open>
  Handles are handed out fresh and never null; a refused call changes nothing; what is read of a
  key follows from its public key; and the server is asked to sign only by a sign call on a live
  key, for that key's signer, the digest of the call and an algorithm its padding and hash name,
  once. A signature is answered only after it was asked for.
\<close>

inductive store_step :: "go_rt \<Rightarrow> 'h ksp_call \<Rightarrow> 'h answer \<Rightarrow> ('h::zero) store \<Rightarrow> 'h store \<Rightarrow> bool" for G where
  provider_opened:
    "h \<noteq> 0 \<Longrightarrow> st_objects a h = None \<Longrightarrow>
     store_step G (OpenProviderCall ph) (HandleAnswer statusSuccess h) a
       (a\<lparr>st_objects := (st_objects a)(h \<mapsto> StoreProvider)\<rparr>)"
| provider_refused:
    "st \<noteq> statusSuccess \<Longrightarrow> store_step G (OpenProviderCall ph) (HandleAnswer st ph) a a"
| key_opened:
    "st_objects a hp = Some StoreProvider \<Longrightarrow> h \<noteq> 0 \<Longrightarrow> st_objects a h = None \<Longrightarrow>
     utf16PtrToString name \<in> {sg_Name sg, sg_ID sg} \<Longrightarrow>
     store_step G (OpenKeyCall hp ph name) (HandleAnswer statusSuccess h) a
       (a\<lparr>st_objects := (st_objects a)(h \<mapsto> StoreKey sg pub)\<rparr>)"
| key_refused:
    "st \<noteq> statusSuccess \<Longrightarrow> st_objects a hp = Some StoreProvider \<or> st = statusInvalidParameter \<Longrightarrow>
     store_step G (OpenKeyCall hp ph name) (HandleAnswer st ph) a a"
| property_read:
    "r = store_read (st_objects a h)
       (\<lambda>pub. or_status statusNotSupported (store_property pub (utf16PtrToString name))) \<Longrightarrow>
     store_step G (GetKeyPropertyCall h name out cb res) (buffer_answer r out cb res) a a"
| key_exported:
    "r = (if bt \<notin> set public_blob_types then Inl statusNotSupported
          else store_read (st_objects a h) (\<lambda>pub. or_status statusFail (store_blob pub))) \<Longrightarrow>
     store_step G (ExportKeyCall h bt out cb res) (buffer_answer r out cb res) a a"
| signature_sized:
    "r = store_read (st_objects a h) (\<lambda>pub. Inr (store_signature_size pub)) \<Longrightarrow>
     store_step G (SignHashCall h pad hv chv None cb res fl)
       (BufferAnswer (case r of
            Inl st \<Rightarrow> call_failed st None res
          | Inr n \<Rightarrow> \<lparr>co_status = statusSuccess, co_output = None, co_result = map_option (\<lambda>_. word_of_nat n) res,
              co_overrun = False\<rparr>)) a a"
| sign_refused:
    "st \<noteq> statusSuccess \<Longrightarrow> store_key (st_objects a h) \<noteq> None \<or> st = statusInvalidParameter \<Longrightarrow>
     store_step G (SignHashCall h pad hv chv (Some out) cb res fl) (buffer_answer (Inl st) (Some out) cb res) a a"
| sign_asked:
    "st_objects a h = Some (StoreKey sg pub) \<Longrightarrow> digest = take (unat chv) hv \<Longrightarrow>
     sign_padding fl pad digest = Inr (padding, hashName) \<Longrightarrow>
     Algorithm G (store_family pub) padding hashName = Inr algorithm \<Longrightarrow> r \<noteq> Inl statusSuccess \<Longrightarrow>
     store_step G (SignHashCall h pad hv chv (Some out) cb res fl) (buffer_answer r (Some out) cb res) a
       (a\<lparr>st_journal := st_journal a @ [(sg_ID sg, algorithm, digest)]\<rparr>)"
| provider_freed:
    "store_step G (FreeProviderCall h) (StatusAnswer statusSuccess) a (a\<lparr>st_objects := (st_objects a)(h := None)\<rparr>)"
| key_freed:
    "store_step G (FreeKeyCall h) (StatusAnswer statusSuccess) a (a\<lparr>st_objects := (st_objects a)(h := None)\<rparr>)"
| buffer_freed:
    "store_step G FreeBufferCall (StatusAnswer statusSuccess) a a"
| unsupported:
    "store_step G (UnsupportedCall e) (StatusAnswer statusNotSupported) a a"

inductive_cases sign_stepE: "store_step G (SignHashCall h pad hv chv out cb res fl) ans a a'"

section \<open>The store of a process\<close>

definition object_of :: "handle_object \<Rightarrow> store_object" where
  "object_of v = (case v of Provider _ \<Rightarrow> StoreProvider | Key ks \<Rightarrow> StoreKey (ks_signer ks) (ks_pub ks))"

definition store_of :: "('w::len) ksp \<Rightarrow> 'w word store" where
  "store_of k =
     \<lparr>st_objects = (\<lambda>h. map_option object_of (lookupHandle h (k_registry k))), st_journal = journal (k_world k)\<rparr>"

lemma store_of_initial: "w_sent w = [] \<Longrightarrow> store_of (initial_ksp w) = empty_store"
  by (simp add: store_of_def initial_ksp_def empty_registry_def empty_store_def lookupHandle_def journal_def map_filter_def)

lemma store_of_log [simp]: "store_of (log_ksp op e k) = store_of k"
  by (simp add: store_of_def)

lemma store_of_free: "store_of (GoFreeHandle h k) = (store_of k)\<lparr>st_objects := (st_objects (store_of k))(h := None)\<rparr>"
  by (auto simp: store_of_def GoFreeHandle_def lookupHandle_def freeHandle_def)

lemma store_of_provider: "st_objects (store_of k) h = Some StoreProvider \<longleftrightarrow> (\<exists>i. lookupHandle h (k_registry k) = Some (Provider i))"
  by (auto simp: store_of_def object_of_def) (metis handle_object.exhaust handle_object.simps(5,6) store_object.distinct(1))+

lemma store_key_of:
  "store_key (st_objects (store_of k) h) = (case keyByHandle h k of Inl _ \<Rightarrow> None | Inr ks \<Rightarrow> Some (ks_pub ks))"
  by (auto simp: store_key_def store_of_def object_of_def keyByHandle_def key_of_def
      split: option.splits handle_object.splits)

text \<open>Registering an object is adding it to the store under a fresh handle.\<close>

lemma store_of_register:
  assumes "ksp_ok k" "ksp_room k" "object_ok (length (k_sessions k)) v" "register_ksp v k = (h, k')"
  shows "h \<noteq> 0" "st_objects (store_of k) h = None"
    "store_of k' = (store_of k)\<lparr>st_objects := (st_objects (store_of k))(h \<mapsto> object_of v)\<rparr>"
proof -
  note reg = ksp_ok_register [OF assms]
  from reg(3) show "h \<noteq> 0" "st_objects (store_of k) h = None" by (simp_all add: store_of_def)
  from reg(2,5) show "store_of k' = (store_of k)\<lparr>st_objects := (st_objects (store_of k))(h \<mapsto> object_of v)\<rparr>"
    by (auto simp: store_of_def)
qed

text \<open>The reads of a well-formed key.\<close>

lemma key_ok_reads:
  assumes "key_ok ks"
  shows "ks_keyType ks = store_family (ks_pub ks)" "keyLengthBits ks = store_length (ks_pub ks)"
    "keyProperty ks name = store_property (ks_pub ks) name"
    "exportPublicBlob ks = Inr blob \<longleftrightarrow> store_blob (ks_pub ks) = Some blob"
    "exportPublicBlob ks = Inl e \<Longrightarrow> statusFromError (Some e) = statusFail"
proof -
  from assms show family: "ks_keyType ks = store_family (ks_pub ks)"
    and len: "keyLengthBits ks = store_length (ks_pub ks)"
    by (auto simp: key_ok_def store_family_def keyLengthBits_def store_length_def split: public_key.splits)
  from assms have "algorithmName ks = store_name (ks_pub ks)"
    by (auto simp: key_ok_def algorithmName_def algorithmGroup_def store_name_def split: public_key.splits) code_simp+
  moreover have "dwordLE 0 = [0, 0, 0, 0]" "dwordLE ncryptAllowSigningFlag = [1, 0, 0, 0]" by code_simp+
  ultimately show "keyProperty ks name = store_property (ks_pub ks) name"
    by (simp add: keyProperty_def store_property_def prop_defs family len algorithmGroup_def dwordLE_def)
  show "exportPublicBlob ks = Inr blob \<longleftrightarrow> store_blob (ks_pub ks) = Some blob"
    by (auto simp: exportPublicBlob_def store_blob_def split: public_key.splits sum.splits)
  show "exportPublicBlob ks = Inl e \<Longrightarrow> statusFromError (Some e) = statusFail"
    using assms by (auto simp: exportPublicBlob_def key_ok_def ECCPublicBlob_def ec_point_bytes_def Let_def
        statusFromError_def is_bad_handle_def as_api_def split: public_key.splits option.splits if_splits)
qed

section \<open>Every call is a step of the store\<close>

lemma run_session_store:
  assumes "run_session i run k = (r, k')" and "\<And>s w. journal (snd (snd (run s w))) = journal w"
  shows "store_of k' = store_of k"
  using assms by (auto simp: run_session_def store_of_def split: prod.splits) (metis snd_conv)

lemma open_provider_refines:
  assumes inv: "ksp_inv k" and room: "ksp_room k" and call: "ksp_OpenProvider G ph k = ((st, h), k')"
  shows "store_step G (OpenProviderCall ph) (HandleAnswer st h) (store_of k) (store_of k')"
proof -
  obtain q k1 where run: "openProvider G k = (q, k1)" by (cases "openProvider G k")
  from run show ?thesis
  proof (cases rule: openProvider_cases)
    case (failed e)
    have "store_of k1 = store_of k" using failed(2,4) by (simp add: store_of_def)
    moreover from call run failed(1) have "st = statusFromError (Some e)" "h = ph" "store_of k' = store_of k1"
      by (auto simp: ksp_OpenProvider_def GoOpenProvider_def statusSuccess_def [symmetric] statusFromError_Some_neq)
    ultimately show ?thesis
      using store_step.provider_refused [of st] statusFromError_Some_neq by simp
  next
    case (opened h' cfg s k2)
    have "ksp_ok k2" "ksp_room k2" "object_ok (length (k_sessions k2)) (Provider (length (k_sessions k)))"
      using ksp_inv_new_session [OF inv, of s] room by (simp_all add: opened(4) ksp_inv_def ksp_ok_def object_ok_def)
    note reg = store_of_register [OF this opened(5)]
    have same: "store_of k2 = store_of k" by (simp add: store_of_def opened(4))
    from call run opened(1) have "st = statusSuccess" "h = h'" "k' = k1"
      by (auto simp: ksp_OpenProvider_def GoOpenProvider_def statusSuccess_def)
    with reg show ?thesis
      using store_step.provider_opened [of h "store_of k"] by (simp add: same object_of_def)
  qed
qed

lemma open_key_refines:
  assumes inv: "ksp_inv k" and room: "ksp_room k" and call: "ksp_OpenKey G hp ph name k = ((st, h), k')"
  shows "store_step G (OpenKeyCall hp ph name) (HandleAnswer st h) (store_of k) (store_of k')"
proof -
  let ?n = "utf16PtrToString name"
  obtain q k1 where run: "openKey G hp ?n k = (q, k1)" by (cases "openKey G hp ?n k")
  have refused: ?thesis if "q = Inl e" "store_of k1 = store_of k"
      "st_objects (store_of k) hp = Some StoreProvider \<or> statusFromError (Some e) = statusInvalidParameter" for e
  proof -
    from call run that(1) have "st = statusFromError (Some e)" "h = ph" "store_of k' = store_of k1"
      by (auto simp: ksp_OpenKey_def GoOpenKey_def Let_def statusSuccess_def [symmetric] statusFromError_Some_neq)
    with that show ?thesis
      using store_step.key_refused [of st "store_of k" hp] statusFromError_Some_neq by simp
  qed
  note find = run_session_store [OF _ journal_FindSigner] and pub = run_session_store [OF _ journal_PublicKey]
  from run show ?thesis
  proof (cases rule: openKey_cases)
    case bad
    with refused show ?thesis by (simp add: statusFromError_def is_bad_handle_def)
  next
    case (no_signer i e)
    with refused find [OF no_signer(2)] show ?thesis by (simp add: store_of_provider)
  next
    case (no_key i sg k2 e)
    with refused find [OF no_key(2)] pub [OF no_key(3)] show ?thesis by (simp add: store_of_provider)
  next
    case (unusable i sg k2 pk e)
    with refused find [OF unusable(2)] pub [OF unusable(3)] show ?thesis by (simp add: store_of_provider)
  next
    case (opened i sg k2 pk k3 ks h')
    note i = live_provider [OF inv opened(1)]
    have inv2: "ksp_inv k2" using find_signer.run_session_inv [OF inv i opened(2)] .
    have inv3: "ksp_inv k3"
      using public_key.run_session_inv [OF inv2 _ opened(3)] i run_session_length [OF opened(2)] by simp
    have "ksp_ok k3" "ksp_room k3" "object_ok (length (k_sessions k3)) (Key ks)"
      using inv3 room new_key_state_ok [OF opened(4)] i run_session_registry [OF opened(2)]
        run_session_registry [OF opened(3)] run_session_length [OF opened(2)] run_session_length [OF opened(3)]
      by (simp_all add: ksp_inv_def object_ok_def)
    note reg = store_of_register [OF this opened(5)]
    have same: "store_of k3 = store_of k" using find [OF opened(2)] pub [OF opened(3)] by simp
    from opened(2) have named: "?n \<in> {sg_Name sg, sg_ID sg}"
      by (auto simp: run_session_def FindSigner_def find_Some_iff split: prod.splits sum.splits option.splits)
    have "object_of (Key ks) = StoreKey sg pk"
      using new_key_state_ok [OF opened(4)] by (simp add: object_of_def)
    moreover from call run opened(6) have "st = statusSuccess" "h = h'" "k' = k1"
      by (auto simp: ksp_OpenKey_def GoOpenKey_def Let_def statusSuccess_def)
    ultimately show ?thesis
      using reg opened(1) store_step.key_opened [of "store_of k" hp h name sg, OF _ _ _ named]
      by (auto simp: same store_of_provider)
  qed
qed

lemma get_property_refines:
  assumes inv: "ksp_inv k"
  shows "store_step G (GetKeyPropertyCall h name out cb res)
    (BufferAnswer (ksp_GetKeyProperty h name out cb res k)) (store_of k) (store_of k)"
proof -
  let ?f = "\<lambda>pub. or_status statusNotSupported (store_property pub (utf16PtrToString name))"
  have "BufferAnswer (ksp_GetKeyProperty h name out cb res k) =
      buffer_answer (store_read (st_objects (store_of k) h) ?f) out cb res"
  proof (cases "keyByHandle h k")
    case (Inl e)
    then show ?thesis
      by (simp add: ksp_GetKeyProperty_def GoGetKeyProperty_def store_read_def store_key_of buffer_answer_def)
        (simp add: status_defs)
  next
    case (Inr ks)
    then have "key_ok ks" using live_key [OF inv] by (simp add: keyByHandle_Inr)
    with Inr show ?thesis
      by (cases "store_property (ks_pub ks) (utf16PtrToString name)")
        (simp_all add: ksp_GetKeyProperty_def GoGetKeyProperty_def store_read_def store_key_of buffer_answer_def
          or_status_def key_ok_reads status_defs)
  qed
  then show ?thesis using store_step.property_read [OF refl] by metis
qed

lemma export_key_refines:
  assumes inv: "ksp_inv k" and call: "ksp_ExportKey h bt out cb res k = (r, k')"
  shows "store_step G (ExportKeyCall h bt out cb res) (BufferAnswer r) (store_of k) (store_of k')"
proof -
  let ?q = "if bt \<notin> set public_blob_types then Inl statusNotSupported
    else store_read (st_objects (store_of k) h) (\<lambda>pub. or_status statusFail (store_blob pub))"
  have "BufferAnswer r = buffer_answer ?q out cb res \<and> store_of k' = store_of k"
  proof (cases "bt \<in> set public_blob_types")
    case False
    with call show ?thesis by (auto simp: ksp_ExportKey_def buffer_answer_def)
  next
    case blob: True
    show ?thesis
    proof (cases "keyByHandle h k")
      case (Inl e)
      with call blob show ?thesis
        by (auto simp: ksp_ExportKey_def GoExportKey_def store_read_def store_key_of buffer_answer_def
            statusSuccess_def [symmetric] status_neq)
    next
      case (Inr ks)
      then have key: "key_ok ks" using live_key [OF inv] by (simp add: keyByHandle_Inr)
      show ?thesis
      proof (cases "exportPublicBlob ks")
        case (Inl e)
        with key_ok_reads(4) [OF key] have "store_blob (ks_pub ks) = None" by (metis Inl_Inr_False not_None_eq)
        with call blob Inr Inl key_ok_reads(5) [OF key Inl] show ?thesis
          by (auto simp: ksp_ExportKey_def GoExportKey_def store_read_def store_key_of buffer_answer_def or_status_def
              statusSuccess_def [symmetric] status_neq)
      next
        case (Inr b)
        with call blob \<open>keyByHandle h k = Inr ks\<close> key_ok_reads(4) [OF key, of b] show ?thesis
          by (auto simp: ksp_ExportKey_def GoExportKey_def store_read_def store_key_of buffer_answer_def or_status_def
              statusSuccess_def)
      qed
    qed
  qed
  then show ?thesis using store_step.key_exported [OF refl] by metis
qed

lemma sizing_refines:
  assumes inv: "ksp_inv k"
    and call: "ksp_SignHash G h pad hv chv None cb res fl k = Some (r, k')"
  shows "store_step G (SignHashCall h pad hv chv None cb res fl) (BufferAnswer r) (store_of k) (store_of k')"
proof -
  let ?q = "store_read (st_objects (store_of k) h) (\<lambda>pub. Inr (store_signature_size pub))"
  have "r = (case ?q of
      Inl st \<Rightarrow> call_failed st None res
    | Inr n \<Rightarrow> \<lparr>co_status = statusSuccess, co_output = None, co_result = map_option (\<lambda>_. word_of_nat n) res,
        co_overrun = False\<rparr>) \<and> k' = k"
  proof (cases "keyByHandle h k")
    case (Inl e)
    with call show ?thesis
      by (auto simp: ksp_SignHash_def GoSignatureMaxSize_def store_read_def store_key_of
          statusSuccess_def [symmetric] status_neq)
  next
    case (Inr ks)
    then have "key_ok ks" using live_key [OF inv] by (simp add: keyByHandle_Inr)
    with Inr call show ?thesis
      by (cases res) (auto simp: ksp_SignHash_def GoSignatureMaxSize_def store_read_def store_key_of key_ok_reads
          store_signature_size_def Let_def statusSuccess_def mult.commute)
  qed
  then show ?thesis using store_step.signature_sized [OF refl] by metis
qed

text \<open>A sign call asks at most once, and answers a signature only after it asked.\<close>

lemma sign_hash_refines:
  fixes k :: "'w::len ksp"
  assumes inv: "ksp_inv k"
    and call: "ksp_SignHash G h pad hv chv (Some out) cb res fl k = Some (r, k')"
  shows "store_step G (SignHashCall h pad hv chv (Some out) cb res fl) (BufferAnswer r) (store_of k) (store_of k')"
proof -
  from call obtain b st where go: "GoSignHash G h fl pad hv chv k = Some ((b, st), k')"
    and r: "r = (if st \<noteq> statusSuccess then call_failed st (Some out) res else copyOut b (Some out) cb res)"
    by (auto simp: ksp_SignHash_def statusSuccess_def split: option.splits)
  have quiet: ?thesis if "st \<noteq> statusSuccess" "store_of k' = store_of k"
      "store_key (st_objects (store_of k) h) \<noteq> None \<or> st = statusInvalidParameter"
    using that r store_step.sign_refused [of st "store_of k" h G pad hv chv out cb res fl]
    by (simp add: buffer_answer_def)
  from go show ?thesis
  proof (cases rule: GoSignHash_cases)
    case bad
    with quiet show ?thesis by simp
  next
    case (refused ks e op)
    then have "store_key (st_objects (store_of k) h) \<noteq> None" by (simp add: store_key_of keyByHandle_def key_of_def)
    moreover from refused(3) have "st \<noteq> statusSuccess" by (auto simp: status_defs)
    ultimately show ?thesis using quiet refused(4) by simp
  next
    case (asked ks padding hashName a q k1)
    let ?digest = "take (unat chv) hv"
    have key: "key_ok ks" using live_key [OF inv asked(1)] by simp
    have obj: "st_objects (store_of k) h = Some (StoreKey (ks_signer ks) (ks_pub ks))"
      using asked(1) by (simp add: store_of_def object_of_def)
    obtain s' w' where sign: "Sign G (sg_ID (ks_signer ks)) a ?digest (k_sessions k ! ks_prov ks) (k_world k) = (q, s', w')"
      and k1: "k1 = k\<lparr>k_sessions := (k_sessions k)[ks_prov ks := s'], k_world := w'\<rparr>"
      using asked(4) by (auto simp: run_session_def split: prod.splits)
    have same: "store_of k' = store_of k1"
      using asked(5) by (auto split: sum.splits)
    show ?thesis
    proof (cases "fst (ensureToken G (k_sessions k ! ks_prov ks) (k_world k))")
      case (Inl e)
      with journal_Sign [OF sign] have "store_of k' = store_of k" unfolding same by (simp add: store_of_def k1)
      moreover from Inl sign have "\<exists>e'. q = Inl e'" by (auto simp: Sign_def split: prod.splits)
      with asked(5) have "st \<noteq> statusSuccess" by (auto simp: statusFromError_Some_neq)
      ultimately show ?thesis using quiet obj by (simp add: store_key_def)
    next
      case (Inr t)
      with journal_Sign [OF sign] have "store_of k' = (store_of k)
          \<lparr>st_journal := st_journal (store_of k) @ [(sg_ID (ks_signer ks), a, ?digest)]\<rparr>"
        unfolding same by (simp add: store_of_def k1)
      moreover obtain d where "d \<noteq> Inl statusSuccess" "(BufferAnswer r :: 'w word answer) = buffer_answer d (Some out) cb res"
      proof (cases "case q of Inl e \<Rightarrow> Inl e | Inr sig \<Rightarrow> cng_signature ks sig")
        case (Inl e)
        with asked(5) r that [of "Inl st"] show thesis
          by (simp add: buffer_answer_def statusFromError_Some_neq)
      next
        case (Inr sig)
        with asked(5) r that [of "Inr sig"] show thesis by (simp add: buffer_answer_def)
      qed
      ultimately show ?thesis
        using store_step.sign_asked [OF obj refl asked(2) asked(3) [unfolded key_ok_reads(1) [OF key]], of d out cb res] by simp
    qed
  qed
qed

lemma call_refines:
  assumes inv: "ksp_inv k" and room: "ksp_room k" and call: "run_call G c k = Some (ans, k')"
  shows "store_step G c ans (store_of k) (store_of k')"
proof (cases c)
  case (OpenProviderCall ph)
  with call open_provider_refines [OF inv room] show ?thesis
    by (auto simp: run_call_def split: prod.splits)
next
  case (OpenKeyCall hp ph name)
  with call open_key_refines [OF inv room] show ?thesis
    by (auto simp: run_call_def split: prod.splits)
next
  case (GetKeyPropertyCall h name out cb res)
  with call get_property_refines [OF inv] show ?thesis by (auto simp: run_call_def)
next
  case (ExportKeyCall h bt out cb res)
  with call export_key_refines [OF inv] show ?thesis by (auto simp: run_call_def split: prod.splits)
next
  case (SignHashCall h pad hv chv out cb res fl)
  with call sizing_refines [OF inv] sign_hash_refines [OF inv] show ?thesis
    by (cases out) (auto simp: run_call_def split: option.splits)
qed (use call in \<open>auto simp: run_call_def ksp_FreeProvider_def ksp_FreeKey_def ksp_FreeBuffer_def ksp_unsupported_def
    store_of_free intro: store_step.intros\<close>)

section \<open>Runs\<close>

text \<open>A run is the list of the calls that were made with the answers they got.\<close>

inductive process_run :: "go_rt \<Rightarrow> world \<Rightarrow> ('w word ksp_call \<times> 'w word answer) list \<Rightarrow> ('w::len) ksp \<Rightarrow> bool" for G w where
  process_start: "process_run G w [] (initial_ksp w)"
| process_call: "process_run G w run k \<Longrightarrow> run_call G c k = Some (ans, k') \<Longrightarrow> process_run G w (run @ [(c, ans)]) k'"

inductive store_run :: "go_rt \<Rightarrow> ('h ksp_call \<times> 'h answer) list \<Rightarrow> ('h::zero) store \<Rightarrow> bool" for G where
  store_start: "store_run G [] empty_store"
| store_call: "store_run G run a \<Longrightarrow> store_step G c ans a a' \<Longrightarrow> store_run G (run @ [(c, ans)]) a'"

lemma process_run_reachable: "process_run G w run k \<Longrightarrow> reachable G w (length run) k"
proof (induction rule: process_run.induct)
  case process_start
  show ?case using reachable.Start by simp
next
  case (process_call run k c ans k')
  from process_call.IH run_call_step [OF process_call.hyps(2)] show ?case
    by (simp add: reachable.Step)
qed

lemma process_run_refines:
  assumes "process_run G w run (k :: 'w::len ksp)" and "w_sent w = []" and "length run < 2 ^ LENGTH('w) - 1"
  shows "store_run G run (store_of k)"
  using assms
proof (induction rule: process_run.induct)
  case process_start
  then show ?case using store_run.store_start by (simp add: store_of_initial)
next
  case (process_call run k c ans k')
  from process_call.prems have small: "Suc (length run) < 2 ^ LENGTH('w) - 1" by simp
  note room = reachable_room [OF process_run_reachable [OF process_call.hyps(1)] process_call.prems(1) small]
  from process_call.IH process_call.prems small have "store_run G run (store_of k)" by simp
  from this call_refines [OF room process_call.hyps(2)] show ?case by (rule store_run.store_call)
qed

section \<open>What follows for the journal\<close>

text \<open>
  The digests the host passed to the sign calls of a run (a call with no buffer asks for a size
  only), those it got a signature for, and those of the journal, in order.
\<close>

fun digest_of :: "'h ksp_call \<times> 'h answer \<Rightarrow> byte list option" where
  "digest_of (SignHashCall h pad hv chv (Some out) cb res fl, ans) = Some (take (unat chv) hv)"
| "digest_of _ = None"

fun signed_of :: "'h ksp_call \<times> 'h answer \<Rightarrow> byte list option" where
  "signed_of (c, BufferAnswer r) = (if co_status r = statusSuccess then digest_of (c, BufferAnswer r) else None)"
| "signed_of _ = None"

definition host_digests :: "('h ksp_call \<times> 'h answer) list \<Rightarrow> byte list list" where
  "host_digests run = List.map_filter digest_of run"

definition signed_digests :: "('h ksp_call \<times> 'h answer) list \<Rightarrow> byte list list" where
  "signed_digests run = List.map_filter signed_of run"

definition journal_digests :: "(string \<times> string \<times> byte list) list \<Rightarrow> byte list list" where
  "journal_digests j = map (\<lambda>(signerID, a, digest). digest) j"

lemma digests_append:
  "host_digests (xs @ ys) = host_digests xs @ host_digests ys"
  "signed_digests (xs @ ys) = signed_digests xs @ signed_digests ys"
  "journal_digests (i @ j) = journal_digests i @ journal_digests j"
  by (simp_all add: host_digests_def signed_digests_def journal_digests_def map_filter_def)

lemma step_journal:
  assumes "store_step G c ans a a'"
  shows "\<exists>new. st_journal a' = st_journal a @ new \<and>
    subseq (signed_digests [(c, ans)]) (journal_digests new) \<and> subseq (journal_digests new) (host_digests [(c, ans)])"
  using assms
proof (cases rule: store_step.cases)
  case (sign_refused st h out pad hv chv cb res fl)
  then show ?thesis
    by (auto simp: signed_digests_def host_digests_def journal_digests_def map_filter_def buffer_answer_def call_failed_def)
next
  case (sign_asked h sg pub digest chv hv fl pad padding hashName algorithm r out cb res)
  then show ?thesis
    by (auto simp: signed_digests_def host_digests_def journal_digests_def map_filter_def buffer_answer_def)
qed (auto simp: signed_digests_def host_digests_def journal_digests_def map_filter_def buffer_answer_def)

lemma run_journal:
  "store_run G run a \<Longrightarrow> subseq (signed_digests run) (journal_digests (st_journal a)) \<and>
     subseq (journal_digests (st_journal a)) (host_digests run)"
proof (induction rule: store_run.induct)
  case store_start
  show ?case by (simp add: empty_store_def signed_digests_def journal_digests_def map_filter_def)
next
  case (store_call run a c ans a')
  from step_journal [OF store_call.hyps(2)] store_call.IH show ?case
    by (auto simp: digests_append intro: list_emb_append_mono)
qed

section \<open>A sample run\<close>

text \<open>The host opens a provider and the key of the first signer, and signs a digest with it.\<close>

lemma sample_keyed_server: "w_server (k_world sample_keyed) = w_server sample_world"
  by (simp add: sample_keyed_eq keyed_world_def)

lemma sample_keyed_key:
  "(case lookupHandle 2 (k_registry sample_keyed) of
      Some (Key ks) \<Rightarrow> ks_prov ks = 0 \<and> sg_ID (ks_signer ks) = ''s1'' \<and> ks_keyType ks = KeyECDSA \<and> ks_curveBits ks = 256
    | _ \<Rightarrow> False)"
  by (simp add: sample_keyed_eq lookupHandle_def keyed_key_def sample_app_def)

lemma sample_keyed_token:
  "ensureToken G (k_sessions sample_keyed ! 0) w = (Inr ''jwt'', k_sessions sample_keyed ! 0, w)"
  by (simp add: sample_keyed_eq keyed_session_def loaded_token)

lemma sample_raw:
  "b64_decode (decode_signature sample_rt (Some (JObj [(''signature'', JStr ''MAYCAQECAQI='')]))) =
     Some [48, 6, 2, 1, 1, 2, 1, 2]"
  "raw_signature [48, 6, 2, 1, 1, 2, 1, 2] 256 = Inr (replicate 31 0 @ [1] @ replicate 31 0 @ [2])"
  by code_simp+

definition sample_sign_call :: "64 word ksp_call" where
  "sample_sign_call = SignHashCall 2 None (replicate 32 7) 32 (Some (replicate 64 0)) 64 (Some 0) 0"

lemma sample_signed:
  "\<exists>r k. run_call sample_rt sample_sign_call sample_keyed = Some (BufferAnswer r, k) \<and> co_status r = statusSuccess"
proof -
  obtain ks where ks: "keyByHandle 2 sample_keyed = Inr ks" "ks_prov ks = 0" "sg_ID (ks_signer ks) = ''s1''"
    "ks_keyType ks = KeyECDSA" "ks_curveBits ks = 256"
    using sample_keyed_key by (auto simp: keyByHandle_def key_of_def split: option.splits handle_object.splits)
  let ?digest = "replicate 32 7 :: byte list" and ?s = "k_sessions sample_keyed ! 0" and ?w = "k_world sample_keyed"
  have take: "take (unat (32 :: 32 word)) ?digest = ?digest" by simp
  have pad: "sign_padding 0 None ?digest = Inr (PaddingNone, ''SHA256'')" by code_simp
  have alg: "Algorithm sample_rt KeyECDSA PaddingNone ''SHA256'' = Inr AlgECDSASHA256"
    by (simp add: Algorithm_def trim_sha upper_sha)
  obtain ctx w2 where ctx: "current_context sample_rt ?w = (ctx, w2)" by (cases "current_context sample_rt ?w")
  have reply: "w_server ?w sent (sign_request c token ''s1'' p) =
      HttpReply 200 '''' (Some (JObj [(''signature'', JStr ''MAYCAQECAQI='')]))" for sent c token p
    by (simp add: sample_keyed_server sample_world_def sample_reply_def sign_request_def signer_path_def
        PathEscape_def segment_char_def)
  obtain s' w' where "Sign sample_rt ''s1'' AlgECDSASHA256 ?digest ?s ?w = (Inr [48, 6, 2, 1, 1, 2, 1, 2], s', w')"
    by (simp add: Sign_reply [OF sample_keyed_token ctx] reply sample_raw)
  then have "GoSignHash sample_rt 2 0 None ?digest 32 sample_keyed =
      Some ((cBytes (replicate 31 0 @ [1] @ replicate 31 0 @ [2]), statusSuccess),
        sample_keyed\<lparr>k_sessions := (k_sessions sample_keyed)[0 := s'], k_world := w'\<rparr>)"
    by (simp add: GoSignHash_def ks take pad alg signHash_eq run_session_def cng_signature_def sample_raw
        Let_def del: replicate.simps take_replicate)
  then show ?thesis
    by (simp add: run_call_def sample_sign_call_def ksp_SignHash_def statusSuccess_def copyOut_cases cBytes_def
        del: replicate.simps)
qed

lemma sample_run:
  obtains run and k :: "64 ksp" where "process_run sample_rt sample_world run k" "length run = 3"
    "signed_digests run = [replicate 32 7]" "host_digests run = [replicate 32 7]"
proof -
  let ?open = "OpenProviderCall 0" and ?key = "OpenKeyCall 1 0 (Some (wide ''app''))"
  obtain a1 where one: "run_call sample_rt ?open sample_ksp = Some (HandleAnswer (fst a1) (snd a1), sample_opened)"
    by (cases "fst (ksp_OpenProvider sample_rt 0 sample_ksp)")
      (force simp: run_call_def sample_opened_def split: prod.splits)
  obtain a2 where two: "run_call sample_rt ?key sample_opened = Some (HandleAnswer (fst a2) (snd a2), sample_keyed)"
    by (cases "fst (ksp_OpenKey sample_rt 1 0 (Some (wide ''app'')) sample_opened)")
      (force simp: run_call_def sample_keyed_def split: prod.splits)
  obtain r k where three: "run_call sample_rt sample_sign_call sample_keyed = Some (BufferAnswer r, k)"
    and ok: "co_status r = statusSuccess"
    using sample_signed by blast
  let ?run = "(([] @ [(?open, HandleAnswer (fst a1) (snd a1))]) @ [(?key, HandleAnswer (fst a2) (snd a2))]) @
    [(sample_sign_call, BufferAnswer r)]"
  have "process_run sample_rt sample_world ?run k"
    by (rule process_run.process_call [OF process_run.process_call [OF process_run.process_call two] three])
      (use one in \<open>simp_all add: process_run.process_start sample_ksp_def\<close>)
  moreover have "signed_digests ?run = [replicate 32 7]" "host_digests ?run = [replicate 32 7]"
    using ok by (simp_all add: signed_digests_def host_digests_def map_filter_def sample_sign_call_def
        del: replicate.simps)
  ultimately show thesis by (intro that [of ?run k]) simp_all
qed

section \<open>Properties\<close>

text \<open>C2: Whatever calls the host makes, in whatever order, the answers of the process are those of the
  abstract key store: its runs are runs of the store it stands for.\<close>

theorem key_store_refinement:
  assumes "process_run G w run (k :: 'w::len ksp)" and "w_sent w = []" and "length run < 2 ^ LENGTH('w) - 1"
  shows "store_run G run (store_of k)"
  using process_run_refines [OF assms] .

theorem key_store_refinement_witness:
  "\<exists>run k. length run = 3 \<and> signed_digests run = [replicate 32 7] \<and> store_run sample_rt run (store_of (k :: 64 ksp))"
proof -
  obtain run k where run: "process_run sample_rt sample_world run (k :: 64 ksp)" "length run = 3"
    "signed_digests run = [replicate 32 7]"
    using sample_run by metis
  from key_store_refinement [OF run(1) sample_world_silent] run(2,3) show ?thesis by auto
qed

text \<open>C3: What the server was asked to sign in a run, as read from the requests, is what the host
  asked for and nothing else: a subsequence of the digests of its sign calls, which has in it, in
  order, every digest the host got a signature for.\<close>

theorem asked_in_order:
  assumes "process_run G w run (k :: 'w::len ksp)" and "w_sent w = []" and "length run < 2 ^ LENGTH('w) - 1"
  shows "subseq (signed_digests run) (journal_digests (journal (k_world k))) \<and>
    subseq (journal_digests (journal (k_world k))) (host_digests run)"
  using run_journal [OF process_run_refines [OF assms]] by (simp add: store_of_def)

theorem asked_in_order_witness:
  "\<exists>run k. process_run sample_rt sample_world run (k :: 64 ksp) \<and>
     subseq [replicate 32 7] (journal_digests (journal (k_world k))) \<and> subseq [replicate 32 7] (host_digests run)"
proof -
  obtain run k where run: "process_run sample_rt sample_world run (k :: 64 ksp)" "length run = 3"
    "signed_digests run = [replicate 32 7]"
    using sample_run by metis
  from asked_in_order [OF run(1) sample_world_silent] run show ?thesis
    by (intro exI [of _ run] exI [of _ k]) (auto intro: subseq_order.order_trans)
qed

end
