(* ===== verification/Function_Table.thy ===== *)
theory Function_Table
  imports Key_Store
begin

text \<open>
  The table of function pointers Windows obtains from \<open>GetKeyStorageInterface\<close>, and calls through
  it. The host picks a slot by its position; what runs is the function the initializer of
  \<open>g_FunctionTable\<close> put there. The version number in front of the table is a constant of the
  Windows headers and is left out. \<open>table_steps\<close>: the steps of the process are the calls through
  the table; \<open>passive_slot\<close>: only eight of its slots do anything.
\<close>

datatype c_function =
    OpenProviderFn | OpenKeyFn | GetKeyPropertyFn | ExportKeyFn | SignHashFn
  | FreeProviderFn | FreeKeyFn | FreeBufferFn | UnsupportedFn unsupported_entry

definition g_FunctionTable :: "c_function list" where
  "g_FunctionTable =
     [OpenProviderFn,
      OpenKeyFn,
      UnsupportedFn CreatePersistedKey,
      UnsupportedFn GetProviderProperty,
      GetKeyPropertyFn,
      UnsupportedFn SetProviderProperty,
      UnsupportedFn SetKeyProperty,
      UnsupportedFn FinalizeKey,
      UnsupportedFn DeleteKey,
      FreeProviderFn,
      FreeKeyFn,
      FreeBufferFn,
      UnsupportedFn Encrypt,
      UnsupportedFn Decrypt,
      UnsupportedFn IsAlgSupported,
      UnsupportedFn EnumAlgorithms,
      UnsupportedFn EnumKeys,
      UnsupportedFn ImportKey,
      ExportKeyFn,
      SignHashFn,
      UnsupportedFn VerifySignature,
      UnsupportedFn PromptUser,
      UnsupportedFn NotifyChangeKey,
      UnsupportedFn SecretAgreement,
      UnsupportedFn DeriveKey,
      UnsupportedFn FreeSecret]"

text \<open>The provider name and the flags are ignored; the table goes to \<open>*ppFunctionTable\<close>.\<close>

definition GetKeyStorageInterface :: "wide_string \<Rightarrow> 32 word \<Rightarrow> status \<times> c_function list" where
  "GetKeyStorageInterface pszProviderName dwFlags = (statusSuccess, g_FunctionTable)"

text \<open>The function that takes the arguments of a call.\<close>

fun function_of :: "'h ksp_call \<Rightarrow> c_function" where
  "function_of (OpenProviderCall _) = OpenProviderFn"
| "function_of (OpenKeyCall _ _ _) = OpenKeyFn"
| "function_of (GetKeyPropertyCall _ _ _ _ _) = GetKeyPropertyFn"
| "function_of (ExportKeyCall _ _ _ _ _) = ExportKeyFn"
| "function_of (SignHashCall _ _ _ _ _ _ _ _) = SignHashFn"
| "function_of (FreeProviderCall _) = FreeProviderFn"
| "function_of (FreeKeyCall _) = FreeKeyFn"
| "function_of FreeBufferCall = FreeBufferFn"
| "function_of (UnsupportedCall e) = UnsupportedFn e"

text \<open>A call through slot \<open>i\<close> of a table: \<open>None\<close> past its last slot, or when the arguments are not
  those of the function found there.\<close>

definition table_call ::
  "go_rt \<Rightarrow> c_function list \<Rightarrow> nat \<Rightarrow> 'w word ksp_call \<Rightarrow> ('w::len) ksp \<Rightarrow> ('w word answer \<times> 'w ksp) option" where
  "table_call G table i c k =
     (if i < length table \<and> table ! i = function_of c then run_call G c k else None)"

lemma table_size [simp]: "length g_FunctionTable = 26"
  by (simp add: g_FunctionTable_def)

lemma table_distinct: "distinct g_FunctionTable"
  by (simp add: g_FunctionTable_def)

lemma table_complete: "f \<in> set g_FunctionTable"
proof (cases f)
  case (UnsupportedFn e)
  then show ?thesis by (cases e) (simp_all add: g_FunctionTable_def)
qed (simp_all add: g_FunctionTable_def)

text \<open>Every function has a slot, and one only.\<close>

lemma table_slot: "\<exists>!i. i < length g_FunctionTable \<and> g_FunctionTable ! i = f"
  using table_complete [of f] table_distinct by (metis in_set_conv_nth nth_eq_iff_index_eq)

lemma table_call_run: "\<exists>i. table_call G g_FunctionTable i c k = run_call G c k"
proof -
  from table_slot [of "function_of c"] obtain i
    where "i < length g_FunctionTable" "g_FunctionTable ! i = function_of c" by blast
  then have "table_call G g_FunctionTable i c k = run_call G c k" unfolding table_call_def by simp
  then show ?thesis ..
qed

lemma table_steps:
  assumes "GetKeyStorageInterface name fl = (st, table)"
  shows "ksp_step G k k' \<longleftrightarrow> (\<exists>i c ans. table_call G table i c k = Some (ans, k'))"
proof -
  from assms have table: "table = g_FunctionTable" by (simp add: GetKeyStorageInterface_def)
  show ?thesis
  proof
    assume "ksp_step G k k'"
    then show "\<exists>i c ans. table_call G table i c k = Some (ans, k')"
      unfolding table by (metis step_run_call table_call_run)
  next
    assume "\<exists>i c ans. table_call G table i c k = Some (ans, k')"
    then show "ksp_step G k k'" by (metis table_call_def run_call_step option.distinct(1))
  qed
qed

definition active_slots :: "nat list" where
  "active_slots = [0, 1, 4, 9, 10, 11, 18, 19]"

lemma passive_function:
  assumes "i < length g_FunctionTable" and "i \<notin> set active_slots"
  shows "\<exists>e. g_FunctionTable ! i = UnsupportedFn e"
proof -
  have "list_all (\<lambda>i. i \<in> set active_slots \<or> (case g_FunctionTable ! i of UnsupportedFn _ \<Rightarrow> True | _ \<Rightarrow> False)) [0..<26]"
    by (simp add: upt_rec g_FunctionTable_def active_slots_def)
  then have "\<forall>i \<in> {0..<26}. i \<in> set active_slots \<or> (case g_FunctionTable ! i of UnsupportedFn _ \<Rightarrow> True | _ \<Rightarrow> False)"
    by (simp add: list_all_iff)
  with assms have "case g_FunctionTable ! i of UnsupportedFn _ \<Rightarrow> True | _ \<Rightarrow> False" by fastforce
  then show ?thesis by (cases "g_FunctionTable ! i") simp_all
qed

lemma passive_slot:
  assumes "table_call G g_FunctionTable i c k = Some (ans, k')" and "i \<notin> set active_slots"
  shows "ans = StatusAnswer statusNotSupported \<and> k' = k"
proof -
  from assms(1) have slot: "i < length g_FunctionTable" "g_FunctionTable ! i = function_of c"
    and run: "run_call G c k = Some (ans, k')"
    by (auto simp: table_call_def split: if_splits)
  from passive_function [OF slot(1) assms(2)] slot(2) obtain e where "c = UnsupportedCall e"
    by (cases c) auto
  with run show ?thesis by (simp add: run_call_def ksp_unsupported_def)
qed

text \<open>Freeing a key goes through slot 10.\<close>

lemma free_key_slot: "table_call G g_FunctionTable 10 (FreeKeyCall h) k =
    Some (StatusAnswer statusSuccess, GoFreeHandle h k)"
  by (simp add: table_call_def run_call_def ksp_FreeKey_def) (simp add: g_FunctionTable_def)

end
