(* ===== verification/Host_Runs.thy ===== *)
theory Host_Runs
  imports Key_Store
begin

text \<open>
  The calls a host makes one after another, as a list, and the life of a handle over them. A call
  changes the registry in one of three ways: not at all, by registering one object, or by freeing
  the handle it was given (\<open>registry_change\<close>). The counter only grows while there is room, so a
  handle that was handed out is not handed out again, freed or not (\<open>known_handle\<close>).
\<close>

text \<open>\<open>None\<close> as soon as a call does not return.\<close>

fun run_calls :: "go_rt \<Rightarrow> 'w word ksp_call list \<Rightarrow> ('w::len) ksp \<Rightarrow> 'w ksp option" where
  "run_calls G [] k = Some k"
| "run_calls G (c # cs) k = (case run_call G c k of None \<Rightarrow> None | Some (ans, k') \<Rightarrow> run_calls G cs k')"

definition frees :: "'h ksp_call \<Rightarrow> 'h \<Rightarrow> bool" where
  "frees c h \<longleftrightarrow> c \<in> {FreeKeyCall h, FreeProviderCall h}"

section \<open>What a call does to the registry\<close>

definition registry_change :: "'w word ksp_call \<Rightarrow> ('w::len) registry \<Rightarrow> 'w registry \<Rightarrow> bool" where
  "registry_change c r r' \<longleftrightarrow>
     (\<exists>h. frees c h \<and> r' = freeHandle h r) \<or>
     (\<forall>h. \<not> frees c h) \<and> (r' = r \<or> (\<exists>v. r' = snd (registerHandle v r)))"

lemma register_ksp_registry: "register_ksp v k = (h, k') \<Longrightarrow> k_registry k' = snd (registerHandle v (k_registry k))"
  by (auto simp: register_ksp_def split: prod.splits)

lemma openProvider_registry:
  assumes "openProvider G k = (r, k')"
  shows "k_registry k' = k_registry k \<or> (\<exists>v. k_registry k' = snd (registerHandle v (k_registry k)))"
  using assms
proof (cases rule: openProvider_cases)
  case (opened h cfg s k1)
  from register_ksp_registry [OF opened(5)] have "k_registry k' = snd (registerHandle (Provider (length (k_sessions k))) (k_registry k))"
    by (simp add: opened(4))
  then show ?thesis by blast
qed simp

lemma openKey_registry:
  assumes "openKey G hp name k = (r, k')"
  shows "k_registry k' = k_registry k \<or> (\<exists>v. k_registry k' = snd (registerHandle v (k_registry k)))"
  using assms
proof (cases rule: openKey_cases)
  case (opened i sg k1 pub k2 ks h)
  then show ?thesis
    using register_ksp_registry [OF opened(5)] run_session_registry [OF opened(2)] run_session_registry [OF opened(3)] by metis
qed (simp_all add: run_session_registry)

lemma GoSignHash_registry:
  assumes "GoSignHash G key fl pad hv chv k = Some (q, k')"
  shows "k_registry k' = k_registry k"
proof -
  obtain b st where q: "q = (b, st)" by (cases q)
  from assms [unfolded q] show ?thesis
  proof (cases rule: GoSignHash_cases)
    case (asked ks padding hashName a r k1)
    from asked(5) have "k_registry k' = k_registry k1" by (auto simp: log_ksp_def split: sum.splits)
    with run_session_registry [OF asked(4)] show ?thesis by simp
  qed (simp_all add: log_ksp_def)
qed

lemma call_registry:
  assumes "run_call G c k = Some (ans, k')"
  shows "registry_change c (k_registry k) (k_registry k')"
proof (cases c)
  case (OpenProviderCall ph)
  with assms obtain r where "ksp_OpenProvider G ph k = (r, k')" by (auto simp: run_call_def split: prod.splits)
  then show ?thesis
    by (elim ksp_OpenProvider_frame) (auto simp: OpenProviderCall registry_change_def frees_def dest: openProvider_registry)
next
  case (OpenKeyCall hp ph name)
  with assms obtain r where "ksp_OpenKey G hp ph name k = (r, k')" by (auto simp: run_call_def split: prod.splits)
  then show ?thesis
    by (elim ksp_OpenKey_frame) (auto simp: OpenKeyCall registry_change_def frees_def dest: openKey_registry)
next
  case (ExportKeyCall h bt out cb res)
  with assms show ?thesis
    by (auto simp: run_call_def registry_change_def frees_def ksp_ExportKey_def GoExportKey_def log_ksp_def Let_def
        split: prod.splits if_splits sum.splits)
next
  case (SignHashCall h pad hv chv out cb res fl)
  with assms have "k' = k \<or> (\<exists>q. GoSignHash G h fl pad hv chv k = Some (q, k'))"
    by (auto simp: run_call_def ksp_SignHash_def split_beta Let_def split: if_splits option.splits)
  with GoSignHash_registry have "k_registry k' = k_registry k" by blast
  then show ?thesis by (simp add: SignHashCall registry_change_def frees_def)
qed (use assms in \<open>auto simp: run_call_def registry_change_def frees_def ksp_FreeProvider_def ksp_FreeKey_def
    ksp_FreeBuffer_def ksp_unsupported_def GoFreeHandle_def\<close>)

text \<open>A handle below the counter, live or freed: only a call that frees it changes what it names.\<close>

lemma known_handle:
  assumes "registry_change c r r'" and "registry_room r" and "h < rg_next r"
  shows "h < rg_next r'" and "lookupHandle h r' = (if frees c h then None else lookupHandle h r)"
proof -
  have next_less: "rg_next r < rg_next r + 1" using assms(2) by (rule registry_next_less)
  with assms(1,3) show "h < rg_next r'"
    by (auto simp: registry_change_def freeHandle_def registerHandle_def Let_def)
  have "frees c j \<Longrightarrow> frees c h \<longleftrightarrow> j = h" for j by (auto simp: frees_def)
  with assms(1,3) show "lookupHandle h r' = (if frees c h then None else lookupHandle h r)"
    by (auto simp: registry_change_def freeHandle_def registerHandle_def lookupHandle_def Let_def)
qed

section \<open>Runs\<close>

lemma run_calls_handle:
  assumes "reachable G w n (k :: 'w::len ksp)" and "w_sent w = []" and "n + length cs < 2 ^ LENGTH('w) - 1"
    and "h < rg_next (k_registry k)" and "run_calls G cs k = Some k'"
  shows "lookupHandle h (k_registry k') = (if \<exists>c \<in> set cs. frees c h then None else lookupHandle h (k_registry k))"
  using assms
proof (induction cs arbitrary: n k)
  case (Cons c cs)
  from Cons.prems(5) obtain ans k1 where call: "run_call G c k = Some (ans, k1)" and rest: "run_calls G cs k1 = Some k'"
    by (auto split: option.splits)
  have next_step: "reachable G w (Suc n) k1" using Cons.prems(1) run_call_step [OF call] by (rule reachable.Step)
  have "ksp_room k" using reachable_room(2) [OF Cons.prems(1,2)] Cons.prems(3) by simp
  note one = known_handle [OF call_registry [OF call] this Cons.prems(4)]
  have "Suc n + length cs < 2 ^ LENGTH('w) - 1" using Cons.prems(3) by simp
  from Cons.IH [OF next_step Cons.prems(2) this one(1) rest] one(2) show ?case by simp
qed simp

section \<open>Properties\<close>

text \<open>C12: A live handle keeps naming its object through any calls of the host that do not free that
  very handle; once one of them does, every later call finds it an invalid handle, whatever was
  opened in between: it is never handed out again.\<close>

theorem handle_life:
  assumes "reachable G w n (k :: 'w::len ksp)" and "w_sent w = []" and "n + length cs < 2 ^ LENGTH('w) - 1"
    and "lookupHandle h (k_registry k) = Some v" and "run_calls G cs k = Some k'"
  shows "if FreeKeyCall h \<in> set cs \<or> FreeProviderCall h \<in> set cs
    then lookupHandle h (k_registry k') = None \<and> keyByHandle h k' = Inl ErrBadHandle \<and>
      fst (openKey G h name k') = Inl ErrBadHandle
    else lookupHandle h (k_registry k') = Some v"
proof -
  have "n < 2 ^ LENGTH('w) - 1" using assms(3) by simp
  with reachable_inv [OF assms(1,2)] have "registry_invar (k_registry k)" by (simp add: ksp_inv_def ksp_ok_def)
  with assms(4) have "h < rg_next (k_registry k)" by (auto simp: registry_invar_def lookupHandle_def)
  note run = run_calls_handle [OF assms(1-3) this assms(5)]
  have "(\<exists>c \<in> set cs. frees c h) \<longleftrightarrow> FreeKeyCall h \<in> set cs \<or> FreeProviderCall h \<in> set cs"
    by (auto simp: frees_def)
  with run assms(4) show ?thesis
    by (auto simp: keyByHandle_def key_of_def openKey_def provider_of_def)
qed

theorem handle_life_witness:
  "\<exists>k'. run_calls sample_rt [FreeKeyCall 2, OpenProviderCall 0] sample_keyed = Some k' \<and>
     keyByHandle 2 k' = Inl ErrBadHandle"
proof -
  have v: "lookupHandle 2 (k_registry sample_keyed) = Some (Key keyed_key)"
    by (simp add: sample_keyed_eq lookupHandle_def)
  have "\<exists>k'. run_calls sample_rt [FreeKeyCall 2, OpenProviderCall 0] sample_keyed = Some k'"
    by (simp add: run_call_def split_beta)
  then obtain k' where run: "run_calls sample_rt [FreeKeyCall 2, OpenProviderCall 0] sample_keyed = Some k'" by blast
  from handle_life [OF sample_keyed_reachable sample_world_silent _ v run] run show ?thesis by simp
qed

end
