(* ===== verification/Interleaving.thy ===== *)
theory Interleaving
  imports Signing "HOL-Library.Sublist"
begin

text \<open>
  Concurrent callers of one session. A \<open>Session\<close> has a mutex, which \<open>Signers\<close> holds throughout and
  which \<open>PublicKey\<close> and \<open>Sign\<close> hold while they use the caches but release around their network
  calls. Here every call is a task with a program counter: each step locks, unlocks, reads a cache,
  reads the clock and stores, or makes one request, and any number of tasks take turns, with other
  sessions of the process acting on the world in between.

  Shown are: the mutex is held by exactly the task that is in a critical section; tasks do not
  deadlock, for whoever has not returned can go on or waits for one who can; every turn brings its
  task closer to its end; and outside of the mutex the session is neither written nor read but for
  its configuration and client. What the tasks return is in \<open>Concurrent_Calls\<close>.
\<close>

section \<open>Tasks\<close>

datatype task_result =
    SignerResult string "signer result"
  | KeyResult string "public_key result"
  | SignResult string string "byte list" "byte list result"

datatype call = FindCall string | KeyCall string | SignCall string string "byte list"

text \<open>Where a task is when it does not hold the mutex, and when it does.\<close>

datatype outside =
    Enter call
  | Fetch string string
  | Reenter string public_key
  | Observe string string "byte list" string
  | Send string string "byte list" string signing_context
  | Denied string string "byte list" string signing_context go_error
  | Returned task_result

datatype inside =
    Check call
  | Authenticate call
  | FailureCache call
  | Credentials call
  | RecordFailure call go_error
  | KeepToken call string int
  | ClearFailure call string
  | Listing string string
  | KeepSigners string "signer list option"
  | KeepKey string public_key
  | Leave outside

datatype task = Out outside | In inside

section \<open>Steps\<close>

definition failed_result :: "call \<Rightarrow> go_error \<Rightarrow> task_result" where
  "failed_result c err = (case c of
       FindCall name \<Rightarrow> SignerResult name (Inl err)
     | KeyCall signerID \<Rightarrow> KeyResult signerID (Inl err)
     | SignCall signerID algorithm digest \<Rightarrow> SignResult signerID algorithm digest (Inl err))"

text \<open>\<open>ensureToken\<close> returns: the caller goes on with the token or returns the error.\<close>

definition authenticated :: "call \<Rightarrow> string result \<Rightarrow> inside" where
  "authenticated c r = (case r of
       Inl err \<Rightarrow> Leave (Returned (failed_result c err))
     | Inr token \<Rightarrow>
         (case c of
            FindCall name \<Rightarrow> Listing name token
          | KeyCall signerID \<Rightarrow> Leave (Fetch signerID token)
          | SignCall signerID algorithm digest \<Rightarrow> Leave (Observe signerID algorithm digest token)))"

definition pick_signer :: "go_rt \<Rightarrow> string \<Rightarrow> signer list option \<Rightarrow> signer result" where
  "pick_signer G nameOrID signers =
     (case find (\<lambda>sg. sg_Name sg = nameOrID \<or> sg_ID sg = nameOrID) (slice signers) of
        Some sg \<Rightarrow> Inr sg
      | None \<Rightarrow> Inl (Errorf (''no signer named '' @ go_quote G nameOrID @ '' is available to this identity'')))"

definition found :: "go_rt \<Rightarrow> string \<Rightarrow> signer list option \<Rightarrow> inside" where
  "found G name signers = Leave (Returned (SignerResult name (pick_signer G name signers)))"

definition check_step :: "go_rt \<Rightarrow> call \<Rightarrow> session \<Rightarrow> world \<Rightarrow> inside \<times> world" where
  "check_step G c s w = (case c of
       FindCall name \<Rightarrow>
         (let (fresh, w) = signers_fresh s w in
          (if fresh then found G name (s_signers s) else Authenticate c, w))
     | KeyCall signerID \<Rightarrow>
         (let (hit, w) = pub_key_lookup signerID s w in
          (case hit of
             Some key \<Rightarrow> Leave (Returned (KeyResult signerID (Inr key)))
           | None \<Rightarrow> Authenticate c, w))
     | SignCall _ _ _ \<Rightarrow> (Authenticate c, w))"

definition authenticate_step :: "go_rt \<Rightarrow> call \<Rightarrow> session \<Rightarrow> world \<Rightarrow> inside \<times> world" where
  "authenticate_step G c s w =
     (if Method (Auth (s_cfg s)) = AuthMethodToken then
        (authenticated c
           (if Token (Auth (s_cfg s)) = ''''
            then Inl (Errorf (''token auth selected but no token: set '' @ EnvToken))
            else Inr (Token (Auth (s_cfg s)))), w)
      else
        (let (fresh, w) = token_fresh s w in
         (if fresh then authenticated c (Inr (s_token s)) else FailureCache c, w)))"

definition credentials_step :: "go_rt \<Rightarrow> call \<Rightarrow> session \<Rightarrow> world \<Rightarrow> inside \<times> world" where
  "credentials_step G c s w =
     (let auth = Auth (s_cfg s) in
      if ClientID auth = '''' \<or> ClientSecret auth = '''' then
        (RecordFailure c (Errorf (''no Universal Auth credentials: set '' @ EnvClientID @ '' and '' @ EnvClientSecret)), w)
      else
        (let (r, w) = Login G (s_client s) (ClientID auth) (ClientSecret auth) w in
         (case r of
            Inl err \<Rightarrow> RecordFailure c err
          | Inr (token, ttl) \<Rightarrow> KeepToken c token ttl, w)))"

text \<open>A step in the critical section: where the task is next, the session and the world.\<close>

definition inside_step :: "go_rt \<Rightarrow> inside \<Rightarrow> session \<Rightarrow> world \<Rightarrow> inside \<times> session \<times> world" where
  "inside_step G p s w = (case p of
       Check c \<Rightarrow> (let (p, w) = check_step G c s w in (p, s, w))
     | Authenticate c \<Rightarrow> (let (p, w) = authenticate_step G c s w in (p, s, w))
     | FailureCache c \<Rightarrow>
         (let (hit, w) = cachedAuthFailure (auth_key s) w in
          (case hit of Some err \<Rightarrow> authenticated c (Inl err) | None \<Rightarrow> Credentials c, s, w))
     | Credentials c \<Rightarrow> (let (p, w) = credentials_step G c s w in (p, s, w))
     | RecordFailure c err \<Rightarrow> (authenticated c (Inl err), s, recordAuthFailure (auth_key s) err w)
     | KeepToken c token ttl \<Rightarrow>
         (let (expiry, w) = cacheExpiry ttl (TokenTTLSeconds (Cache (s_cfg s))) w in
          (ClearFailure c token, s\<lparr>s_token := token, s_tokenExpiry := expiry\<rparr>, w))
     | ClearFailure c token \<Rightarrow> (authenticated c (Inr token), s, clearAuthFailure (auth_key s) w)
     | Listing name token \<Rightarrow>
         (let (r, w) = ListSigners G (s_client s) token w in
          (case r of
             Inl err \<Rightarrow> Leave (Returned (SignerResult name (Inl err)))
           | Inr signers \<Rightarrow> KeepSigners name signers, s, w))
     | KeepSigners name signers \<Rightarrow>
         (let (t, w) = now w in
          (found G name signers,
           s\<lparr>s_signers := signers,
             s_signersExpiry := t + wrap64 (SignerTTLSeconds (Cache (s_cfg s)) * Second)\<rparr>, w))
     | KeepKey signerID key \<Rightarrow>
         (let (t, w) = now w in
          (Leave (Returned (KeyResult signerID (Inr key))),
           s\<lparr>s_pubKeys := (s_pubKeys s)(signerID := Some
             \<lparr>pk_key = key, pk_expiresAt = t + wrap64 (CertTTLSeconds (Cache (s_cfg s)) * Second)\<rparr>)\<rparr>, w))
     | Leave p \<Rightarrow> (Leave p, s, w))"

text \<open>A step outside of it, which reads the configuration and the client of the session only.\<close>

definition fetched :: "go_rt \<Rightarrow> string \<Rightarrow> string result \<Rightarrow> outside" where
  "fetched G signerID r = (case r of
       Inl err \<Rightarrow> Returned (KeyResult signerID (Inl err))
     | Inr certPEM \<Rightarrow>
         (case publicKeyFromCertPEM G certPEM of
            Inl err \<Rightarrow> Returned (KeyResult signerID (Inl err))
          | Inr key \<Rightarrow> Reenter signerID key))"

definition answer :: "string \<Rightarrow> string \<Rightarrow> byte list \<Rightarrow> signing_context \<Rightarrow> string result \<Rightarrow> string \<Rightarrow> outside" where
  "answer signerID algorithm digest signCtx r token = (case r of
       Inl err \<Rightarrow> Denied signerID algorithm digest token signCtx err
     | Inr sigB64 \<Rightarrow> Returned (SignResult signerID algorithm digest
         (case b64_decode sigB64 of None \<Rightarrow> Inl (StdError ''illegal base64 data'') | Some sig \<Rightarrow> Inr sig)))"

definition outside_step :: "go_rt \<Rightarrow> outside \<Rightarrow> session \<Rightarrow> world \<Rightarrow> outside \<times> world" where
  "outside_step G p s w = (case p of
       Fetch signerID token \<Rightarrow>
         (let (r, w) = GetCertificate G (s_client s) token signerID w in (fetched G signerID r, w))
     | Observe signerID algorithm digest token \<Rightarrow>
         (let (signCtx, w) = current_context G w in (Send signerID algorithm digest token signCtx, w))
     | Send signerID algorithm digest token signCtx \<Rightarrow>
         (let (r, w) = client_Sign G (s_client s) token signerID (sign_params signCtx algorithm digest) w in
          (answer signerID algorithm digest signCtx r token, w))
     | Denied signerID algorithm digest token signCtx err \<Rightarrow>
         (let (err, w) = autoRequestOnDenial G s token signerID signCtx digest err w in
          (Returned (SignResult signerID algorithm digest (Inl err)), w))
     | _ \<Rightarrow> (p, w))"

section \<open>Schedules\<close>

text \<open>Where a task goes on once it has the mutex, if that is what it waits for.\<close>

definition locks :: "outside \<Rightarrow> inside option" where
  "locks p = (case p of
       Enter (SignCall signerID algorithm digest) \<Rightarrow> Some (Authenticate (SignCall signerID algorithm digest))
     | Enter c \<Rightarrow> Some (Check c)
     | Reenter signerID key \<Rightarrow> Some (KeepKey signerID key)
     | _ \<Rightarrow> None)"

record shared =
  sh_tasks :: "task list"
  sh_mutex :: "nat option"
  sh_session :: session
  sh_world :: world

text \<open>The turn of task \<open>i\<close>: \<open>None\<close> if it has returned or waits for the mutex.\<close>

definition turn :: "go_rt \<Rightarrow> nat \<Rightarrow> shared \<Rightarrow> shared option" where
  "turn G i x =
     (let set_task = (\<lambda>t. x\<lparr>sh_tasks := (sh_tasks x)[i := t]\<rparr>) in
      case sh_tasks x ! i of
        In (Leave p) \<Rightarrow> Some ((set_task (Out p))\<lparr>sh_mutex := None\<rparr>)
      | In p \<Rightarrow>
          (let (p', s, w) = inside_step G p (sh_session x) (sh_world x) in
           Some ((set_task (In p'))\<lparr>sh_session := s, sh_world := w\<rparr>))
      | Out (Returned r) \<Rightarrow> None
      | Out p \<Rightarrow>
          (case locks p of
             Some p' \<Rightarrow> if sh_mutex x = None then Some ((set_task (In p'))\<lparr>sh_mutex := Some i\<rparr>) else None
           | None \<Rightarrow>
               (let (p', w) = outside_step G p (sh_session x) (sh_world x) in
                Some ((set_task (Out p'))\<lparr>sh_world := w\<rparr>))))"

text \<open>
  In a schedule a task takes its turn, and the list notes whose turn it was, or the rest of the
  process acts on the world: it may send requests, but cannot undo those sent.
\<close>

inductive schedule :: "go_rt \<Rightarrow> shared \<Rightarrow> nat list \<Rightarrow> shared \<Rightarrow> bool" for G x where
  Begin: "schedule G x [] x"
| Turn: "schedule G x is y \<Longrightarrow> i < length (sh_tasks y) \<Longrightarrow> turn G i y = Some z \<Longrightarrow> schedule G x (is @ [i]) z"
| Other: "schedule G x is y \<Longrightarrow> w_server w = w_server (sh_world y) \<Longrightarrow> prefix (w_sent (sh_world y)) (w_sent w) \<Longrightarrow>
    schedule G x is (y\<lparr>sh_world := w\<rparr>)"

text \<open>Calls that have just been made.\<close>

definition calls :: "call list \<Rightarrow> session \<Rightarrow> world \<Rightarrow> shared" where
  "calls cs s w = \<lparr>sh_tasks = map (\<lambda>c. Out (Enter c)) cs, sh_mutex = None, sh_session = s, sh_world = w\<rparr>"

text \<open>What a turn can be.\<close>

lemma turn_cases:
  assumes "turn G i x = Some y"
  obtains (unlock) p where "sh_tasks x ! i = In (Leave p)" "y = x\<lparr>sh_tasks := (sh_tasks x)[i := Out p], sh_mutex := None\<rparr>"
  | (inside) p p' s w where "sh_tasks x ! i = In p" "\<forall>q. p \<noteq> Leave q"
      "inside_step G p (sh_session x) (sh_world x) = (p', s, w)"
      "y = x\<lparr>sh_tasks := (sh_tasks x)[i := In p'], sh_session := s, sh_world := w\<rparr>"
  | (lock) p p' where "sh_tasks x ! i = Out p" "locks p = Some p'" "sh_mutex x = None"
      "y = x\<lparr>sh_tasks := (sh_tasks x)[i := In p'], sh_mutex := Some i\<rparr>"
  | (outside) p p' w where "sh_tasks x ! i = Out p" "\<forall>r. p \<noteq> Returned r" "locks p = None"
      "outside_step G p (sh_session x) (sh_world x) = (p', w)"
      "y = x\<lparr>sh_tasks := (sh_tasks x)[i := Out p'], sh_world := w\<rparr>"
proof (cases "sh_tasks x ! i")
  case (Out p)
  with assms show thesis
    by (cases "locks p"; cases p)
      (auto simp: turn_def Let_def split: if_splits prod.splits intro: lock outside)
next
  case (In p)
  with assms show thesis
    by (cases p) (auto simp: turn_def Let_def split: prod.splits intro: unlock inside)
qed

section \<open>The mutex\<close>

definition critical :: "task \<Rightarrow> bool" where
  "critical t \<longleftrightarrow> (\<exists>p. t = In p)"

definition mutex_ok :: "shared \<Rightarrow> bool" where
  "mutex_ok x \<longleftrightarrow> (\<forall>i < length (sh_tasks x). critical (sh_tasks x ! i) \<longleftrightarrow> sh_mutex x = Some i) \<and>
     (\<forall>i. sh_mutex x = Some i \<longrightarrow> i < length (sh_tasks x))"

lemma turn_length: "turn G i x = Some y \<Longrightarrow> length (sh_tasks y) = length (sh_tasks x)"
  by (erule turn_cases) simp_all

lemma turn_mutex_ok:
  assumes "turn G i x = Some y" and "i < length (sh_tasks x)" and "mutex_ok x"
  shows "mutex_ok y"
proof -
  have owner: "sh_mutex x = Some i" if "sh_tasks x ! i = In p" for p
    using that assms(2,3) by (auto simp: mutex_ok_def critical_def)
  from assms(1) show ?thesis
  proof (cases rule: turn_cases)
    case (unlock p)
    with owner assms(2,3) show ?thesis by (auto simp: mutex_ok_def critical_def nth_list_update)
  next
    case (inside p p' s w)
    with owner assms(2,3) show ?thesis by (auto simp: mutex_ok_def critical_def nth_list_update)
  qed (use assms(2,3) in \<open>auto simp: mutex_ok_def critical_def nth_list_update\<close>)
qed

lemma schedule_mutex_ok: "schedule G x is y \<Longrightarrow> mutex_ok x \<Longrightarrow> mutex_ok y"
  by (induction rule: schedule.induct) (auto dest: turn_mutex_ok, simp add: mutex_ok_def)

lemma schedule_length: "schedule G x is y \<Longrightarrow> length (sh_tasks y) = length (sh_tasks x)"
  by (induction rule: schedule.induct) (auto dest: turn_length)

lemma calls_mutex_ok: "mutex_ok (calls cs s w)"
  by (auto simp: mutex_ok_def critical_def calls_def)

text \<open>Whoever has not returned can go on, or waits for one who can.\<close>

lemma turn_possible:
  assumes "mutex_ok x" and "i < length (sh_tasks x)" and "\<forall>r. sh_tasks x ! i \<noteq> Out (Returned r)"
  shows "\<exists>j < length (sh_tasks x). turn G j x \<noteq> None"
proof (cases "sh_mutex x")
  case (Some j)
  with assms(1) obtain p where "j < length (sh_tasks x)" "sh_tasks x ! j = In p"
    by (auto simp: mutex_ok_def critical_def)
  then show ?thesis by (intro exI [of _ j]) (auto simp: turn_def Let_def split: inside.splits prod.splits)
next
  case None
  with assms obtain p where "sh_tasks x ! i = Out p" "\<forall>r. p \<noteq> Returned r"
    by (cases "sh_tasks x ! i") (auto simp: mutex_ok_def critical_def)
  with None assms(2) show ?thesis
    by (intro exI [of _ i]) (auto simp: turn_def Let_def split: outside.splits option.splits prod.splits)
qed

section \<open>Every call returns\<close>

text \<open>The turns a task has left, at most.\<close>

fun outside_left :: "outside \<Rightarrow> nat" where
  "outside_left (Enter c) = 12"
| "outside_left (Fetch signerID token) = 4"
| "outside_left (Reenter signerID key) = 3"
| "outside_left (Observe signerID algorithm digest token) = 3"
| "outside_left (Send signerID algorithm digest token signCtx) = 2"
| "outside_left (Denied signerID algorithm digest token signCtx err) = 1"
| "outside_left (Returned r) = 0"

fun inside_left :: "inside \<Rightarrow> nat" where
  "inside_left (Check c) = 11"
| "inside_left (Authenticate c) = 10"
| "inside_left (FailureCache c) = 9"
| "inside_left (Credentials c) = 8"
| "inside_left (KeepToken c token ttl) = 7"
| "inside_left (RecordFailure c err) = 6"
| "inside_left (ClearFailure c token) = 6"
| "inside_left (Listing name token) = 3"
| "inside_left (KeepSigners name signers) = 2"
| "inside_left (KeepKey signerID key) = 2"
| "inside_left (Leave p) = Suc (outside_left p)"

fun turns_left :: "task \<Rightarrow> nat" where
  "turns_left (Out p) = outside_left p"
| "turns_left (In p) = inside_left p"

text \<open>The call a task is the rest of.\<close>

fun result_of :: "task_result \<Rightarrow> call" where
  "result_of (SignerResult name r) = FindCall name"
| "result_of (KeyResult signerID r) = KeyCall signerID"
| "result_of (SignResult signerID algorithm digest r) = SignCall signerID algorithm digest"

fun outside_call :: "outside \<Rightarrow> call" where
  "outside_call (Enter c) = c"
| "outside_call (Fetch signerID token) = KeyCall signerID"
| "outside_call (Reenter signerID key) = KeyCall signerID"
| "outside_call (Observe signerID algorithm digest token) = SignCall signerID algorithm digest"
| "outside_call (Send signerID algorithm digest token signCtx) = SignCall signerID algorithm digest"
| "outside_call (Denied signerID algorithm digest token signCtx err) = SignCall signerID algorithm digest"
| "outside_call (Returned r) = result_of r"

fun inside_call :: "inside \<Rightarrow> call" where
  "inside_call (Check c) = c"
| "inside_call (Authenticate c) = c"
| "inside_call (FailureCache c) = c"
| "inside_call (Credentials c) = c"
| "inside_call (KeepToken c token ttl) = c"
| "inside_call (RecordFailure c err) = c"
| "inside_call (ClearFailure c token) = c"
| "inside_call (Listing name token) = FindCall name"
| "inside_call (KeepSigners name signers) = FindCall name"
| "inside_call (KeepKey signerID key) = KeyCall signerID"
| "inside_call (Leave p) = outside_call p"

fun task_call :: "task \<Rightarrow> call" where
  "task_call (Out p) = outside_call p"
| "task_call (In p) = inside_call p"

lemma authenticated_progress:
  "6 \<le> n \<Longrightarrow> inside_left (authenticated c r) < n" "inside_call (authenticated c r) = c"
  by (auto simp: authenticated_def failed_result_def split: sum.splits call.splits)

lemma found_progress:
  "inside_left (found G name signers) = 1" "inside_call (found G name signers) = FindCall name"
  by (simp_all add: found_def)

lemma check_progress:
  "inside_left (fst (check_step G c s w)) < 11 \<and> inside_call (fst (check_step G c s w)) = c"
  by (auto simp: check_step_def found_progress split_beta Let_def split: call.splits option.splits)

lemma authenticate_progress:
  "inside_left (fst (authenticate_step G c s w)) < 10 \<and> inside_call (fst (authenticate_step G c s w)) = c"
  by (auto simp: authenticate_step_def authenticated_progress split_beta Let_def)

lemma credentials_progress:
  "inside_left (fst (credentials_step G c s w)) < 8 \<and> inside_call (fst (credentials_step G c s w)) = c"
  by (auto simp: credentials_step_def split_beta Let_def split: sum.splits)

lemma inside_progress:
  assumes "inside_step G p s w = (p', s', w')" and "\<forall>q. p \<noteq> Leave q"
  shows "inside_left p' < inside_left p \<and> inside_call p' = inside_call p"
  using assms check_progress authenticate_progress credentials_progress
  by (cases p) (auto simp: inside_step_def found_progress authenticated_progress split_beta Let_def
      split: option.splits sum.splits)

lemma outside_progress:
  assumes "outside_step G p s w = (p', w')" and "\<forall>r. p \<noteq> Returned r" and "locks p = None"
  shows "outside_left p' < outside_left p \<and> outside_call p' = outside_call p"
  using assms
  by (cases p) (auto simp: outside_step_def fetched_def answer_def locks_def split_beta Let_def
      split: sum.splits call.splits)

lemma locks_progress: "locks p = Some p' \<Longrightarrow> inside_left p' < outside_left p \<and> inside_call p' = outside_call p"
  by (auto simp: locks_def split: outside.splits call.splits)

lemma turn_progress:
  assumes "turn G i x = Some y"
  obtains t where "sh_tasks y = (sh_tasks x)[i := t]" "turns_left t < turns_left (sh_tasks x ! i)"
    "task_call t = task_call (sh_tasks x ! i)"
  using assms
proof (cases rule: turn_cases)
  case (unlock p)
  then show ?thesis by (intro that [of "Out p"]) simp_all
next
  case (inside p p' s w)
  with inside_progress [OF inside(3,2)] show ?thesis by (intro that [of "In p'"]) simp_all
next
  case (lock p p')
  with locks_progress [OF lock(2)] show ?thesis by (intro that [of "In p'"]) simp_all
next
  case (outside p p' w)
  with outside_progress [OF outside(4,2,3)] show ?thesis by (intro that [of "Out p'"]) simp_all
qed

definition total_left :: "shared \<Rightarrow> nat" where
  "total_left x = sum_list (map turns_left (sh_tasks x))"

lemma total_left_turn:
  assumes "turn G i x = Some y" and "i < length (sh_tasks x)"
  shows "total_left y < total_left x"
proof -
  obtain t where t: "sh_tasks y = (sh_tasks x)[i := t]" "turns_left t < turns_left (sh_tasks x ! i)"
    using turn_progress [OF assms(1)] .
  have "sum_list ((map turns_left (sh_tasks x))[i := turns_left t]) < sum_list (map turns_left (sh_tasks x))"
    using t(2) assms(2) elem_le_sum_list [of i "map turns_left (sh_tasks x)"]
    by (subst sum_list_update) auto
  with t(1) show ?thesis by (simp add: total_left_def map_update)
qed

lemma schedule_left: "schedule G x is y \<Longrightarrow> total_left y + length is \<le> total_left x"
proof (induction rule: schedule.induct)
  case (Turn js y i z)
  with total_left_turn [OF Turn.hyps(3,2)] show ?case by simp
qed (simp_all add: total_left_def)

lemma schedule_call:
  "schedule G x is y \<Longrightarrow> i < length (sh_tasks x) \<Longrightarrow> task_call (sh_tasks y ! i) = task_call (sh_tasks x ! i)"
proof (induction rule: schedule.induct)
  case (Turn js y j z)
  obtain t where "sh_tasks z = (sh_tasks y)[j := t]" "task_call t = task_call (sh_tasks y ! j)"
    using turn_progress [OF Turn.hyps(3)] by metis
  with Turn schedule_length [OF Turn.hyps(1)] show ?case by (auto simp: nth_list_update)
qed simp_all

text \<open>The longest call, a \<open>PublicKey\<close> that has to log in, takes twelve turns.\<close>

lemma calls_left: "total_left (calls cs s w) = 12 * length cs"
  by (simp add: total_left_def calls_def o_def sum_list_triv)

lemma calls_task: "i < length cs \<Longrightarrow> sh_tasks (calls cs s w) ! i = Out (Enter (cs ! i))"
  by (simp add: calls_def)

lemma calls_length: "length (sh_tasks (calls cs s w)) = length cs"
  by (simp add: calls_def)

section \<open>What the mutex guards\<close>

lemma requestApproval_cong:
  "s_cfg s' = s_cfg s \<Longrightarrow> s_client s' = s_client s \<Longrightarrow>
    requestApproval G s' token signerID ctx hash w = requestApproval G s token signerID ctx hash w"
  by (simp add: requestApproval_def)

lemma autoRequestOnDenial_cong:
  assumes "s_cfg s' = s_cfg s" and "s_client s' = s_client s"
  shows "autoRequestOnDenial G s' token signerID ctx digest err w = autoRequestOnDenial G s token signerID ctx digest err w"
  unfolding autoRequestOnDenial_def requestApproval_cong [OF assms] assms(1) ..

lemma outside_step_cong:
  assumes "s_cfg s' = s_cfg s" and "s_client s' = s_client s"
  shows "outside_step G p s' w = outside_step G p s w"
  unfolding outside_step_def autoRequestOnDenial_cong [OF assms] assms(2) ..

lemma turn_Out:
  "sh_tasks x ! i = Out p \<Longrightarrow> \<forall>r. p \<noteq> Returned r \<Longrightarrow> turn G i x =
     (case locks p of
        Some p' \<Rightarrow> if sh_mutex x = None
          then Some (x\<lparr>sh_tasks := (sh_tasks x)[i := In p'], sh_mutex := Some i\<rparr>) else None
      | None \<Rightarrow>
          (let (p', w) = outside_step G p (sh_session x) (sh_world x) in
           Some (x\<lparr>sh_tasks := (sh_tasks x)[i := Out p'], sh_world := w\<rparr>)))"
  by (cases p; hypsubst; simp add: turn_def Let_def)

lemma turn_unlocked:
  assumes "turn G i x = Some y" and "\<not> critical (sh_tasks x ! i)"
  shows "sh_session y = sh_session x"
    and "s_cfg s' = s_cfg (sh_session x) \<Longrightarrow> s_client s' = s_client (sh_session x) \<Longrightarrow>
      turn G i (x\<lparr>sh_session := s'\<rparr>) = Some (y\<lparr>sh_session := s'\<rparr>)"
proof -
  show "sh_session y = sh_session x"
    using assms(2) by (cases rule: turn_cases [OF assms(1)]) (simp_all add: critical_def)
  assume "s_cfg s' = s_cfg (sh_session x)" "s_client s' = s_client (sh_session x)"
  note cong = outside_step_cong [OF this, of G]
  show "turn G i (x\<lparr>sh_session := s'\<rparr>) = Some (y\<lparr>sh_session := s'\<rparr>)"
  proof (rule turn_cases [OF assms(1)])
    fix p p' assume "sh_tasks x ! i = Out p" "locks p = Some p'" "sh_mutex x = None"
      and y: "y = x\<lparr>sh_tasks := (sh_tasks x)[i := In p'], sh_mutex := Some i\<rparr>"
    moreover from this(2) have "\<forall>r. p \<noteq> Returned r" by (auto simp: locks_def)
    ultimately show ?thesis by (simp add: turn_Out)
  qed (use assms(2) in \<open>simp_all add: critical_def turn_Out cong\<close>)
qed

end
