(* ===== verification/Concurrent_Calls.thy ===== *)
theory Concurrent_Calls
  imports Interleaving
begin

text \<open>
  What the concurrent calls of \<open>Interleaving\<close> return. A call that runs alone goes through the method
  of \<open>Session\<close> it models, and under every schedule a key or a signature comes from the server's
  answer to the request for it. The last part runs two calls that take turns.
\<close>

section \<open>A call that runs alone\<close>

definition alone :: "task \<Rightarrow> session \<Rightarrow> world \<Rightarrow> shared" where
  "alone t s w = \<lparr>sh_tasks = [t], sh_mutex = (if critical t then Some 0 else None), sh_session = s, sh_world = w\<rparr>"

text \<open>The turns of a list, taken one after the other with nothing in between.\<close>

primrec run_turns :: "go_rt \<Rightarrow> nat list \<Rightarrow> shared \<Rightarrow> shared option" where
  "run_turns G [] x = Some x"
| "run_turns G (i # is) x = (case turn G i x of None \<Rightarrow> None | Some y \<Rightarrow> run_turns G is y)"

lemma run_turns_schedule:
  "schedule G x js y \<Longrightarrow> \<forall>i \<in> set is. i < length (sh_tasks y) \<Longrightarrow> run_turns G is y = Some z \<Longrightarrow>
     schedule G x (js @ is) z"
proof (induction "is" arbitrary: js y)
  case (Cons i "is")
  then obtain v where v: "turn G i y = Some v" "run_turns G is v = Some z" by (auto split: option.splits)
  with Cons.prems have "schedule G x (js @ [i]) v" by (intro schedule.Turn [OF Cons.prems(1)]) simp_all
  from Cons.IH [OF this] Cons.prems(2) v turn_length [OF v(1)] show ?case by simp
qed simp

definition leads :: "go_rt \<Rightarrow> shared \<Rightarrow> shared \<Rightarrow> bool" where
  "leads G x y \<longleftrightarrow> (\<exists>n. run_turns G (replicate n 0) x = Some y)"

lemma leads_refl: "leads G x x"
  unfolding leads_def by (rule exI [of _ 0]) simp

lemma leads_turn: "turn G 0 x = Some y \<Longrightarrow> leads G y z \<Longrightarrow> leads G x z"
  unfolding leads_def by (elim exE, rule_tac x = "Suc n" in exI) simp

lemma turn_In:
  "sh_tasks x ! i = In p \<Longrightarrow> \<forall>q. p \<noteq> Leave q \<Longrightarrow> turn G i x =
     (let (p', s, w) = inside_step G p (sh_session x) (sh_world x) in
      Some (x\<lparr>sh_tasks := (sh_tasks x)[i := In p'], sh_session := s, sh_world := w\<rparr>))"
  by (cases p; hypsubst; simp add: turn_def Let_def)

text \<open>One turn of a task that is alone.\<close>

lemma leads_inside:
  "inside_step G p s w = (p', s', w') \<Longrightarrow> \<forall>q. p \<noteq> Leave q \<Longrightarrow>
    leads G (alone (In p') s' w') y \<Longrightarrow> leads G (alone (In p) s w) y"
  by (erule leads_turn [rotated]) (simp_all add: alone_def turn_In critical_def)

lemma leads_leave: "leads G (alone (Out p) s w) y \<Longrightarrow> leads G (alone (In (Leave p)) s w) y"
  by (erule leads_turn [rotated]) (simp_all add: alone_def turn_def critical_def)

lemma leads_lock:
  "locks p = Some p' \<Longrightarrow> leads G (alone (In p') s w) y \<Longrightarrow> leads G (alone (Out p) s w) y"
  by (erule leads_turn [rotated], subst turn_Out)
    (auto simp: alone_def critical_def locks_def)

lemma leads_outside:
  "outside_step G p s w = (p', w') \<Longrightarrow> locks p = None \<Longrightarrow> \<forall>r. p \<noteq> Returned r \<Longrightarrow>
    leads G (alone (Out p') s w') y \<Longrightarrow> leads G (alone (Out p) s w) y"
  by (erule leads_turn [rotated]) (simp_all add: alone_def turn_Out critical_def)

text \<open>The steps from \<open>Authenticate\<close> on are \<open>ensureToken\<close>.\<close>

lemma leads_login:
  assumes "login_session G s w = (r, s', w')" and "leads G (alone (In (authenticated c r)) s' w') y"
  shows "leads G (alone (In (Credentials c)) s w) y"
proof -
  let ?auth = "Auth (s_cfg s)"
  have fail: ?thesis if "credentials_step G c s w = (RecordFailure c err, w1)"
    "r = Inl err" "s' = s" "w' = recordAuthFailure (auth_key s) err w1" for err w1
    using that assms(2)
    by (intro leads_inside [of G "Credentials c" s w "RecordFailure c err" s w1]
        leads_inside [of G "RecordFailure c err" s w1 "authenticated c r" s' w']) (simp_all add: inside_step_def)
  obtain lr w1 where login: "Login G (s_client s) (ClientID ?auth) (ClientSecret ?auth) w = (lr, w1)"
    by (cases "Login G (s_client s) (ClientID ?auth) (ClientSecret ?auth) w")
  show ?thesis
  proof (cases "ClientID ?auth = '''' \<or> ClientSecret ?auth = ''''")
    case True
    with assms(1) show ?thesis by (intro fail) (auto simp: credentials_step_def login_session_def Let_def)
  next
    case False
    show ?thesis
    proof (cases lr)
      case (Inl err)
      with assms(1) False login show ?thesis
        by (intro fail) (auto simp: credentials_step_def login_session_def Let_def)
    next
      case (Inr tt)
      obtain token ttl where tt: "tt = (token, ttl)" by (cases tt)
      obtain expiry w2 where expiry: "cacheExpiry ttl (TokenTTLSeconds (Cache (s_cfg s))) w1 = (expiry, w2)"
        by (cases "cacheExpiry ttl (TokenTTLSeconds (Cache (s_cfg s))) w1")
      let ?s = "s\<lparr>s_token := token, s_tokenExpiry := expiry\<rparr>"
      have "r = Inr token" "s' = ?s" "w' = clearAuthFailure (auth_key s) w2"
        using assms(1) False login Inr tt expiry by (auto simp: login_session_def Let_def)
      with assms(2) False login Inr tt expiry show ?thesis
        by (intro leads_inside [of G "Credentials c" s w "KeepToken c token ttl" s w1]
            leads_inside [of G "KeepToken c token ttl" s w1 "ClearFailure c token" ?s w2]
            leads_inside [of G "ClearFailure c token" ?s w2 "authenticated c r" s' w'])
          (simp_all add: inside_step_def credentials_step_def auth_key_def Let_def)
    qed
  qed
qed

lemma leads_token:
  assumes "ensureToken G s w = (r, s', w')" and "leads G (alone (In (authenticated c r)) s' w') y"
  shows "leads G (alone (In (Authenticate c)) s w) y"
proof -
  obtain fresh w1 where fresh: "token_fresh s w = (fresh, w1)" by (cases "token_fresh s w")
  obtain hit w2 where hit: "cachedAuthFailure (auth_key s) w1 = (hit, w2)" by (cases "cachedAuthFailure (auth_key s) w1")
  show ?thesis
  proof (cases "Method (Auth (s_cfg s)) = AuthMethodToken \<or> fresh")
    case True
    with assms fresh show ?thesis
      by (intro leads_inside [of G "Authenticate c" s w "authenticated c r" s' w'])
        (auto simp: inside_step_def authenticate_step_def ensureToken_def Let_def split: if_splits)
  next
    case False
    with fresh have first: "inside_step G (Authenticate c) s w = (FailureCache c, s, w1)"
      by (simp add: inside_step_def authenticate_step_def Let_def)
    show ?thesis
    proof (cases hit)
      case (Some err)
      with assms False fresh hit show ?thesis
        by (intro leads_inside [OF first] leads_inside [of G "FailureCache c" s w1 "authenticated c r" s' w'])
          (auto simp: inside_step_def ensureToken_def Let_def)
    next
      case None
      with assms False fresh hit have "login_session G s w2 = (r, s', w')" by (simp add: ensureToken_def Let_def)
      from leads_login [OF this assms(2)] None hit show ?thesis
        by (intro leads_inside [OF first] leads_inside [of G "FailureCache c" s w1 "Credentials c" s w2])
          (simp_all add: inside_step_def Let_def)
    qed
  qed
qed

text \<open>The methods of \<open>Session\<close>, by the call.\<close>

definition called_method :: "go_rt \<Rightarrow> call \<Rightarrow> session \<Rightarrow> world \<Rightarrow> task_result \<times> session \<times> world" where
  "called_method G c s w = (case c of
       FindCall name \<Rightarrow> (let (r, s, w) = FindSigner G name s w in (SignerResult name r, s, w))
     | KeyCall signerID \<Rightarrow> (let (r, s, w) = PublicKey G signerID s w in (KeyResult signerID r, s, w))
     | SignCall signerID algorithm digest \<Rightarrow>
         (let (r, s, w) = Sign G signerID algorithm digest s w in (SignResult signerID algorithm digest r, s, w)))"

lemma leads_find:
  assumes "FindSigner G name s w = (r, s', w')"
  shows "leads G (alone (Out (Enter (FindCall name))) s w) (alone (Out (Returned (SignerResult name r))) s' w')"
proof -
  let ?final = "alone (Out (Returned (SignerResult name r))) s' w'"
  obtain q where signers: "Signers G s w = (q, s', w')" and r: "r = (case q of Inl err \<Rightarrow> Inl err | Inr l \<Rightarrow> pick_signer G name l)"
    using assms by (auto simp: FindSigner_def pick_signer_def split: prod.splits sum.splits option.splits)
  have finish: "leads G (alone (In (found G name l)) s' w') ?final" if "q = Inr l" for l
    using that r by (simp add: found_def leads_leave leads_refl)
  obtain fresh w1 where fresh: "signers_fresh s w = (fresh, w1)" by (cases "signers_fresh s w")
  have start: "leads G (alone (Out (Enter (FindCall name))) s w) ?final"
    if "leads G (alone (In (Check (FindCall name))) s w) ?final"
    using that by (rule leads_lock [rotated]) (simp add: locks_def)
  show ?thesis
  proof (cases fresh)
    case True
    with signers fresh finish show ?thesis
      by (intro start leads_inside [of G "Check (FindCall name)" s w "found G name (s_signers s)" s w1])
        (auto simp: inside_step_def check_step_def Signers_def Let_def)
  next
    case False
    obtain tr s2 w2 where token: "ensureToken G s w1 = (tr, s2, w2)" by (cases "ensureToken G s w1")
    have check: "leads G (alone (Out (Enter (FindCall name))) s w) ?final"
      if "leads G (alone (In (authenticated (FindCall name) tr)) s2 w2) ?final"
      using False fresh leads_token [OF token that]
      by (intro start leads_inside [of G "Check (FindCall name)" s w "Authenticate (FindCall name)" s w1])
        (simp_all add: inside_step_def check_step_def Let_def)
    show ?thesis
    proof (cases tr)
      case (Inl err)
      with signers fresh False token r show ?thesis
        by (intro check) (auto simp: Signers_def Let_def authenticated_def failed_result_def leads_leave leads_refl)
    next
      case (Inr tok)
      obtain lr w3 where list: "ListSigners G (s_client s2) tok w2 = (lr, w3)" by (cases "ListSigners G (s_client s2) tok w2")
      show ?thesis
      proof (cases lr)
        case (Inl err)
        with signers fresh False token Inr list r have "r = Inl err" "s' = s2" "w' = w3"
          by (auto simp: Signers_def)
        with Inl Inr list show ?thesis
          by (intro check) (simp add: authenticated_def leads_leave leads_refl inside_step_def
              leads_inside [of G "Listing name tok" s2 w2 "Leave (Returned (SignerResult name (Inl err)))" s2 w3])
      next
        case l: (Inr l)
        obtain t w4 where now: "now w3 = (t, w4)" by (cases "now w3")
        let ?s = "s2\<lparr>s_signers := l,
          s_signersExpiry := t + wrap64 (SignerTTLSeconds (Cache (s_cfg s2)) * Second)\<rparr>"
        have "Signers G s w = (Inr l, ?s, w4)"
          using fresh False token Inr list l now by (simp add: Signers_def)
        with signers finish [of l] have keep: "s' = ?s" "w' = w4" "leads G (alone (In (found G name l)) ?s w4) ?final"
          by auto
        from keep(3) Inr l list now show ?thesis
          by (intro check) (simp add: authenticated_def inside_step_def
              leads_inside [of G "Listing name tok" s2 w2 "KeepSigners name l" s2 w3]
              leads_inside [of G "KeepSigners name l" s2 w3 "found G name l" ?s w4])
      qed
    qed
  qed
qed

lemma leads_keep:
  "leads G (alone (Out (Reenter signerID key)) s w) (alone (Out (Returned (KeyResult signerID (Inr key))))
     (s\<lparr>s_pubKeys := (s_pubKeys s)(signerID := Some \<lparr>pk_key = key,
        pk_expiresAt = clock w + wrap64 (CertTTLSeconds (Cache (s_cfg s)) * Second)\<rparr>)\<rparr>) (snd (now w)))"
  by (rule leads_lock [of _ "KeepKey signerID key"], simp add: locks_def,
      rule leads_inside [of _ _ _ _ "Leave (Returned (KeyResult signerID (Inr key)))"],
      simp add: inside_step_def Let_def split_beta, simp, rule leads_leave, rule leads_refl)

lemma leads_denied:
  "autoRequestOnDenial G s token signerID ctx digest err w = (err', w') \<Longrightarrow>
    leads G (alone (Out (Denied signerID algorithm digest token ctx err)) s w)
      (alone (Out (Returned (SignResult signerID algorithm digest (Inl err')))) s w')"
  by (rule leads_outside [of _ _ _ _ "Returned (SignResult signerID algorithm digest (Inl err'))" w'])
    (simp_all add: outside_step_def locks_def leads_refl)

lemma leads_key:
  assumes "PublicKey G signerID s w = (r, s', w')"
  shows "leads G (alone (Out (Enter (KeyCall signerID))) s w) (alone (Out (Returned (KeyResult signerID r))) s' w')"
proof -
  let ?c = "KeyCall signerID" and ?final = "alone (Out (Returned (KeyResult signerID r))) s' w'"
  obtain hit w1 where hit: "pub_key_lookup signerID s w = (hit, w1)" by (cases "pub_key_lookup signerID s w")
  have start: "leads G (alone (Out (Enter ?c)) s w) ?final" if "leads G (alone (In (Check ?c)) s w) ?final"
    using that by (rule leads_lock [rotated]) (simp add: locks_def)
  show ?thesis
  proof (cases hit)
    case (Some key)
    with assms hit show ?thesis
      by (intro start leads_inside [of G "Check ?c" s w "Leave (Returned (KeyResult signerID (Inr key)))" s w1])
        (auto simp: inside_step_def check_step_def PublicKey_def Let_def leads_leave leads_refl)
  next
    case None
    obtain tr s2 w2 where token: "ensureToken G s w1 = (tr, s2, w2)" by (cases "ensureToken G s w1")
    have check: "leads G (alone (Out (Enter ?c)) s w) ?final" if "leads G (alone (In (authenticated ?c tr)) s2 w2) ?final"
      using None hit leads_token [OF token that]
      by (intro start leads_inside [of G "Check ?c" s w "Authenticate ?c" s w1])
        (simp_all add: inside_step_def check_step_def Let_def)
    show ?thesis
    proof (cases tr)
      case (Inl err)
      with assms hit None token show ?thesis
        by (intro check) (auto simp: PublicKey_def authenticated_def failed_result_def leads_leave leads_refl)
    next
      case (Inr tok)
      obtain cr w3 where cert: "GetCertificate G (s_client s2) tok signerID w2 = (cr, w3)"
        by (cases "GetCertificate G (s_client s2) tok signerID w2")
      have fetch: "leads G (alone (Out (Enter ?c)) s w) ?final"
        if "leads G (alone (Out (fetched G signerID cr)) s2 w3) ?final"
        using Inr cert that
        by (intro check) (auto simp: authenticated_def outside_step_def locks_def
            intro!: leads_leave leads_outside [of G "Fetch signerID tok" s2 w2])
      show ?thesis
      proof (cases "\<exists>certPEM key. cr = Inr certPEM \<and> publicKeyFromCertPEM G certPEM = Inr key")
        case True
        then obtain certPEM key where key: "cr = Inr certPEM" "publicKeyFromCertPEM G certPEM = Inr key" by blast
        let ?s = "s2\<lparr>s_pubKeys := (s_pubKeys s2)(signerID := Some \<lparr>pk_key = key,
          pk_expiresAt = clock w3 + wrap64 (CertTTLSeconds (Cache (s_cfg s2)) * Second)\<rparr>)\<rparr>"
        have "PublicKey G signerID s w = (Inr key, ?s, snd (now w3))"
          using hit None token Inr cert key by (simp add: PublicKey_def split_beta Let_def)
        with assms have "r = Inr key" "s' = ?s" "w' = snd (now w3)" by simp_all
        with key leads_keep [of G signerID key s2 w3] show ?thesis by (intro fetch) (simp add: fetched_def)
      next
        case False
        with assms hit None token Inr cert show ?thesis
          by (intro fetch) (auto simp: PublicKey_def fetched_def leads_refl split: sum.splits)
      qed
    qed
  qed
qed

lemma leads_sign:
  assumes "Sign G signerID algorithm digest s w = (r, s', w')"
  shows "leads G (alone (Out (Enter (SignCall signerID algorithm digest))) s w)
    (alone (Out (Returned (SignResult signerID algorithm digest r))) s' w')"
proof -
  let ?c = "SignCall signerID algorithm digest" and ?final = "alone (Out (Returned (SignResult signerID algorithm digest r))) s' w'"
  obtain tr s1 w1 where token: "ensureToken G s w = (tr, s1, w1)" by (cases "ensureToken G s w")
  have start: "leads G (alone (Out (Enter ?c)) s w) ?final" if "leads G (alone (In (authenticated ?c tr)) s1 w1) ?final"
    using leads_token [OF token that] by (rule leads_lock [rotated]) (simp add: locks_def)
  show ?thesis
  proof (cases tr)
    case (Inl err)
    with assms token show ?thesis
      by (intro start) (auto simp: Sign_def authenticated_def failed_result_def leads_leave leads_refl)
  next
    case (Inr tok)
    obtain ctx w2 where ctx: "current_context G w1 = (ctx, w2)" by (cases "current_context G w1")
    obtain cr w3 where call: "client_Sign G (s_client s1) tok signerID (sign_params ctx algorithm digest) w2 = (cr, w3)"
      by (cases "client_Sign G (s_client s1) tok signerID (sign_params ctx algorithm digest) w2")
    have send: "leads G (alone (Out (Enter ?c)) s w) ?final"
      if "leads G (alone (Out (answer signerID algorithm digest ctx cr tok)) s1 w3) ?final"
      using Inr ctx call that
      by (intro start) (auto simp: authenticated_def outside_step_def locks_def
          intro!: leads_leave leads_outside [of G "Observe signerID algorithm digest tok" s1 w1]
            leads_outside [of G "Send signerID algorithm digest tok ctx" s1 w2])
    show ?thesis
    proof (cases cr)
      case (Inl err)
      with assms token Inr ctx call show ?thesis
        by (intro send) (auto simp: Sign_def answer_def leads_denied split: prod.splits)
    next
      case sig: (Inr sigB64)
      with assms token Inr ctx call show ?thesis
        by (intro send) (auto simp: Sign_def answer_def leads_refl split: option.splits)
    qed
  qed
qed

section \<open>Where results come from\<close>

text \<open>The server answered a request that was sent, with an HTTP success, and this is its answer.\<close>

definition answered :: "world \<Rightarrow> http_request \<Rightarrow> json option \<Rightarrow> bool" where
  "answered w rq out \<longleftrightarrow> (\<exists>sent status body.
     prefix (sent @ [rq]) (w_sent w) \<and> w_server w sent rq = HttpReply status body out \<and> status \<le> 399)"

definition key_from :: "go_rt \<Rightarrow> client \<Rightarrow> world \<Rightarrow> string \<Rightarrow> public_key \<Rightarrow> bool" where
  "key_from G c w signerID key \<longleftrightarrow> (\<exists>token out. answered w (certificate_request c token signerID) out \<and>
     publicKeyFromCertPEM G (cr_CertificatePem (decode_cert G out)) = Inr key)"

definition signature_from ::
  "go_rt \<Rightarrow> client \<Rightarrow> world \<Rightarrow> string \<Rightarrow> string \<Rightarrow> byte list \<Rightarrow> byte list \<Rightarrow> bool" where
  "signature_from G c w signerID algorithm digest sig \<longleftrightarrow> (\<exists>token ctx out.
     answered w (sign_request c token signerID (sign_params ctx algorithm digest)) out \<and>
     b64_decode (decode_signature G out) = Some sig)"

text \<open>What holds of a task when it is about to return or to keep a key.\<close>

fun outside_ok :: "go_rt \<Rightarrow> client \<Rightarrow> world \<Rightarrow> outside \<Rightarrow> bool" where
  "outside_ok G c w (Reenter signerID key) = key_from G c w signerID key"
| "outside_ok G c w (Returned (KeyResult signerID (Inr key))) = key_from G c w signerID key"
| "outside_ok G c w (Returned (SignResult signerID algorithm digest (Inr sig))) =
     signature_from G c w signerID algorithm digest sig"
| "outside_ok _ _ _ _ = True"

fun inside_ok :: "go_rt \<Rightarrow> client \<Rightarrow> world \<Rightarrow> inside \<Rightarrow> bool" where
  "inside_ok G c w (KeepKey signerID key) = key_from G c w signerID key"
| "inside_ok G c w (Leave p) = outside_ok G c w p"
| "inside_ok _ _ _ _ = True"

fun task_ok :: "go_rt \<Rightarrow> client \<Rightarrow> world \<Rightarrow> task \<Rightarrow> bool" where
  "task_ok G c w (Out p) = outside_ok G c w p"
| "task_ok G c w (In p) = inside_ok G c w p"

definition keys_ok :: "go_rt \<Rightarrow> client \<Rightarrow> world \<Rightarrow> session \<Rightarrow> bool" where
  "keys_ok G c w s \<longleftrightarrow> s_client s = c \<and>
     (\<forall>signerID entry. s_pubKeys s signerID = Some entry \<longrightarrow> key_from G c w signerID (pk_key entry))"

text \<open>What was answered stays answered.\<close>

definition later :: "world \<Rightarrow> world \<Rightarrow> bool" where
  "later w w' \<longleftrightarrow> w_server w' = w_server w \<and> prefix (w_sent w) (w_sent w')"

lemma later_trans: "later w w' \<Longrightarrow> later w' w'' \<Longrightarrow> later w w''"
  by (auto simp: later_def)

lemma later_step: "world_step s w w' \<Longrightarrow> later w w'"
  by (auto simp: later_def world_step_def)

lemma answered_later: "later w w' \<Longrightarrow> answered w rq out \<Longrightarrow> answered w' rq out"
  unfolding later_def answered_def by (metis prefix_order.order_trans)

lemma from_later:
  assumes "later w w'"
  shows "key_from G c w signerID key \<Longrightarrow> key_from G c w' signerID key"
    and "signature_from G c w signerID algorithm digest sig \<Longrightarrow> signature_from G c w' signerID algorithm digest sig"
  using answered_later [OF assms] unfolding key_from_def signature_from_def by blast+

lemma task_ok_later:
  assumes "later w w'"
  shows "outside_ok G c w p \<Longrightarrow> outside_ok G c w' p" and "inside_ok G c w q \<Longrightarrow> inside_ok G c w' q"
    and "task_ok G c w t \<Longrightarrow> task_ok G c w' t"
proof -
  show out: "outside_ok G c w p \<Longrightarrow> outside_ok G c w' p" for p
    by (cases "(G, c, w, p)" rule: outside_ok.cases) (auto dest: from_later [OF assms])
  show ins: "inside_ok G c w q \<Longrightarrow> inside_ok G c w' q" for q
    by (cases "(G, c, w, q)" rule: inside_ok.cases) (auto dest: from_later [OF assms] out)
  show "task_ok G c w t \<Longrightarrow> task_ok G c w' t"
    by (cases t) (auto dest: out ins)
qed

lemma keys_ok_later: "later w w' \<Longrightarrow> keys_ok G c w s \<Longrightarrow> keys_ok G c w' s"
  unfolding keys_ok_def by (meson from_later(1))

section \<open>Every step keeps it\<close>

lemma answered_send:
  assumes "w_server w (w_sent w) rq = HttpReply status body out" and "status \<le> 399"
  shows "answered (snd (send rq w)) rq out"
  using assms by (auto simp: answered_def send_def)

lemma get_certificate_answered:
  assumes "GetCertificate G c token signerID w = (Inr certPEM, w')" and "publicKeyFromCertPEM G certPEM = Inr key"
  shows "key_from G c w' signerID key"
proof -
  have w': "w' = snd (send (certificate_request c token signerID) w)"
    using get_certificate.sends [of G c token signerID w] assms(1) by simp
  from assms(1) obtain status body out where
    "w_server w (w_sent w) (certificate_request c token signerID) = HttpReply status body out" "status \<le> 399"
    "certPEM = cr_CertificatePem (decode_cert G out)"
    by (auto simp: GetCertificate_def call_result_def send_def split: http_reply.splits if_splits)
  with assms(2) answered_send show ?thesis unfolding w' key_from_def by blast
qed

lemma client_sign_answered:
  assumes "client_Sign G c token signerID (sign_params ctx algorithm digest) w = (Inr sigB64, w')"
    and "b64_decode sigB64 = Some sig"
  shows "signature_from G c w' signerID algorithm digest sig"
proof -
  let ?rq = "sign_request c token signerID (sign_params ctx algorithm digest)"
  have w': "w' = snd (send ?rq w)"
    using sign.sends [of G c token signerID "sign_params ctx algorithm digest" w] assms(1) by simp
  from assms(1) obtain status body out where
    "w_server w (w_sent w) ?rq = HttpReply status body out" "status \<le> 399" "sigB64 = decode_signature G out"
    by (auto simp: client_Sign_def call_result_def send_def split: http_reply.splits if_splits)
  with assms(2) answered_send show ?thesis unfolding w' signature_from_def by blast
qed

lemma keys_ok_frame:
  assumes "keys_ok G c w s" and "later w w'" and "s_client s' = s_client s" and "s_pubKeys s' = s_pubKeys s"
  shows "keys_ok G c w' s'"
  using keys_ok_later [OF assms(2,1)] assms(3,4) by (simp add: keys_ok_def)


lemma later_reads:
  "later w w" "later w (snd (now w))" "later w (snd (token_fresh s w))" "later w (snd (signers_fresh s w))"
  "later w (snd (pub_key_lookup signerID s w))" "later w (snd (cachedAuthFailure key w))"
  "later w (recordAuthFailure key err w)" "later w (clearAuthFailure key w)"
  "later w (snd (cacheExpiry reported ceiling w))" "later w (snd (current_context G w))"
  "later w (snd (autoRequestOnDenial G s token signerID ctx digest err w))"
  by (rule later_step, rule world_step_refl world_step_now [OF world_step_refl] world_step_reads
      world_step_context world_step_autoRequest)+

lemma later_send: "later w (snd (send rq w))"
  by (simp add: later_def send_def)

lemma later_calls:
  "later w (snd (Login G c i secret w))" "later w (snd (ListSigners G c token w))"
  "later w (snd (GetCertificate G c token signerID w))" "later w (snd (client_Sign G c token signerID p w))"
  by (simp_all add: login.sends list_signers.sends get_certificate.sends sign.sends later_send)

lemma authenticated_ok [simp]: "inside_ok G c w (authenticated d r)"
  by (auto simp: authenticated_def failed_result_def split: sum.splits call.splits)

lemma found_ok [simp]: "inside_ok G c w (found H name signers)"
  by (simp add: found_def)

lemma inside_step_later: "inside_step G p s w = (p', s', w') \<Longrightarrow> later w w'"
  by (cases p) (auto simp: inside_step_def check_step_def authenticate_step_def credentials_step_def
      split_beta Let_def later_reads later_calls split: call.splits if_splits)

lemma inside_step_session:
  "inside_step G p s w = (p', s', w') \<Longrightarrow> \<forall>signerID key. p \<noteq> KeepKey signerID key \<Longrightarrow>
    s_client s' = s_client s \<and> s_pubKeys s' = s_pubKeys s"
  by (cases p) (auto simp: inside_step_def split_beta Let_def)

lemma check_step_ok:
  assumes "keys_ok G c w s"
  shows "inside_ok G c w (fst (check_step H d s v))"
proof -
  have "key_from G c w signerID key" if "fst (pub_key_lookup signerID s v) = Some key" for signerID key
    using that assms by (auto simp: keys_ok_def pub_key_lookup_fst pub_key_at_def split: option.splits if_splits)
  then show ?thesis by (auto simp: check_step_def split_beta Let_def split: call.splits option.splits)
qed

lemma inside_step_sound:
  assumes step: "inside_step G p s w = (p', s', w')" and keys: "keys_ok G c w s" and ok: "inside_ok G c w p"
  shows "keys_ok G c w' s' \<and> inside_ok G c w' p'"
proof -
  note w' = inside_step_later [OF step]
  show ?thesis
  proof (cases "\<exists>signerID key. p = KeepKey signerID key")
    case True
    then obtain signerID key where p: "p = KeepKey signerID key" by blast
    with ok from_later(1) [OF w'] have "key_from G c w' signerID key" by simp
    with step p keys_ok_later [OF w' keys] show ?thesis
      by (auto simp: inside_step_def keys_ok_def Let_def split: prod.splits if_splits)
  next
    case False
    with inside_step_session [OF step] have "keys_ok G c w' s'" by (intro keys_ok_frame [OF keys w']) simp_all
    moreover have "inside_ok G c w' p'"
      using step False check_step_ok [OF keys_ok_later [OF w' keys]] task_ok_later(2) [OF w' ok]
      by (cases p) (auto simp: inside_step_def authenticate_step_def credentials_step_def split_beta Let_def
          split: option.splits sum.splits)
    ultimately show ?thesis by blast
  qed
qed

lemma outside_step_sound:
  assumes step: "outside_step G p s w = (p', w')" and keys: "keys_ok G c w s" and ok: "outside_ok G c w p"
  shows "later w w' \<and> outside_ok G c w' p'"
proof -
  have client: "s_client s = c" using keys by (simp add: keys_ok_def)
  show ?thesis
  proof (cases p)
    case (Fetch signerID token)
    obtain r w1 where call: "GetCertificate G c token signerID w = (r, w1)" by (cases "GetCertificate G c token signerID w")
    with step Fetch client later_calls(3) [of w G c token signerID] get_certificate_answered [of G c token signerID w] 
    show ?thesis by (auto simp: outside_step_def fetched_def split: sum.splits)
  next
    case (Send signerID algorithm digest token ctx)
    let ?p = "sign_params ctx algorithm digest"
    obtain r w1 where call: "client_Sign G c token signerID ?p w = (r, w1)" by (cases "client_Sign G c token signerID ?p w")
    with step Send client later_calls(4) [of w G c token signerID ?p] client_sign_answered [of G c token signerID ctx algorithm digest w] 
    show ?thesis by (auto simp: outside_step_def answer_def split: sum.splits option.splits)
  qed (use step ok later_reads in \<open>auto simp: outside_step_def split_beta Let_def\<close>)
qed

definition all_ok :: "go_rt \<Rightarrow> client \<Rightarrow> shared \<Rightarrow> bool" where
  "all_ok G c x \<longleftrightarrow> keys_ok G c (sh_world x) (sh_session x) \<and> list_all (task_ok G c (sh_world x)) (sh_tasks x)"

lemma all_ok_update:
  assumes "all_ok G c x" and "later (sh_world x) (sh_world y)" and "keys_ok G c (sh_world y) (sh_session y)"
    and "sh_tasks y = (sh_tasks x)[i := t]" and "task_ok G c (sh_world y) t"
  shows "all_ok G c y"
  using assms by (auto simp: all_ok_def list_all_iff dest: task_ok_later(3) set_update_subset_insert [THEN subsetD])

lemma locks_ok: "locks p = Some q \<Longrightarrow> outside_ok G c w p \<Longrightarrow> inside_ok G c w q"
  by (auto simp: locks_def split: outside.splits call.splits)

lemma turn_ok:
  assumes "turn G i x = Some y" and "i < length (sh_tasks x)" and "all_ok G c x"
  shows "all_ok G c y"
proof -
  have keys: "keys_ok G c (sh_world x) (sh_session x)" and ok: "task_ok G c (sh_world x) (sh_tasks x ! i)"
    using assms(2,3) by (auto simp: all_ok_def list_all_length)
  from assms(1) show ?thesis
  proof (cases rule: turn_cases)
    case (unlock p)
    with keys ok show ?thesis by (intro all_ok_update [OF assms(3), of y i "Out p"]) (simp_all add: later_reads)
  next
    case (inside p p' s w)
    with keys ok inside_step_later [OF inside(3)] inside_step_sound [OF inside(3) keys] show ?thesis
      by (intro all_ok_update [OF assms(3), of y i "In p'"]) simp_all
  next
    case (lock p p')
    with keys ok locks_ok [OF lock(2)] show ?thesis
      by (intro all_ok_update [OF assms(3), of y i "In p'"]) (simp_all add: later_reads)
  next
    case (outside p p' w)
    with ok outside_step_sound [OF outside(4) keys] have "later (sh_world x) w \<and> outside_ok G c w p'" by simp
    with outside keys_ok_later [OF _ keys] show ?thesis
      by (intro all_ok_update [OF assms(3), of y i "Out p'"]) simp_all
  qed
qed

lemma schedule_ok: "schedule G x is y \<Longrightarrow> all_ok G c x \<Longrightarrow> all_ok G c y"
proof (induction rule: schedule.induct)
  case (Turn js y i z)
  then show ?case using turn_ok by blast
next
  case (Other js y w)
  then have "later (sh_world y) w" by (simp add: later_def)
  with Other show ?case by (auto simp: all_ok_def list_all_iff dest: task_ok_later(3) keys_ok_later)
qed simp

section \<open>Two calls that take turns\<close>

text \<open>Two goroutines ask for the keys of two signers; the first fetches while the second holds the mutex.\<close>

definition sample_turns :: "nat list" where
  "sample_turns = [0, 0, 0, 0, 1, 1, 0, 1, 1, 1, 1, 1, 1, 0, 0, 0]"

definition sample_calls :: shared where
  "sample_calls = calls [KeyCall ''s2'', KeyCall ''s1''] sample_session sample_world"

definition sample_outcome :: shared where
  "sample_outcome = the (run_turns sample_rt sample_turns sample_calls)"

lemma concurrent_run:
  "\<exists>s w. run_turns sample_rt sample_turns sample_calls = Some
     \<lparr>sh_tasks = [Out (Returned (KeyResult ''s2'' (Inr (RSAKey 3233 17)))), Out (Returned (KeyResult ''s1'' (Inr (ECKey 256 1 2))))],
      sh_mutex = None, sh_session = s, sh_world = w\<rparr>"
proof -
  have none: "pub_key_lookup signerID sample_session w = (None, w)" for signerID w
    by (simp add: pub_key_lookup_def sample_session_def)
  have token: "authenticate_step G c sample_session w = (authenticated c (Inr ''jwt''), w)" for G c w
    by (simp add: authenticate_step_def sample_session_def sample_config_def)
  show ?thesis
    by (simp add: sample_turns_def sample_calls_def calls_def turn_def locks_def inside_step_def check_step_def none token
        authenticated_def outside_step_def fetched_def GetCertificate_def send_def call_result_def
        sample_certificates sample_certificate_keys now_def Let_def)
qed

lemma sample_outcome:
  "run_turns sample_rt sample_turns sample_calls = Some sample_outcome"
  "sh_tasks sample_outcome =
     [Out (Returned (KeyResult ''s2'' (Inr (RSAKey 3233 17)))), Out (Returned (KeyResult ''s1'' (Inr (ECKey 256 1 2))))]"
  using concurrent_run by (auto simp: sample_outcome_def)

lemma sample_schedule:
  "schedule sample_rt (calls [KeyCall ''s2'', KeyCall ''s1''] sample_session sample_world) sample_turns sample_outcome"
proof -
  have "\<forall>i \<in> set sample_turns. i < length (sh_tasks sample_calls)"
    by (simp add: sample_turns_def sample_calls_def calls_def)
  from run_turns_schedule [OF schedule.Begin this sample_outcome(1)] show ?thesis by (simp add: sample_calls_def)
qed

text \<open>After six turns the second is in its critical section and the first is about to fetch.\<close>

definition sample_midway :: shared where
  "sample_midway = the (run_turns sample_rt (take 6 sample_turns) sample_calls)"

lemma sample_midway:
  "run_turns sample_rt (take 6 sample_turns) sample_calls = Some sample_midway"
  "sh_tasks sample_midway = [Out (Fetch ''s2'' ''jwt''), In (Authenticate (KeyCall ''s1''))]"
  "sh_mutex sample_midway = Some 1"
proof -
  have none: "pub_key_lookup signerID sample_session w = (None, w)" for signerID w
    by (simp add: pub_key_lookup_def sample_session_def)
  have token: "authenticate_step G c sample_session w = (authenticated c (Inr ''jwt''), w)" for G c w
    by (simp add: authenticate_step_def sample_session_def sample_config_def)
  have "\<exists>y. run_turns sample_rt (take 6 sample_turns) sample_calls = Some y \<and>
      sh_tasks y = [Out (Fetch ''s2'' ''jwt''), In (Authenticate (KeyCall ''s1''))] \<and> sh_mutex y = Some 1"
    by (simp add: sample_turns_def sample_calls_def calls_def turn_def locks_def inside_step_def check_step_def none token
        authenticated_def Let_def)
  then show "run_turns sample_rt (take 6 sample_turns) sample_calls = Some sample_midway"
    "sh_tasks sample_midway = [Out (Fetch ''s2'' ''jwt''), In (Authenticate (KeyCall ''s1''))]"
    "sh_mutex sample_midway = Some 1"
    by (auto simp: sample_midway_def)
qed

lemma sample_schedule_midway:
  "schedule sample_rt (calls [KeyCall ''s2'', KeyCall ''s1''] sample_session sample_world) (take 6 sample_turns) sample_midway"
proof -
  have "\<forall>i \<in> set (take 6 sample_turns). i < length (sh_tasks sample_calls)"
    by (simp add: sample_turns_def sample_calls_def calls_def)
  from run_turns_schedule [OF schedule.Begin this sample_midway(1)] show ?thesis by (simp add: sample_calls_def)
qed

section \<open>Properties\<close>

text \<open>C19: A call that takes all the turns is the method it models: with nothing in between it returns what
  \<open>FindSigner\<close>, \<open>PublicKey\<close> or \<open>Sign\<close> returns, leaves the session and the world that method leaves,
  and has released the mutex.\<close>

theorem segments_sequential:
  "let (r, s', w') = called_method G c s w in
   \<exists>n. run_turns G (replicate n 0) (calls [c] s w) =
     Some \<lparr>sh_tasks = [Out (Returned r)], sh_mutex = None, sh_session = s', sh_world = w'\<rparr>"
proof -
  obtain r s' w' where run: "called_method G c s w = (r, s', w')" by (cases "called_method G c s w")
  then have "leads G (alone (Out (Enter c)) s w) (alone (Out (Returned r)) s' w')"
    by (cases c) (auto simp: called_method_def leads_find leads_key leads_sign split: prod.splits)
  with run show ?thesis by (simp add: leads_def alone_def calls_def critical_def)
qed

text \<open>C8: Under any schedule of concurrent calls of a session, whatever other sessions do meanwhile,
  a public key returned for a signer is the one of a certificate the server returned for that very
  signer, and a signature returned is the server's answer to the sign request for that signer,
  algorithm and digest.\<close>

theorem concurrent_calls:
  assumes "schedule G (calls cs s w) turns y" and "s_pubKeys s = (\<lambda>_. None)" and "Out (Returned r) \<in> set (sh_tasks y)"
  shows "(\<forall>signerID key. r = KeyResult signerID (Inr key) \<longrightarrow> key_from G (s_client s) (sh_world y) signerID key) \<and>
    (\<forall>signerID algorithm digest sig. r = SignResult signerID algorithm digest (Inr sig) \<longrightarrow>
      signature_from G (s_client s) (sh_world y) signerID algorithm digest sig)"
proof -
  have "all_ok G (s_client s) (calls cs s w)"
    using assms(2) by (auto simp: all_ok_def keys_ok_def calls_def list_all_iff)
  from schedule_ok [OF assms(1) this] assms(3) have "task_ok G (s_client s) (sh_world y) (Out (Returned r))"
    by (auto simp: all_ok_def list_all_iff)
  then show ?thesis by auto
qed

theorem concurrent_calls_witness:
  "key_from sample_rt (s_client sample_session) (sh_world sample_outcome) ''s2'' (RSAKey 3233 17)"
proof -
  have "s_pubKeys sample_session = (\<lambda>_. None)" by (simp add: sample_session_def)
  from concurrent_calls [OF sample_schedule this, of "KeyResult ''s2'' (Inr (RSAKey 3233 17))"]
  show ?thesis by (simp add: sample_outcome)
qed

text \<open>C18: Calls that are made concurrently all return: whatever the schedule, it has at most twelve turns per
  call, and when it can have no further turn, the calls are not stuck on the mutex but every one has
  returned, with a result of that call.\<close>

theorem call_returns:
  assumes "schedule G (calls cs s w) turns y"
  shows "length turns \<le> 12 * length cs \<and>
    ((\<forall>i < length cs. turn G i y = None) \<longrightarrow>
     (\<forall>i < length cs. \<exists>r. sh_tasks y ! i = Out (Returned r) \<and> result_of r = cs ! i))"
proof (intro conjI impI allI)
  show "length turns \<le> 12 * length cs" using schedule_left [OF assms] by (simp add: calls_left)
next
  fix i assume stuck: "\<forall>i < length cs. turn G i y = None" and i: "i < length cs"
  note len = schedule_length [OF assms, unfolded calls_length]
  have "\<not> (\<exists>j < length (sh_tasks y). turn G j y \<noteq> None)" using stuck len by simp
  with turn_possible [OF schedule_mutex_ok [OF assms calls_mutex_ok], of i G] i len
  have "\<exists>r. sh_tasks y ! i = Out (Returned r)" by metis
  moreover have "task_call (sh_tasks y ! i) = cs ! i"
    using schedule_call [OF assms, of i] i by (simp add: calls_task calls_length)
  ultimately show "\<exists>r. sh_tasks y ! i = Out (Returned r) \<and> result_of r = cs ! i" by auto
qed

theorem call_returns_witness: "\<exists>r. sh_tasks sample_outcome ! 1 = Out (Returned r) \<and> result_of r = KeyCall ''s1''"
proof -
  have "turn sample_rt i sample_outcome = None" if "i < 2" for i
    using that by (auto simp: less_2_cases_iff turn_def sample_outcome)
  with call_returns [OF sample_schedule] show ?thesis by (auto simp: numeral_2_eq_2)
qed

text \<open>C20: What \<open>s.mu\<close> guards is used under it only: a call is in a critical section just when it holds the
  mutex, and the turn of a call that does not hold it neither writes the session nor depends on more
  of it than the configuration and the client.\<close>

theorem session_guarded:
  assumes "schedule G (calls cs s w) turns y" and "i < length cs"
  shows "(critical (sh_tasks y ! i) \<longleftrightarrow> sh_mutex y = Some i) \<and>
    (\<forall>z. turn G i y = Some z \<and> sh_mutex y \<noteq> Some i \<longrightarrow> sh_session z = sh_session y \<and>
      (\<forall>s'. s_cfg s' = s_cfg (sh_session y) \<and> s_client s' = s_client (sh_session y) \<longrightarrow>
         turn G i (y\<lparr>sh_session := s'\<rparr>) = Some (z\<lparr>sh_session := s'\<rparr>)))"
proof -
  have "critical (sh_tasks y ! i) \<longleftrightarrow> sh_mutex y = Some i"
    using schedule_mutex_ok [OF assms(1) calls_mutex_ok] schedule_length [OF assms(1)] assms(2)
    by (simp add: mutex_ok_def calls_length)
  then show ?thesis using turn_unlocked by blast
qed

theorem session_guarded_witness:
  "sh_session (the (turn sample_rt 0 sample_midway)) = sh_session sample_midway \<and> sh_mutex sample_midway = Some 1"
proof -
  have "turn sample_rt 0 sample_midway \<noteq> None" by (simp add: turn_def sample_midway locks_def Let_def split_beta)
  with session_guarded [OF sample_schedule_midway, of 0] show ?thesis by (auto simp: sample_midway)
qed

end
