(* ===== verification/Lockout.thy ===== *)
theory Lockout
  imports Signing Concurrent_Calls
begin

text \<open>
  The login-failure cache over runs: any calls of any sessions of the process, one after another,
  on the world they share. \<open>quiet_step\<close> is what every method keeps of a failure on record: while
  the clock reads less than its expiry the record stays, and no session with the same client ID and
  server sends a login. The locale \<open>quiet_op\<close> extends the contract of a method by it.
\<close>

section \<open>A failure on record\<close>

definition locked :: "string \<Rightarrow> int \<Rightarrow> go_error \<Rightarrow> world \<Rightarrow> bool" where
  "locked key expiry err w \<longleftrightarrow> (\<forall>t. auth_failure_at key w t = (if t < expiry then Some err else None))"

definition read_before :: "int \<Rightarrow> world \<Rightarrow> world \<Rightarrow> bool" where
  "read_before expiry w w' \<longleftrightarrow> (\<forall>n. w_ticks w \<le> n \<and> n < w_ticks w' \<longrightarrow> w_time w n < expiry)"

definition sent_tokens :: "world \<Rightarrow> world \<Rightarrow> bool" where
  "sent_tokens w w' \<longleftrightarrow> (\<exists>new. w_sent w' = w_sent w @ new \<and> (\<forall>rq \<in> set new. rq_AuthToken rq \<noteq> None))"

definition quiet_step :: "string \<Rightarrow> int \<Rightarrow> session \<Rightarrow> world \<Rightarrow> world \<Rightarrow> bool" where
  "quiet_step key expiry s w w' \<longleftrightarrow> world_step s w w' \<and>
     (\<forall>err. locked key expiry err w \<and> read_before expiry w w' \<longrightarrow>
        locked key expiry err w' \<and> (auth_key s = key \<longrightarrow> sent_tokens w w'))"

lemma locked_cong: "w_authFail w' key = w_authFail w key \<Longrightarrow> locked key expiry err w' = locked key expiry err w"
  by (simp add: locked_def auth_failure_at_def)

lemma sent_tokens_trans: "sent_tokens w w' \<Longrightarrow> sent_tokens w' w'' \<Longrightarrow> sent_tokens w w''"
  unfolding sent_tokens_def by (metis UnE append.assoc set_append)

lemma read_before_split:
  assumes "read_before expiry w w''" and "world_step s w w'" and "world_step s' w' w''"
  shows "read_before expiry w w'" and "read_before expiry w' w''"
  using assms by (auto simp: read_before_def world_step_def)

lemma quiet_step_trans:
  assumes "quiet_step key expiry s w w'" and "quiet_step key expiry s w' w''"
  shows "quiet_step key expiry s w w''"
proof -
  from assms have steps: "world_step s w w'" "world_step s w' w''" by (simp_all add: quiet_step_def)
  with assms show ?thesis
    using read_before_split [OF _ steps] world_step_trans [OF steps] sent_tokens_trans
    unfolding quiet_step_def by metis
qed

lemma quiet_step_cong:
  assumes "same_session s s'" shows "quiet_step key expiry s' = quiet_step key expiry s"
proof -
  from assms have "auth_key s' = auth_key s" by (simp add: same_session_def auth_key_def)
  then show ?thesis by (intro ext) (simp add: quiet_step_def world_step_cong [OF assms])
qed

lemma quiet_step_later:
  "quiet_step key expiry s w w1 \<Longrightarrow> same_session s s1 \<Longrightarrow> quiet_step key expiry s1 w1 w2 \<Longrightarrow> quiet_step key expiry s w w2"
  by (metis quiet_step_cong quiet_step_trans)

text \<open>Steps that leave the failure cache alone and send nothing but requests with a token.\<close>

lemma quiet_step_plain:
  "world_step s w w' \<Longrightarrow> w_authFail w' = w_authFail w \<Longrightarrow> sent_tokens w w' \<Longrightarrow> quiet_step key expiry s w w'"
  using locked_cong [of w' key w expiry] by (simp add: quiet_step_def)

lemma sent_tokens_same: "w_sent w' = w_sent w \<Longrightarrow> sent_tokens w w'"
  by (simp add: sent_tokens_def)

lemma quiet_step_still:
  "world_step s w w' \<Longrightarrow> w_authFail w' = w_authFail w \<Longrightarrow> w_sent w' = w_sent w \<Longrightarrow> quiet_step key expiry s w w'"
  by (rule quiet_step_plain) (simp_all add: sent_tokens_same)

lemma quiet_step_refl: "quiet_step key expiry s w w"
  by (rule quiet_step_still) simp_all

lemma quiet_step_now: "quiet_step key expiry s w (snd (now w))"
  by (rule quiet_step_still [OF world_step_now [OF world_step_refl]]) simp_all

lemma token_fresh_frame:
  "w_authFail (snd (token_fresh s w)) = w_authFail w" "w_sent (snd (token_fresh s w)) = w_sent w"
  "w_time (snd (token_fresh s w)) = w_time w" "w_ticks w \<le> w_ticks (snd (token_fresh s w))"
  "w_ticks (snd (token_fresh s w)) \<le> Suc (w_ticks w)"
  by (simp_all add: token_fresh_def Let_def split_beta)

lemma cache_read_frame:
  "w_authFail (snd (signers_fresh s w)) = w_authFail w" "w_sent (snd (signers_fresh s w)) = w_sent w"
  "w_authFail (snd (pub_key_lookup signerID s w)) = w_authFail w" "w_sent (snd (pub_key_lookup signerID s w)) = w_sent w"
  "w_authFail (snd (current_context G w)) = w_authFail w" "w_sent (snd (current_context G w)) = w_sent w"
  by (simp_all add: signers_fresh_def pub_key_lookup_def current_context_def Let_def split_beta split: option.splits)

lemma quiet_step_reads:
  "quiet_step key expiry s w (snd (token_fresh s0 w))" "quiet_step key expiry s w (snd (signers_fresh s0 w))"
  "quiet_step key expiry s w (snd (pub_key_lookup signerID s0 w))" "quiet_step key expiry s w (snd (current_context G w))"
  by (rule quiet_step_still [OF world_step_reads(1)], simp_all only: token_fresh_frame)
    (rule quiet_step_still [OF world_step_reads(2)] quiet_step_still [OF world_step_reads(3)]
       quiet_step_still [OF world_step_context], simp_all only: cache_read_frame)+

lemma quiet_step_sent:
  "world_step s w (snd (send rq w)) \<Longrightarrow> rq_AuthToken rq \<noteq> None \<Longrightarrow> quiet_step key expiry s w (snd (send rq w))"
  by (rule quiet_step_plain) (auto simp: send_def sent_tokens_def)

lemma quiet_step_calls:
  "quiet_step key expiry s w (snd (ListSigners G (s_client s) token w))"
  "quiet_step key expiry s w (snd (GetCertificate G (s_client s) token signerID w))"
  "quiet_step key expiry s w (snd (client_Sign G (s_client s) token signerID p w))"
  "quiet_step key expiry s w (snd (RequestApproval G (s_client s) token signerID q w))"
proof -
  have sent: "quiet_step key expiry s w (snd (send rq w))" if "session_request s rq" "rq_AuthToken rq \<noteq> None" for rq
    using quiet_step_sent [OF world_step_send [OF that(1)] that(2)] .
  show "quiet_step key expiry s w (snd (ListSigners G (s_client s) token w))"
    unfolding list_signers.sends by (rule sent) (simp_all, simp add: list_signers_request_def)
  show "quiet_step key expiry s w (snd (GetCertificate G (s_client s) token signerID w))"
    unfolding get_certificate.sends by (rule sent) (simp_all, simp add: certificate_request_def)
  show "quiet_step key expiry s w (snd (client_Sign G (s_client s) token signerID p w))"
    unfolding sign.sends by (rule sent) (simp_all, simp add: sign_request_def)
  show "quiet_step key expiry s w (snd (RequestApproval G (s_client s) token signerID q w))"
    unfolding request_approval.sends by (rule sent) (simp_all, simp add: approval_request_def)
qed

section \<open>The contract of a method, extended\<close>

locale quiet_op = session_op +
  assumes op_quiet: "run s w = (r, s', w') \<Longrightarrow> quiet_step key expiry s w w'"
begin

lemma op_locked:
  assumes "run s w = (r, s', w')" and "locked key expiry err w" and "read_before expiry w w'"
  shows "locked key expiry err w'"
  using op_quiet [OF assms(1), of key expiry] assms(2,3) by (auto simp: quiet_step_def)

text \<open>A session of the locked identity sends no login; any other sends its own.\<close>

lemma op_logins:
  assumes "run s w = (r, s', w')" and "locked key expiry err w" and "read_before expiry w w'"
  shows "\<exists>new. w_sent w' = w_sent w @ new \<and>
    (\<forall>rq \<in> set new. rq_AuthToken rq = None \<longrightarrow> auth_key s \<noteq> key \<and> session_request s rq)"
proof -
  from op_world [OF assms(1)] obtain new where new: "w_sent w' = w_sent w @ new" "list_all (session_request s) new"
    by (auto simp: world_step_def)
  moreover from op_quiet [OF assms(1), of key expiry] assms(2,3) have "auth_key s = key \<longrightarrow> sent_tokens w w'"
    by (auto simp: quiet_step_def)
  ultimately show ?thesis by (auto simp: sent_tokens_def list_all_iff)
qed

lemma op_summary:
  assumes "run s w = (r, s', w')"
  shows "same_session s s' \<and> world_step s w w' \<and> (locked key expiry err w \<and> read_before expiry w w' \<longrightarrow>
    locked key expiry err w' \<and> (\<exists>new. w_sent w' = w_sent w @ new \<and>
      (\<forall>rq \<in> set new. rq_AuthToken rq = None \<longrightarrow> auth_key s \<noteq> key \<and> session_request s rq)))"
  using op_session [OF assms] op_world [OF assms] op_locked [OF assms] op_logins [OF assms] by blast

end

section \<open>Every method keeps it\<close>

text \<open>Authentication touches no record but that of its own identity.\<close>

lemma login_session_other:
  "auth_key s \<noteq> key \<Longrightarrow> w_authFail (snd (snd (login_session G s w))) key = w_authFail w key"
proof -
  assume other: "auth_key s \<noteq> key"
  have "w_authFail (snd (Login G c i p w)) = w_authFail w" for c i p
    by (simp add: login.sends send_def)
  with other show ?thesis
    by (auto simp: login_session_def recordAuthFailure_def clearAuthFailure_def cacheExpiry_def Let_def split_beta
        split: sum.splits)
qed

lemma cachedAuthFailure_other: "key' \<noteq> key \<Longrightarrow> w_authFail (snd (cachedAuthFailure key' w)) key = w_authFail w key"
  by (simp add: cachedAuthFailure_def Let_def split_beta split: option.splits)

lemma ensureToken_other:
  assumes "auth_key s \<noteq> key"
  shows "w_authFail (snd (snd (ensureToken G s w))) key = w_authFail w key"
  using assms
  by (auto simp: ensureToken_def Let_def split_beta token_fresh_frame cachedAuthFailure_other
      login_session_other split: option.splits)

text \<open>An attempt of the locked identity: a token that is still good, or the error on record.\<close>

lemma ensureToken_locked:
  assumes "locked (auth_key s) expiry err w" and "Method (Auth (s_cfg s)) \<noteq> AuthMethodToken"
    and "w_time w (w_ticks (snd (token_fresh s w))) < expiry"
  shows "ensureToken G s w = (let (fresh, w1) = token_fresh s w in
    if fresh then (Inr (s_token s), s, w1) else (Inl err, s, snd (now w1)))"
proof -
  let ?w1 = "snd (token_fresh s w)"
  have "locked (auth_key s) expiry err ?w1" using assms(1) locked_cong token_fresh_frame(1) by metis
  then have "auth_failure_at (auth_key s) ?w1 (clock ?w1) = Some err"
    using assms(3) by (simp add: locked_def token_fresh_frame)
  from cachedAuthFailure_hit [OF this] assms(2) show ?thesis
    by (simp add: ensureToken_def split_beta Let_def)
qed

lemma ensureToken_ticks:
  assumes "Method (Auth (s_cfg s)) \<noteq> AuthMethodToken" and "\<not> fst (token_fresh s w)"
    and "w_authFail w (auth_key s) \<noteq> None" and "ensureToken G s w = (r, s', w')"
  shows "w_ticks (snd (token_fresh s w)) < w_ticks w'"
proof -
  let ?w1 = "snd (token_fresh s w)" let ?w2 = "snd (cachedAuthFailure (auth_key s) ?w1)"
  have "w_ticks ?w2 = Suc (w_ticks ?w1)"
    using assms(3) by (auto simp: cachedAuthFailure_def token_fresh_frame split_beta Let_def split: option.splits)
  moreover have "w' = ?w2 \<or> login_session G s ?w2 = (r, s', w')"
    using assms by (auto simp: ensureToken_def split_beta Let_def split: option.splits)
  moreover have "w_ticks ?w2 \<le> w_ticks w'" if "login_session G s ?w2 = (r, s', w')"
    using login_session_frame [OF that assms(1)] by (simp add: world_step_def)
  ultimately show ?thesis by auto
qed

lemma locked_record: "locked key expiry err w \<Longrightarrow> w_authFail w key \<noteq> None"
  unfolding locked_def auth_failure_at_def by (metis option.distinct(1) option.simps(4) lt_ex)

interpretation ensure_token_quiet: quiet_op "ensureToken G" for G
proof
  fix s w r s' w' key expiry assume run: "ensureToken G s w = (r, s', w')"
  have step: "world_step s w w'" using ensure_token.op_world [OF run] .
  have "locked key expiry err w' \<and> (auth_key s = key \<longrightarrow> sent_tokens w w')"
    if locked: "locked key expiry err w" and before: "read_before expiry w w'" for err
  proof (cases "auth_key s = key")
    case False
    with ensureToken_other [OF False, of G w] locked_cong locked run show ?thesis by (metis snd_conv)
  next
    case key: True
    show ?thesis
    proof (cases "Method (Auth (s_cfg s)) = AuthMethodToken")
      case True
      with run have "w' = w" by (auto simp: ensureToken_def split: if_splits)
      with locked show ?thesis by (simp add: sent_tokens_same)
    next
      case universal: False
      have "w_authFail w' = w_authFail w \<and> w_sent w' = w_sent w"
      proof (cases "fst (token_fresh s w)")
        case True
        with run universal show ?thesis by (auto simp: ensureToken_def split_beta Let_def token_fresh_frame)
      next
        case False
        from ensureToken_ticks [OF universal False _ run] locked_record [OF locked] key
        have "w_ticks (snd (token_fresh s w)) < w_ticks w'" by simp
        with before token_fresh_frame(4) [of w s] have "w_time w (w_ticks (snd (token_fresh s w))) < expiry"
          by (simp add: read_before_def)
        from ensureToken_locked [OF _ universal this, of err] locked key False
        have eq: "ensureToken G s w = (Inl err, s, snd (now (snd (token_fresh s w))))" by (simp add: split_beta Let_def)
        from run [unfolded eq] have "w' = snd (now (snd (token_fresh s w)))" by auto
        then show ?thesis by (simp add: token_fresh_frame)
      qed
      with locked locked_cong [of w' key w expiry err] show ?thesis by (simp add: sent_tokens_same)
    qed
  qed
  with step show "quiet_step key expiry s w w'" unfolding quiet_step_def by blast
qed

interpretation signers_quiet: quiet_op "Signers G" for G
proof
  fix s w r s' w' key expiry assume run: "Signers G s w = (r, s', w')"
  let ?w1 = "snd (signers_fresh s w)"
  have w1: "quiet_step key expiry s w ?w1" by (rule quiet_step_reads)
  obtain tr s2 w2 where token: "ensureToken G s ?w1 = (tr, s2, w2)" by (cases "ensureToken G s ?w1")
  have w2: "quiet_step key expiry s w w2" using w1 ensure_token_quiet.op_quiet [OF token] by (rule quiet_step_trans)
  have w3: "quiet_step key expiry s w (snd (ListSigners G (s_client s2) t w2))" for t
    using w2 ensure_token.op_session [OF token] quiet_step_calls(1) by (rule quiet_step_later)
  note w4 = quiet_step_trans [OF w3 quiet_step_now]
  from run w1 w2 w3 w4 show "quiet_step key expiry s w w'"
    by (auto simp: Signers_def token split_beta Let_def split: if_splits sum.splits)
qed

interpretation find_signer_quiet: quiet_op "FindSigner G nameOrID" for G nameOrID
proof
  fix s w r s' w' key expiry assume run: "FindSigner G nameOrID s w = (r, s', w')"
  then have "\<exists>q. Signers G s w = (q, s', w')"
    by (auto simp: FindSigner_def split: prod.splits sum.splits option.splits)
  then show "quiet_step key expiry s w w'" using signers_quiet.op_quiet by blast
qed

interpretation public_key_quiet: quiet_op "PublicKey G signerID" for G signerID
proof
  fix s w r s' w' key expiry assume run: "PublicKey G signerID s w = (r, s', w')"
  let ?w1 = "snd (pub_key_lookup signerID s w)"
  have w1: "quiet_step key expiry s w ?w1" by (rule quiet_step_reads)
  obtain tr s2 w2 where token: "ensureToken G s ?w1 = (tr, s2, w2)" by (cases "ensureToken G s ?w1")
  have w2: "quiet_step key expiry s w w2" using w1 ensure_token_quiet.op_quiet [OF token] by (rule quiet_step_trans)
  have w3: "quiet_step key expiry s w (snd (GetCertificate G (s_client s2) t signerID w2))" for t
    using w2 ensure_token.op_session [OF token] quiet_step_calls(2) by (rule quiet_step_later)
  note w4 = quiet_step_trans [OF w3 quiet_step_now]
  from run w1 w2 w3 w4 show "quiet_step key expiry s w w'"
    by (auto simp: PublicKey_def token split_beta Let_def split: if_splits sum.splits option.splits)
qed

lemma quiet_step_autoRequest:
  "quiet_step key expiry s w (snd (autoRequestOnDenial G s token signerID signCtx digest err w))"
  by (auto simp: autoRequestOnDenial_def requestApproval_def split_beta Let_def quiet_step_calls quiet_step_refl
      split: option.splits sum.splits)

interpretation sign_quiet: quiet_op "Sign G signerID algorithm digest" for G signerID algorithm digest
proof
  fix s w r s' w' key expiry assume run: "Sign G signerID algorithm digest s w = (r, s', w')"
  obtain tr s1 w1 where token: "ensureToken G s w = (tr, s1, w1)" by (cases "ensureToken G s w")
  note s1 = ensure_token.op_session [OF token] and w1 = ensure_token_quiet.op_quiet [OF token]
  let ?w2 = "snd (current_context G w1)"
  let ?w3 = "\<lambda>t c. snd (client_Sign G (s_client s1) t signerID (sign_params c algorithm digest) ?w2)"
  have w3: "quiet_step key expiry s1 w1 (?w3 t c)" for t c
    using quiet_step_reads(4) quiet_step_calls(3) by (rule quiet_step_trans)
  have w4: "quiet_step key expiry s1 w1 (snd (autoRequestOnDenial G s1 t signerID c digest e (?w3 t c)))" for t c e
    using w3 quiet_step_autoRequest by (rule quiet_step_trans)
  show "quiet_step key expiry s w w'"
  proof (cases tr)
    case (Inl e)
    with run w1 show ?thesis by (simp add: Sign_def token)
  next
    case (Inr t)
    with run have "quiet_step key expiry s1 w1 w'"
      using w3 w4 by (auto simp: Sign_def token split_beta Let_def split: sum.splits option.splits)
    from w1 s1 this show ?thesis by (rule quiet_step_later)
  qed
qed

section \<open>Runs of a pool of sessions\<close>

text \<open>A call of session \<open>i\<close> of the pool; the sessions share the world.\<close>

definition pool_call :: "go_rt \<Rightarrow> nat \<times> call \<Rightarrow> session list \<times> world \<Rightarrow> session list \<times> world" where
  "pool_call G ic x =
     (let (i, c) = ic; (ss, w) = x; (r, s, w') = called_method G c (ss ! i) w in (ss[i := s], w'))"

definition pool_calls :: "go_rt \<Rightarrow> (nat \<times> call) list \<Rightarrow> session list \<times> world \<Rightarrow> session list \<times> world" where
  "pool_calls G cs x = fold (pool_call G) cs x"

lemma called_method_quiet:
  assumes "called_method G c s w = (r, s', w')"
  shows "same_session s s' \<and> world_step s w w' \<and> (locked key expiry err w \<and> read_before expiry w w' \<longrightarrow>
    locked key expiry err w' \<and> (\<exists>new. w_sent w' = w_sent w @ new \<and>
      (\<forall>rq \<in> set new. rq_AuthToken rq = None \<longrightarrow> auth_key s \<noteq> key \<and> session_request s rq)))"
proof (cases c)
  case (FindCall name)
  then obtain q where "FindSigner G name s w = (q, s', w')"
    using assms by (auto simp: called_method_def split: prod.splits)
  then show ?thesis by (rule find_signer_quiet.op_summary)
next
  case (KeyCall signerID)
  then obtain q where "PublicKey G signerID s w = (q, s', w')"
    using assms by (auto simp: called_method_def split: prod.splits)
  then show ?thesis by (rule public_key_quiet.op_summary)
next
  case (SignCall signerID algorithm digest)
  then obtain q where "Sign G signerID algorithm digest s w = (q, s', w')"
    using assms by (auto simp: called_method_def split: prod.splits)
  then show ?thesis by (rule sign_quiet.op_summary)
qed

text \<open>A run keeps the identities of the pool, and what a failure on record forbids.\<close>

definition same_pool :: "session list \<Rightarrow> session list \<Rightarrow> bool" where
  "same_pool ss ss' \<longleftrightarrow> list_all2 same_session ss ss'"

lemma same_pool_trans: "same_pool a b \<Longrightarrow> same_pool b c \<Longrightarrow> same_pool a c"
  by (auto simp: same_pool_def list_all2_conv_all_nth same_session_def)

lemma same_session_key: "same_session s s' \<Longrightarrow> auth_key s' = auth_key s"
  by (simp add: same_session_def auth_key_def)

lemma same_pool_member:
  assumes "same_pool ss ss'" and "s' \<in> set ss'"
  shows "\<exists>s \<in> set ss. auth_key s = auth_key s' \<and> session_request s = session_request s'"
proof -
  from assms obtain i where "i < length ss" "ss' ! i = s'" "same_session (ss ! i) s'"
    by (auto simp: same_pool_def list_all2_conv_all_nth in_set_conv_nth)
  then show ?thesis
    using same_session_key [of "ss ! i" s'] session_request_cong [of "ss ! i" s'] by (intro bexI [of _ "ss ! i"]) auto
qed

lemma pool_call_step:
  assumes call: "pool_call G (i, c) (ss, w) = (ss', w')" and i: "i < length ss"
  shows "same_pool ss ss' \<and> w_time w' = w_time w \<and> w_ticks w \<le> w_ticks w' \<and>
    (locked key expiry err w \<and> read_before expiry w w' \<longrightarrow> locked key expiry err w' \<and>
      (\<exists>new. w_sent w' = w_sent w @ new \<and>
        (\<forall>rq \<in> set new. rq_AuthToken rq = None \<longrightarrow> (\<exists>s \<in> set ss. auth_key s \<noteq> key \<and> session_request s rq))))"
proof -
  from call obtain r s' where run: "called_method G c (ss ! i) w = (r, s', w')" and ss': "ss' = ss[i := s']"
    by (auto simp: pool_call_def Let_def split: prod.splits)
  note quiet = called_method_quiet [OF run, of key expiry err]
  then have "same_session (ss ! i) s'" by blast
  then have "same_pool ss ss'"
    using i by (auto simp: same_pool_def ss' list_all2_conv_all_nth nth_list_update)
  moreover have "ss ! i \<in> set ss" using i by simp
  ultimately show ?thesis using quiet unfolding world_step_def by blast
qed

lemma pool_calls_step:
  assumes "pool_calls G cs (ss, w) = (ss', w')" and "\<forall>(i, c) \<in> set cs. i < length ss"
  shows "same_pool ss ss' \<and> w_time w' = w_time w \<and> w_ticks w \<le> w_ticks w' \<and>
    (locked key expiry err w \<and> read_before expiry w w' \<longrightarrow> locked key expiry err w' \<and>
      (\<exists>new. w_sent w' = w_sent w @ new \<and>
        (\<forall>rq \<in> set new. rq_AuthToken rq = None \<longrightarrow> (\<exists>s \<in> set ss. auth_key s \<noteq> key \<and> session_request s rq))))"
  using assms
proof (induction cs arbitrary: ss w)
  case Nil
  then show ?case
    by (auto simp: pool_calls_def same_pool_def list_all2_conv_all_nth)
next
  case (Cons ic cs)
  obtain i c where ic: "ic = (i, c)" by (cases ic)
  obtain ss1 w1 where call: "pool_call G (i, c) (ss, w) = (ss1, w1)" by (cases "pool_call G (i, c) (ss, w)")
  have i: "i < length ss" using Cons.prems(2) by (simp add: ic)
  note one = pool_call_step [OF call i, of key expiry err]
  then have "list_all2 same_session ss ss1" unfolding same_pool_def by blast
  then have len: "length ss1 = length ss" using list_all2_lengthD by fastforce
  have rest: "pool_calls G cs (ss1, w1) = (ss', w')" using Cons.prems(1) by (simp add: pool_calls_def ic call)
  have "\<forall>(i, c) \<in> set cs. i < length ss1" using Cons.prems(2) len by auto
  note more = Cons.IH [OF rest this]
  have pool: "same_pool ss ss'"
    using one more same_pool_trans by blast
  have before: "read_before expiry w w1 \<and> read_before expiry w1 w'" if "read_before expiry w w'"
    using that one more by (auto simp: read_before_def)
  have sent: "\<exists>new. w_sent w' = w_sent w @ new \<and>
      (\<forall>rq \<in> set new. rq_AuthToken rq = None \<longrightarrow> (\<exists>s \<in> set ss. auth_key s \<noteq> key \<and> session_request s rq))"
    if a: "w_sent w1 = w_sent w @ a"
        "\<forall>rq \<in> set a. rq_AuthToken rq = None \<longrightarrow> (\<exists>s \<in> set ss. auth_key s \<noteq> key \<and> session_request s rq)"
      and b: "w_sent w' = w_sent w1 @ b"
        "\<forall>rq \<in> set b. rq_AuthToken rq = None \<longrightarrow> (\<exists>s \<in> set ss1. auth_key s \<noteq> key \<and> session_request s rq)" for a b
  proof -
    have "\<exists>s \<in> set ss. auth_key s \<noteq> key \<and> session_request s rq"
      if "\<exists>s \<in> set ss1. auth_key s \<noteq> key \<and> session_request s rq" for rq
      using that one same_pool_member [of ss ss1] by metis
    with a b show ?thesis by (intro exI [of _ "a @ b"]) auto
  qed
  have "locked key expiry err w' \<and> (\<exists>new. w_sent w' = w_sent w @ new \<and>
      (\<forall>rq \<in> set new. rq_AuthToken rq = None \<longrightarrow> (\<exists>s \<in> set ss. auth_key s \<noteq> key \<and> session_request s rq)))"
    if locked: "locked key expiry err w" and read: "read_before expiry w w'"
  proof -
    from one locked before [OF read] obtain a where a: "w_sent w1 = w_sent w @ a" "locked key expiry err w1"
      "\<forall>rq \<in> set a. rq_AuthToken rq = None \<longrightarrow> (\<exists>s \<in> set ss. auth_key s \<noteq> key \<and> session_request s rq)" by blast
    from more a(2) before [OF read] obtain b where "w_sent w' = w_sent w1 @ b" "locked key expiry err w'"
      "\<forall>rq \<in> set b. rq_AuthToken rq = None \<longrightarrow> (\<exists>s \<in> set ss1. auth_key s \<noteq> key \<and> session_request s rq)" by blast
    with sent [OF a(1,3)] show ?thesis by blast
  qed
  moreover have "w_time w' = w_time w" "w_ticks w \<le> w_ticks w'" using one more by auto
  ultimately show ?case using pool by blast
qed

section \<open>Properties\<close>

text \<open>C10: After a login failed, the error stays on record through any calls of any sessions of the
  process, made one after another, while the clock reads less than ten seconds after the failure: no
  session with the same client ID and server sends a login, and one that needs a token is handed its
  own, if it holds one that is still good, or that same error, and sends nothing.\<close>

theorem login_lockout:
  assumes "ensureToken G s w = (Inl err, s1, w1)" and "w_sent w1 \<noteq> w_sent w"
    and "pool_calls G cs (ss, w1) = (ss2, w2)" and "\<forall>(i, c) \<in> set cs. i < length ss"
    and "\<forall>n. w_ticks w1 \<le> n \<and> n \<le> Suc (w_ticks w2) \<longrightarrow> w_time w n < w_time w (w_ticks w1 - 1) + authFailureCacheTTL"
  shows "(\<exists>new. w_sent w2 = w_sent w1 @ new \<and>
      (\<forall>rq \<in> set new. rq_AuthToken rq = None \<longrightarrow> (\<exists>s' \<in> set ss. auth_key s' \<noteq> auth_key s \<and> session_request s' rq))) \<and>
    (\<forall>s2. auth_key s2 = auth_key s \<and> Method (Auth (s_cfg s2)) \<noteq> AuthMethodToken \<longrightarrow>
      (\<exists>w3. ensureToken G s2 w2 = (if fst (token_fresh s2 w2) then Inr (s_token s2) else Inl err, s2, w3) \<and>
        w_sent w3 = w_sent w2))"
proof -
  let ?expiry = "w_time w (w_ticks w1 - 1) + authFailureCacheTTL"
  have time: "w_time w1 = w_time w" using ensure_token.op_world [OF assms(1)] by (simp add: world_step_def)
  have locked: "locked (auth_key s) ?expiry err w1"
    using ensureToken_failed(2) [OF assms(1,2)] by (simp add: locked_def)
  have before: "read_before ?expiry w1 w2" using assms(5) by (simp add: read_before_def time)
  note run = pool_calls_step [OF assms(3,4), of "auth_key s" ?expiry err]
  with locked before have locked2: "locked (auth_key s) ?expiry err w2" by blast
  have "\<exists>w3. ensureToken G s2 w2 = (if fst (token_fresh s2 w2) then Inr (s_token s2) else Inl err, s2, w3) \<and>
      w_sent w3 = w_sent w2"
    if s2: "auth_key s2 = auth_key s" "Method (Auth (s_cfg s2)) \<noteq> AuthMethodToken" for s2
  proof -
    let ?f = "token_fresh s2 w2"
    have "w_ticks w1 \<le> w_ticks (snd ?f)" "w_ticks (snd ?f) \<le> Suc (w_ticks w2)"
      using run token_fresh_frame(4) [of w2 s2] token_fresh_frame(5) [of s2 w2] by auto
    with assms(5) run time have "w_time w2 (w_ticks (snd ?f)) < ?expiry" by simp
    from ensureToken_locked [OF _ s2(2) this] locked2 s2(1)
    have "ensureToken G s2 w2 = (if fst ?f then (Inr (s_token s2), s2, snd ?f) else (Inl err, s2, snd (now (snd ?f))))"
      by (simp add: split_beta Let_def)
    then show ?thesis by (simp add: token_fresh_frame)
  qed
  with run locked before show ?thesis by blast
qed

text \<open>The credentials were refused once; another session, with the right ones, waits.\<close>

theorem login_lockout_witness:
  "let err = newAPIError sample_rt ''login'' 401 ''bad'';
       w1 = snd (snd (ensureToken sample_rt (login_session_with ''bad'') sample_world));
       (ss2, w2) = pool_calls sample_rt [(0, FindCall ''app'')] ([login_session_with ''good''], w1)
   in (\<exists>w3. ensureToken sample_rt (login_session_with ''good'') w2 = (Inl err, login_session_with ''good'', w3))"
proof -
  let ?err = "newAPIError sample_rt ''login'' 401 ''bad''" and ?good = "login_session_with ''good''"
  let ?w1 = "recordAuthFailure ''id@https://ksp'' ?err
    (snd (send (login_request (s_client sample_session) ''id'' ''bad'') sample_world))"
  obtain ss2 w2 where run: "pool_calls sample_rt [(0, FindCall ''app'')] ([?good], ?w1) = (ss2, w2)"
    by (cases "pool_calls sample_rt [(0, FindCall ''app'')] ([?good], ?w1)")
  have sent: "w_sent ?w1 \<noteq> w_sent sample_world"
    by (simp add: recordAuthFailure_def send_def split_beta Let_def)
  have key: "auth_key ?good = auth_key (login_session_with ''bad'')" "Method (Auth (s_cfg ?good)) \<noteq> AuthMethodToken"
    "s_token ?good = ''''" "auth_key ?good = ''id@https://ksp''" "s_signers ?good = None"
    by (simp_all add: auth_key_def sample_defs)
  have hit: "cachedAuthFailure (auth_key ?good) ?w1 = (Some ?err, snd (now ?w1))"
    using recordAuthFailure_at [of "''id@https://ksp''" ?err] 
    by (intro cachedAuthFailure_hit)
      (simp add: key(4) recordAuthFailure_def auth_failure_at_def send_def now_def sample_world_def
        authFailureCacheTTL_def Second_def Let_def)
  have "w2 = snd (now ?w1)"
    using run by (auto simp: pool_calls_def pool_call_def called_method_def FindSigner_def Signers_def signers_fresh_def
        key(5) ensureToken_universal [OF key(2,3)] hit)
  moreover have "w_ticks ?w1 = 1" by (simp add: recordAuthFailure_def now_def send_def sample_world_def Let_def)
  ultimately have soon: "\<forall>n. w_ticks ?w1 \<le> n \<and> n \<le> Suc (w_ticks w2) \<longrightarrow>
      w_time sample_world n < w_time sample_world (w_ticks ?w1 - 1) + authFailureCacheTTL"
    by (auto simp: now_def sample_world_def authFailureCacheTTL_def Second_def)
  have "\<not> fst (token_fresh ?good w2)" by (simp add: token_fresh_def key(3))
  with login_lockout [OF sample_refused sent run _ soon] key(1,2) run show ?thesis
    by (auto simp: sample_refused Let_def)
qed

end
