(* ===== verification/Loading.thy ===== *)
theory Loading
  imports Sample
begin

text \<open>
  What \<open>LoadConfig\<close> (\<open>internal/infisical/config.go\<close>) promises to the rest of the program: which
  configurations load, that a configuration written as JSON is read back, that its numbers fit, and
  the precedence of the environment over the file.
\<close>

section \<open>A configuration written out\<close>

definition config_json :: "config \<Rightarrow> json" where
  "config_json c = JObj
     [(''server_url'', JStr (ServerURL c)),
      (''auth'', JObj
        [(''method'', JStr (Method (Auth c))), (''client_id'', JStr (ClientID (Auth c))),
         (''client_secret'', JStr (ClientSecret (Auth c))), (''token'', JStr (Token (Auth c)))]),
      (''tls'', JObj [(''ca_cert_path'', JStr (CACertPath (TLS c))), (''skip_verify'', JBool (SkipVerify (TLS c)))]),
      (''cache'', JObj
        [(''token_ttl_seconds'', JNum (int_string (TokenTTLSeconds (Cache c)))),
         (''cert_ttl_seconds'', JNum (int_string (CertTTLSeconds (Cache c)))),
         (''signer_ttl_seconds'', JNum (int_string (SignerTTLSeconds (Cache c))))]),
      (''approval'', JObj
        [(''signing_count'', JNum (int_string (SigningCount (Approval c)))),
         (''signing_duration'', JStr (SigningDuration (Approval c))),
         (''exclude_scope_fields'', JArr (map JStr (ExcludeScopeFields (Approval c)))),
         (''ip_address'', JStr (IPAddress (Approval c)))]),
      (''log_level'', JStr (LogLevel c)),
      (''log_file'', JStr (LogFile c))]"

text \<open>The texts of a configuration, its numbers.\<close>

definition config_texts :: "config \<Rightarrow> string list" where
  "config_texts c =
     [ServerURL c, Method (Auth c), ClientID (Auth c), ClientSecret (Auth c), Token (Auth c), CACertPath (TLS c),
      SigningDuration (Approval c), IPAddress (Approval c), LogLevel c, LogFile c] @ ExcludeScopeFields (Approval c)"

definition config_numbers :: "config \<Rightarrow> int list" where
  "config_numbers c =
     [TokenTTLSeconds (Cache c), CertTTLSeconds (Cache c), SignerTTLSeconds (Cache c), SigningCount (Approval c)]"

lemma Atoi_int_string: "int_range G i \<Longrightarrow> Atoi G (int_string i) = Some i"
  using Atoi_nat_string [of G "nat i"]
  by (auto simp: int_string_def Atoi_def split_sign_def nat_string_nonempty nat_string_digits digits_value_nat_string)

lemma nat_string_zero: "hd (nat_string n) = CHR ''0'' \<Longrightarrow> nat_string n = ''0''"
proof (induction n rule: nat_string.induct)
  case (1 n)
  show ?case
  proof (cases "n < 10")
    case True
    then have "nat_string n = [char_of (48 + n)]" by (subst nat_string.simps) simp
    with "1.prems" show ?thesis by simp
  next
    case False
    then have n: "nat_string n = nat_string (n div 10) @ [char_of (48 + n mod 10)]" by (subst nat_string.simps) simp
    with "1.prems" have "hd (nat_string (n div 10)) = CHR ''0''" by (simp add: nat_string_nonempty)
    with "1.IH" False have "nat_string (n div 10) = ''0''" by blast
    then have "digits_value 0 (nat_string (n div 10)) = 0" by simp
    with False show ?thesis by (simp add: digits_value_nat_string div_eq_0_iff)
  qed
qed

lemma lex_int_nat_string: "lex_int (nat_string n) = Some (nat_string n, [])"
proof (cases "hd (nat_string n) = CHR ''0''")
  case True
  then show ?thesis using nat_string_zero [OF True] by (simp add: lex_int_def)
next
  case False
  obtain c q where cq: "nat_string n = c # q" using nat_string_nonempty [of n] by (cases "nat_string n") auto
  with False have "lex_int (nat_string n) = lex_digits (nat_string n)"
    by (auto simp: lex_int_def split: char.splits bool.splits)
  moreover have "takeWhile is_digit (nat_string n) = nat_string n" "dropWhile is_digit (nat_string n) = []"
    using nat_string_digits [of n] by (auto simp: list_all_iff)
  ultimately show ?thesis by (simp add: lex_digits_def nat_string_nonempty)
qed

lemma lex_number_int_string: "lex_number (int_string i) = Some (int_string i, [])"
proof -
  have end_number: "lex_frac [] = Some ([], [])" "lex_exp [] = Some ([], [])"
    by (simp_all add: lex_frac_def lex_exp_def lex_sign_def)
  have "hd (nat_string n) \<noteq> CHR ''-''" for n using nat_string_hd [of n "[]"] by (auto simp: is_digit_def)
  then have "lex_sign {CHR ''-''} (nat_string n) = ([], nat_string n)" for n
    by (cases "nat_string n") (auto simp: lex_sign_def, metis list.sel(1))
  then show ?thesis
    by (auto simp: int_string_def lex_number_def lex_sign_def lex_int_nat_string end_number)
qed

lemma config_json_well_formed: "list_all utf8_valid (config_texts c) \<Longrightarrow> well_formed (config_json c)"
  by (simp add: config_json_def config_texts_def lex_number_int_string utf8_valid_ascii is_ascii_def list_all_iff)

lemma config_json_nesting: "nesting (config_json c) \<le> max_nesting"
proof -
  have "Max (insert 0 (nesting ` set (map JStr xs))) = 0" for xs
    by (simp add: image_image image_constant_conv)
  then show ?thesis by (simp add: config_json_def max_nesting_def)
qed


lemma decode_string_elements:
  "map (\<lambda>e. fst (decode_string e '''')) (map JStr xs) = xs"
  "list_all (\<lambda>e. snd (decode_string e '''')) (map JStr xs)"
  by (simp_all add: decode_string_def list_all_iff comp_def)

lemma decode_config_json:
  assumes "list_all (int_range G) (config_numbers c)"
  shows "decode_config G (config_json c) zero_config = (c, True)"
proof -
  have numbers: "decode_int G (JNum (int_string i)) old = (i, True)" if "i \<in> set (config_numbers c)" for i old
    using that assms by (auto simp: decode_int_def Atoi_int_string list_all_iff)
  have strings: "decode_string_list (JArr (map JStr xs)) old = (xs, True)" for xs old
    using decode_string_elements [of xs] by (simp add: decode_string_list_def)
  have auth: "decode_auth G (JObj
      [(''method'', JStr (Method a)), (''client_id'', JStr (ClientID a)),
       (''client_secret'', JStr (ClientSecret a)), (''token'', JStr (Token a))]) old = (a, True)" for a old
    by (simp add: decode_auth_def decode_struct_def resolve_key_def set_auth_def into_def decode_string_def)
  have tls: "decode_tls G (JObj [(''ca_cert_path'', JStr (CACertPath t)), (''skip_verify'', JBool (SkipVerify t))]) old =
      (t, True)" for t old
    by (simp add: decode_tls_def decode_struct_def resolve_key_def set_tls_def into_def decode_string_def decode_bool_def)
  have cache: "decode_cache G (JObj
      [(''token_ttl_seconds'', JNum (int_string (TokenTTLSeconds (Cache c)))),
       (''cert_ttl_seconds'', JNum (int_string (CertTTLSeconds (Cache c)))),
       (''signer_ttl_seconds'', JNum (int_string (SignerTTLSeconds (Cache c))))]) old = (Cache c, True)" for old
    by (simp add: decode_cache_def decode_struct_def resolve_key_def set_cache_def into_def numbers config_numbers_def)
  have approval: "decode_approval G (JObj
      [(''signing_count'', JNum (int_string (SigningCount (Approval c)))),
       (''signing_duration'', JStr (SigningDuration (Approval c))),
       (''exclude_scope_fields'', JArr (map JStr (ExcludeScopeFields (Approval c)))),
       (''ip_address'', JStr (IPAddress (Approval c)))]) old = (Approval c, True)" for old
    by (simp add: decode_approval_def decode_struct_def resolve_key_def set_approval_def into_def decode_string_def
        numbers strings config_numbers_def)
  show ?thesis
    by (simp add: decode_config_def config_json_def decode_struct_def resolve_key_def set_config_def into_def
        decode_string_def auth tls cache approval)
qed

lemma config_written_file:
  assumes "os_file env path = FileData (json_render (config_json c))" and "list_all utf8_valid (config_texts c)"
    and "list_all (int_range G) (config_numbers c)"
  shows "config_file G env path allowMissing c"
proof (rule config_file.Present [OF assms(1)])
  show "json_parse (json_render (config_json c)) = Some (config_json c)"
    using json_codec.dec_enc config_json_well_formed [OF assms(2)] config_json_nesting by blast
  show "decode_config G (config_json c) zero_config = (c, True)"
    by (rule decode_config_json [OF assms(3)])
qed

section \<open>Numbers that fit\<close>

text \<open>What setting a field keeps, decoding a struct keeps.\<close>

lemma decode_members_keeps:
  assumes "\<And>name j x. P x \<Longrightarrow> P (fst (set_field name j x))"
  shows "P (fst st) \<Longrightarrow> P (fst (decode_members G names set_field kvs st))"
proof (induction kvs arbitrary: st)
  case (Cons kv kvs)
  then show ?case using assms by (cases kv; cases st) (simp add: split_beta Let_def split: option.splits)
qed simp

lemma decode_struct_keeps:
  assumes "\<And>name j x. P x \<Longrightarrow> P (fst (set_field name j x))" and "P old"
  shows "P (fst (decode_struct G names set_field j old))"
  using assms by (auto simp: decode_struct_def intro: decode_members_keeps split: json.splits)

lemma decode_int_keeps: "int_range G old \<Longrightarrow> int_range G (fst (decode_int G j old))"
  by (auto simp: decode_int_def Atoi_def Let_def split: json.splits option.splits prod.splits if_splits)

text \<open>The numbers of the two structs that have any.\<close>

definition cache_fits :: "go_rt \<Rightarrow> cache_config \<Rightarrow> bool" where
  "cache_fits G c \<longleftrightarrow> list_all (int_range G) [TokenTTLSeconds c, CertTTLSeconds c, SignerTTLSeconds c]"

definition config_fits :: "go_rt \<Rightarrow> config \<Rightarrow> bool" where
  "config_fits G c \<longleftrightarrow> cache_fits G (Cache c) \<and> int_range G (SigningCount (Approval c))"

lemma decode_cache_keeps: "cache_fits G c \<Longrightarrow> cache_fits G (fst (decode_cache G j c))"
  unfolding decode_cache_def
  by (rule decode_struct_keeps) (auto simp: cache_fits_def set_cache_def into_def decode_int_keeps)

lemma decode_approval_keeps:
  "int_range G (SigningCount a) \<Longrightarrow> int_range G (SigningCount (fst (decode_approval G j a)))"
  unfolding decode_approval_def
  by (rule decode_struct_keeps [where P = "\<lambda>a. int_range G (SigningCount a)"])
    (auto simp: set_approval_def into_def decode_int_keeps)

lemma decode_config_keeps: "config_fits G c \<Longrightarrow> config_fits G (fst (decode_config G j c))"
  unfolding decode_config_def
  by (rule decode_struct_keeps)
    (auto simp: config_fits_def set_config_def into_def decode_cache_keeps decode_approval_keeps)

lemma config_file_fits: "config_file G env path allowMissing raw \<Longrightarrow> config_fits G raw"
proof (induction rule: config_file.induct)
  case (Present content j raw)
  have "config_fits G zero_config" by (simp add: config_fits_def cache_fits_def zero_config_def int_range_def)
  from decode_config_keeps [OF this, of j] Present(3) show ?case by simp
next
  case Absent
  show ?case by (simp add: config_fits_def cache_fits_def zero_config_def int_range_def)
qed

section \<open>Properties\<close>

text \<open>C15: Loading succeeds exactly when the file can be read and decoded (or the default file is
  absent) and the configuration it gives, defaulted and overridden by the environment, has an http or
  https server URL with a host, a known authentication method, an approval window that is absent or
  read as one minute to thirty days, a non-negative signing count, exclusions that name scope fields,
  and a pinned address that is absent or an IP address.\<close>

theorem load_config_exact:
  "LoadConfig G env = Inr cfg \<longleftrightarrow>
     (\<exists>raw. config_file G env (ConfigPath env) (os_getenv env EnvConfigPath = '''') raw \<and>
        cfg = applyEnvOverrides env (setDefaults env raw)) \<and>
     (\<exists>scheme host. ServerURL cfg \<noteq> '''' \<and> rt_url G (ServerURL cfg) = Inr (scheme, host) \<and>
        to_lower G scheme \<in> {''http'', ''https''} \<and> host \<noteq> '''') \<and>
     Method (Auth cfg) \<in> {''universal-auth'', ''token''} \<and>
     (SigningDuration (Approval cfg) \<noteq> '''' \<longrightarrow>
        (\<exists>d. parseApprovalDuration G (SigningDuration (Approval cfg)) = Inr d \<and> Minute \<le> d \<and> d \<le> 30 * 24 * Hour)) \<and>
     0 \<le> SigningCount (Approval cfg) \<and> set (ExcludeScopeFields (Approval cfg)) \<subseteq> set ScopeFieldNames \<and>
     (IPAddress (Approval cfg) \<noteq> '''' \<longrightarrow> ParseIP (IPAddress (Approval cfg)))"
  (is "?lhs \<longleftrightarrow> ?file \<and> ?valid")
proof -
  have valid: "?valid \<longleftrightarrow> validate G cfg = None"
    by (auto simp: validate_None valid_url_def valid_approval_def valid_duration_def
        AuthMethodUniversalAuth_def AuthMethodToken_def)
  show ?thesis unfolding valid LoadConfig_def
    by (auto elim!: loadConfigFrom_Inr simp: loadConfigFrom_file Let_def)
qed

theorem load_config_exact_witness:
  "\<exists>cfg. LoadConfig sample_rt sample_env = Inr cfg \<and> Method (Auth cfg) \<in> {''universal-auth'', ''token''}"
  using load_config_exact [THEN iffD1, OF sample_load] sample_load by blast

text \<open>C26: Of the values the environment can set, the one it sets wins and the others are the file's; a
  token in the environment selects token authentication; without one the method is the file's,
  inferred from a token in the file when it names none, whatever credentials the environment sets.\<close>

theorem env_precedence:
  assumes "LoadConfig G env = Inr cfg"
  shows "\<exists>raw. config_file G env (ConfigPath env) (os_getenv env EnvConfigPath = '''') raw \<and>
    ServerURL cfg = env_or env EnvServerURL (ServerURL raw) \<and>
    ClientID (Auth cfg) = env_or env EnvClientID (ClientID (Auth raw)) \<and>
    ClientSecret (Auth cfg) = env_or env EnvClientSecret (ClientSecret (Auth raw)) \<and>
    Token (Auth cfg) = env_or env EnvToken (Token (Auth raw)) \<and>
    Method (Auth cfg) = (if os_getenv env EnvToken \<noteq> '''' then ''token''
      else if Method (Auth raw) \<noteq> '''' then Method (Auth raw)
      else if Token (Auth raw) \<noteq> '''' then ''token'' else ''universal-auth'')"
proof -
  from assms obtain raw where "config_file G env (ConfigPath env) (os_getenv env EnvConfigPath = '''') raw"
    "cfg = applyEnvOverrides env (setDefaults env raw)"
    unfolding LoadConfig_def by (rule loadConfigFrom_Inr)
  then show ?thesis
    by (intro exI [of _ raw]) (simp add: applyEnvOverrides_eq setDefaults_eq default_auth_def
        AuthMethodUniversalAuth_def AuthMethodToken_def)
qed

theorem env_precedence_witness:
  "\<exists>cfg. LoadConfig sample_rt sample_env = Inr cfg \<and> Method (Auth cfg) = ''token'' \<and> ServerURL cfg = ''https://ksp''"
  using env_precedence [OF sample_load] sample_load by (auto simp: sample_getenv env_or_def)

text \<open>C38: The bound on the approval window does not hold for long windows: 213504 days wrap around the
  64-bit nanosecond count to less than half an hour and are accepted.\<close>

theorem approval_window_overflow:
  assumes "18 < rt_int_bits G"
  shows "parseApprovalDuration G ''213504d'' = Inr 1526290448384 \<and> validate_duration G ''213504d'' = None \<and>
    30 * 24 * Hour < 213504 * 24 * Hour"
proof -
  have "(2::int) ^ 18 \<le> 2 ^ (rt_int_bits G - 1)" using assms by (intro power_increasing) simp_all
  then have range: "int_range G (int 213504)" by (simp add: int_range_def)
  have "Atoi G ''213504'' = Some 213504"
    using range by (simp add: Atoi_def split_sign_def is_digit_def Let_def)
  moreover have "wrap64 (wrap64 (213504 * 24) * Hour) = 1526290448384"
    by (simp add: wrap64_def duration_units)
  ultimately have parsed: "parseApprovalDuration G ''213504d'' = Inr 1526290448384"
    by (simp add: parseApprovalDuration_def suffix_def)
  then have "valid_duration G ''213504d''" by (simp add: valid_duration_def duration_units)
  with parsed show ?thesis by (simp add: validate_duration_None duration_units)
qed

theorem approval_window_overflow_witness: "validate_duration sample_rt ''213504d'' = None"
  using approval_window_overflow [of sample_rt] by (simp add: sample_rt_def)

text \<open>C16: A configuration written to the file as JSON, field by field, is what loading starts from: with
  numbers that fit an int and text that is UTF-8, it loads exactly when it is valid once defaulted and
  overridden, and then to that.\<close>

theorem config_roundtrip:
  assumes "os_file env path = FileData (json_render (config_json c))" and "list_all utf8_valid (config_texts c)"
    and "list_all (int_range G) (config_numbers c)"
  shows "loadConfigFrom G env path allowMissing = Inr cfg \<longleftrightarrow>
    cfg = applyEnvOverrides env (setDefaults env c) \<and> validate G cfg = None"
  by (auto simp: loadConfigFrom_file [OF config_written_file [OF assms]] Let_def split: option.splits)

definition written_config :: config where
  "written_config = zero_config\<lparr>ServerURL := ''https://ksp'', LogLevel := ''debug'',
     Approval := \<lparr>SigningCount = 5, SigningDuration = '''', ExcludeScopeFields = [''command''], IPAddress = ''10.0.0.1''\<rparr>\<rparr>"

definition written_env :: os_env where
  "written_env = sample_env\<lparr>os_file := (\<lambda>_. FileData (json_render (config_json written_config)))\<rparr>"

theorem config_roundtrip_witness:
  "\<exists>cfg. loadConfigFrom sample_rt written_env ''ksp.json'' False = Inr cfg \<and> LogLevel cfg = ''debug'' \<and>
     IPAddress (Approval cfg) = ''10.0.0.1''"
proof -
  let ?cfg = "applyEnvOverrides written_env (setDefaults written_env written_config)"
  have "ParseIP ''10.0.0.1''" by code_simp
  then have "validate sample_rt ?cfg = None"
    by (simp add: validate_None applyEnvOverrides_eq setDefaults_eq env_or_def sample_getenv written_env_def
        written_config_def valid_url_def valid_approval_def valid_duration_def zero_config_def to_lower_def
        is_ascii_def lower_char_def sample_rt_def default_auth_def ScopeFieldNames_def scopeFieldCommand_def)
  moreover have "list_all utf8_valid (config_texts written_config)"
    by (simp add: config_texts_def written_config_def zero_config_def utf8_valid_ascii is_ascii_def)
  moreover have "list_all (int_range sample_rt) (config_numbers written_config)"
    by (simp add: config_numbers_def written_config_def zero_config_def int_range_def sample_rt_def)
  moreover have "os_file written_env ''ksp.json'' = FileData (json_render (config_json written_config))"
    by (simp add: written_env_def)
  ultimately have "loadConfigFrom sample_rt written_env ''ksp.json'' False = Inr ?cfg"
    using config_roundtrip [of written_env "''ksp.json''" written_config sample_rt False ?cfg] by blast
  then show ?thesis by (simp add: applyEnvOverrides_eq setDefaults_eq written_config_def)
qed

text \<open>C17: The numbers of a loaded configuration, which the model keeps as unbounded integers, fit Go's int,
  whatever the file says, and no cache lifetime is left at zero.\<close>

theorem config_typed:
  assumes "LoadConfig G env = Inr cfg" and "13 \<le> rt_int_bits G"
  shows "list_all (int_range G) (config_numbers cfg) \<and>
    0 \<notin> {TokenTTLSeconds (Cache cfg), CertTTLSeconds (Cache cfg), SignerTTLSeconds (Cache cfg)}"
proof -
  from assms(1) obtain raw where raw: "config_file G env (ConfigPath env) (os_getenv env EnvConfigPath = '''') raw"
    and cfg: "cfg = applyEnvOverrides env (setDefaults env raw)"
    unfolding LoadConfig_def by (rule loadConfigFrom_Inr)
  have "(2::int) ^ 12 \<le> 2 ^ (rt_int_bits G - 1)" using assms(2) by (intro power_increasing) simp_all
  then have "int_range G 300" "int_range G 3600" by (simp_all add: int_range_def)
  with config_file_fits [OF raw] show ?thesis
    by (simp add: cfg applyEnvOverrides_eq setDefaults_eq default_cache_def config_numbers_def config_fits_def cache_fits_def)
qed

theorem config_typed_witness:
  "\<exists>cfg. LoadConfig sample_rt sample_env = Inr cfg \<and> list_all (int_range sample_rt) (config_numbers cfg)"
proof -
  have "13 \<le> rt_int_bits sample_rt" by (simp add: sample_rt_def)
  from config_typed [OF sample_load this] sample_load show ?thesis by blast
qed

end
