(* ===== verification/Command_Text.thy ===== *)
theory Command_Text
  imports Command_Line
begin

text \<open>
  The two readers a captured command line is written for, as specifications: the server's
  tokens (white space separates, quotes group) and well-formed UTF-8. The first inverts the
  rendering of the arguments it protects, and of no others; truncation respects the second.
\<close>

section \<open>Rendering: the tokens the server reads back\<close>

definition blank :: "char \<Rightarrow> bool" where
  "blank c \<longleftrightarrow> c \<in> {CHR '' '', CHR 0x09, CHR 0x0A, CHR 0x0B, CHR 0x0C, CHR 0x0D}"

text \<open>An argument the rendering protects: white space in it comes with one of the two characters the
  code quotes for.\<close>

definition protected_arg :: "string \<Rightarrow> bool" where
  "protected_arg a \<longleftrightarrow> (\<forall>c \<in> set a. blank c \<longrightarrow> CHR '' '' \<in> set a \<or> CHR 0x09 \<in> set a)"

function split_command :: "string \<Rightarrow> string list" where
  "split_command s = (case s of
       [] \<Rightarrow> []
     | c # rest \<Rightarrow>
         if blank c then split_command rest
         else if c = CHR 0x22 then
           takeWhile (\<lambda>x. x \<noteq> CHR 0x22) rest #
           split_command (drop 1 (dropWhile (\<lambda>x. x \<noteq> CHR 0x22) rest))
         else (c # takeWhile (\<lambda>x. \<not> blank x) rest) # split_command (dropWhile (\<lambda>x. \<not> blank x) rest))"
  by pat_completeness auto
termination
proof (relation "measure length"; clarsimp)
  fix rest :: string
  have "length (dropWhile (\<lambda>x. x \<noteq> CHR 0x22) rest) \<le> length rest" by (rule length_dropWhile_le)
  then show "length (dropWhile (\<lambda>x. x \<noteq> CHR 0x22) rest) - Suc 0 < Suc (length rest)" by linarith
next
  fix rest :: string
  show "length (dropWhile (\<lambda>x. \<not> blank x) rest) < Suc (length rest)"
    using length_dropWhile_le [of "\<lambda>x. \<not> blank x" rest] by simp
qed

declare split_command.simps [simp del]

lemma split_command_Nil: "split_command [] = []"
  by (simp add: split_command.simps)

lemma split_command_space: "split_command (CHR '' '' # s) = split_command s"
  by (subst split_command.simps) (simp add: blank_def)

lemma split_render:
  assumes "CHR 0x22 \<notin> set a" and "protected_arg a" and "rest = [] \<or> hd rest = CHR '' ''"
  shows "split_command (render_arg a @ rest) = a # split_command rest"
proof (cases "a = [] \<or> (\<exists>c \<in> set a. blank c)")
  case True
  with assms(2) have "render_arg a = CHR 0x22 # a @ [CHR 0x22]" by (auto simp: render_arg_def protected_arg_def)
  moreover have "takeWhile (\<lambda>x. x \<noteq> CHR 0x22) (a @ CHR 0x22 # rest) = a"
    "dropWhile (\<lambda>x. x \<noteq> CHR 0x22) (a @ CHR 0x22 # rest) = CHR 0x22 # rest"
    using assms(1) by (auto simp: takeWhile_append dropWhile_append)
  ultimately show ?thesis by (subst split_command.simps) (simp add: blank_def)
next
  case False
  then obtain c b where a: "a = c # b" by (cases a) auto
  from False have "render_arg a = a" by (auto simp: render_arg_def blank_def)
  moreover have "takeWhile (\<lambda>x. \<not> blank x) (b @ rest) = b" "dropWhile (\<lambda>x. \<not> blank x) (b @ rest) = rest"
    using False a assms(3) by (cases rest; auto simp: takeWhile_append dropWhile_append blank_def)+
  ultimately show ?thesis using False a assms(1) by (subst split_command.simps) auto
qed

lemma split_joinCommandArgs:
  assumes "\<forall>a \<in> set args. CHR 0x22 \<notin> set a \<and> protected_arg a"
  shows "split_command (joinCommandArgs args) = args"
  using assms
proof (induction args rule: induct_list012)
  case 1
  then show ?case by (simp add: joinCommandArgs_def split_command_Nil)
next
  case (2 a)
  then show ?case using split_render [of a "[]"] by (simp add: joinCommandArgs_def split_command_Nil)
next
  case (3 a b args)
  then have "split_command (joinCommandArgs (b # args)) = b # args" by simp
  with 3 split_render [of a "'' '' @ joinCommandArgs (b # args)"] show ?case
    by (simp add: joinCommandArgs_def split_command_space)
qed

interpretation command_line: codec joinCommandArgs "\<lambda>s. Some (split_command s)"
  "\<lambda>args. \<forall>a \<in> set args. CHR 0x22 \<notin> set a \<and> protected_arg a"
  by unfold_locales (simp add: split_joinCommandArgs)

text \<open>What stands bare is read as words without white space.\<close>

lemma word_end:
  assumes "rest = [] \<or> hd rest = CHR '' ''"
  shows "takeWhile (\<lambda>x. \<not> blank x) (b @ rest) = takeWhile (\<lambda>x. \<not> blank x) b"
    "dropWhile (\<lambda>x. \<not> blank x) (b @ rest) = dropWhile (\<lambda>x. \<not> blank x) b @ rest"
proof -
  have "takeWhile (\<lambda>x. \<not> blank x) rest = []" "dropWhile (\<lambda>x. \<not> blank x) rest = rest"
    using assms by (cases rest; simp add: blank_def)+
  then show "takeWhile (\<lambda>x. \<not> blank x) (b @ rest) = takeWhile (\<lambda>x. \<not> blank x) b"
    "dropWhile (\<lambda>x. \<not> blank x) (b @ rest) = dropWhile (\<lambda>x. \<not> blank x) b @ rest"
    by (induction b) simp_all
qed

lemma split_bare:
  assumes "CHR 0x22 \<notin> set a" and "rest = [] \<or> hd rest = CHR '' ''"
  shows "set (split_command (a @ rest)) \<subseteq> {t. \<forall>c \<in> set t. \<not> blank c} \<union> set (split_command rest)"
  using assms
proof (induction a rule: length_induct)
  case (1 a)
  show ?case
  proof (cases a)
    case (Cons c b)
    show ?thesis
    proof (cases "blank c")
      case True
      then have "split_command (a @ rest) = split_command (b @ rest)"
        by (subst split_command.simps) (simp add: Cons)
      with 1 Cons show ?thesis by simp
    next
      case False
      let ?b = "dropWhile (\<lambda>x. \<not> blank x) b"
      note word_end [OF "1.prems"(2), of b]
      then have "split_command (a @ rest) = (c # takeWhile (\<lambda>x. \<not> blank x) b) # split_command (?b @ rest)"
        using False "1.prems"(1) Cons by (subst split_command.simps) auto
      moreover have "length ?b < length a" "CHR 0x22 \<notin> set ?b"
        using Cons "1.prems"(1) length_dropWhile_le [of "\<lambda>x. \<not> blank x" b] by (auto dest: set_dropWhileD)
      moreover have "\<forall>x \<in> set (takeWhile (\<lambda>x. \<not> blank x) b). \<not> blank x" by (auto dest: set_takeWhileD)
      ultimately show ?thesis using False "1.IH" "1.prems"(2) by auto
    qed
  qed simp
qed

text \<open>So whatever is read back is protected, even where it is not what was rendered.\<close>

lemma split_render_protected:
  assumes "CHR 0x22 \<notin> set a" and "rest = [] \<or> hd rest = CHR '' ''" and "\<forall>t \<in> set (split_command rest). protected_arg t"
  shows "\<forall>t \<in> set (split_command (render_arg a @ rest)). protected_arg t"
proof (cases "protected_arg a")
  case True
  with assms split_render show ?thesis by simp
next
  case False
  then have "render_arg a = a" by (auto simp: render_arg_def protected_arg_def)
  moreover have "protected_arg t" if "\<forall>c \<in> set t. \<not> blank c" for t using that by (simp add: protected_arg_def)
  ultimately show ?thesis using split_bare [OF assms(1,2)] assms(3) by auto
qed

lemma split_join_protected:
  "\<forall>a \<in> set args. CHR 0x22 \<notin> set a \<Longrightarrow> \<forall>t \<in> set (split_command (joinCommandArgs args)). protected_arg t"
proof (induction args rule: induct_list012)
  case 1
  then show ?case by (simp add: joinCommandArgs_def split_command_Nil)
next
  case (2 a)
  then show ?case using split_render_protected [of a "[]"] by (simp add: joinCommandArgs_def split_command_Nil)
next
  case (3 a b args)
  let ?rest = "'' '' @ joinCommandArgs (b # args)"
  from 3 have "\<forall>t \<in> set (split_command ?rest). protected_arg t" by (simp add: split_command_space)
  moreover have "joinCommandArgs (a # b # args) = render_arg a @ ?rest" by (simp add: joinCommandArgs_def)
  ultimately show ?case using split_render_protected [of a ?rest] "3.prems" by simp
qed

section \<open>Truncation keeps UTF-8 valid\<close>

lemma cut_back_le: "cut_back s n \<le> n"
  by (induction n) auto

lemma cut_back_start: "cut_back s n = 0 \<or> rune_start (s ! cut_back s n)"
  by (induction n) auto

lemma cut_back_ge: "m \<le> n \<Longrightarrow> rune_start (s ! m) \<Longrightarrow> m \<le> cut_back s n"
  by (induction n) (auto simp: le_Suc_eq)

section \<open>Properties\<close>

text \<open>C14: The command of a sign request does not depend on the credentials on the command line: two
  command lines that differ only in values the redaction recognises give the same text.\<close>

theorem captured_command_secret:
  assumes "differ_in_credentials G False as bs"
  shows "captured_command G as = captured_command G bs"
  using redact_loop_differ [OF assms] by (simp add: captured_command_def redactCommandArgs_def)

theorem captured_command_secret_witness:
  "captured_command sample_rt [''signtool'', ''/p'', ''hunter2'', ''-pin=1''] =
   captured_command sample_rt [''signtool'', ''/p'', ''s3cret'', ''-pin=2'']"
proof -
  have secret: "is_secret_arg sample_rt ''/p''" "is_secret_arg sample_rt ''-pin=1''"
    "\<not> is_secret_arg sample_rt ''signtool''" "\<not> is_secret_arg sample_rt ''hunter2''"
    "\<not> is_secret_arg sample_rt ''s3cret''"
    by (simp_all add: is_secret_arg_def cut_char_def flagName_def to_lower_def is_ascii_def lower_char_def
        isSecretFlagName_def secretCommandFlags_def hasSecretSuffix_def)
  have "differ_in_credentials sample_rt False [''-pin=1''] [''-pin=2'']"
    using differ_in_credentials.Inline [of "''-pin''" sample_rt "''1''" "[]" "[]" False "''2''"] secret
    by (simp add: differ_in_credentials.Done)
  then have "differ_in_credentials sample_rt True [''hunter2'', ''-pin=1''] [''s3cret'', ''-pin=2'']"
    using secret by (intro differ_in_credentials.Value)
  then have "differ_in_credentials sample_rt False [''signtool'', ''/p'', ''hunter2'', ''-pin=1'']
      [''signtool'', ''/p'', ''s3cret'', ''-pin=2'']"
    using secret by (intro differ_in_credentials.Same) (simp_all add: opens_value_def)
  then show ?thesis by (rule captured_command_secret)
qed

text \<open>C30: The rendered command line, split at white space outside quotes (space, tab, line feed,
  vertical tab, form feed, carriage return), is the list of arguments it was made from exactly when
  every argument with white space in it holds a space or a tab, the two characters the code quotes
  for; an argument whose only white space is a line break is read back as several. Arguments with a
  quote are excluded.\<close>

theorem join_split:
  assumes "\<forall>a \<in> set args. CHR 0x22 \<notin> set a"
  shows "split_command (joinCommandArgs args) = args \<longleftrightarrow>
    (\<forall>a \<in> set args. \<forall>c \<in> set a. c \<in> {CHR '' '', CHR 0x09, CHR 0x0A, CHR 0x0B, CHR 0x0C, CHR 0x0D} \<longrightarrow>
      CHR '' '' \<in> set a \<or> CHR 0x09 \<in> set a)"
proof -
  have "(\<forall>a \<in> set args. protected_arg a) \<longleftrightarrow> split_command (joinCommandArgs args) = args"
    using split_joinCommandArgs [of args] split_join_protected [OF assms] assms by metis
  then show ?thesis unfolding protected_arg_def blank_def by blast
qed

theorem join_split_witness:
  "split_command (joinCommandArgs [''signtool'', ''My App.exe'', '''']) = [''signtool'', ''My App.exe'', ''''] \<and>
   split_command (joinCommandArgs [[CHR ''a'', CHR 0x0A, CHR ''b'']]) \<noteq> [[CHR ''a'', CHR 0x0A, CHR ''b'']]"
  using join_split [of "[''signtool'', ''My App.exe'', '''']"] join_split [of "[[CHR ''a'', CHR 0x0A, CHR ''b'']]"]
  by simp

text \<open>C31: Truncation cuts well-formed UTF-8 to at most 32767 bytes, keeps it a well-formed prefix, and
  loses nothing of a short text and at most three bytes more than it must of a long one.\<close>

theorem truncate_safe:
  assumes "utf8_valid s"
  shows "let t = truncateCommand s in prefix t s \<and> length t \<le> 32767 \<and> utf8_valid t \<and>
    (if length s \<le> 32767 then t = s else 32767 \<le> length t + 3)"
proof (cases "length s \<le> maxCommandLen")
  case True
  with assms show ?thesis by (simp add: truncateCommand_def maxCommandLen_def Let_def)
next
  case False
  let ?n = "cut_back s maxCommandLen"
  have le: "?n \<le> maxCommandLen" by (rule cut_back_le)
  have long: "maxCommandLen < length s" using False by simp
  have valid: "utf8_valid (take ?n s)"
    using cut_back_start [of s maxCommandLen] utf8_valid_take [OF assms, of ?n] le long by auto
  obtain m where "m \<le> maxCommandLen" "maxCommandLen \<le> m + 3" "rune_start (s ! m)"
    using utf8_valid_near_start [OF assms long] by blast
  then have "maxCommandLen \<le> ?n + 3" using cut_back_ge [of m maxCommandLen s] by simp
  with False le valid take_is_prefix [of ?n s] show ?thesis
    by (simp add: truncateCommand_def Let_def) (simp add: maxCommandLen_def)
qed

theorem truncate_safe_witness: "truncateCommand ''signtool sign'' = ''signtool sign''"
proof -
  have "utf8_valid ''signtool sign''" by code_simp
  from truncate_safe [OF this] show ?thesis by (simp add: Let_def)
qed

end
