(* ===== verification/Spec2Isabelle.thy ===== *)
theory Spec2Isabelle
  imports Function_Table Host_Runs Lockout Loading Command_Text
begin

text \<open>
  The Infisical Key Storage Provider: a DLL through which Windows programs (signtool, above all)
  sign with keys that never leave the Infisical server. This library models the Go code of the
  repository and the C entries in front of it, and proves what makes them correct.

  \<^bold>\<open>The parts and how they interact.\<close> The host calls the entries of a table of C functions
  (\<open>bridge_windows.c\<close>); each forwards to an exported Go function (\<open>bridge_windows.go\<close>), which turns
  an integer handle into an object of the registry and calls the provider
  (\<open>provider_windows.go\<close>). Opening a provider loads the configuration (\<open>config.go\<close>) and makes a
  session (\<open>session.go\<close>); opening a key asks the session for a signer and its public key; signing
  chooses an algorithm (\<open>cng/algorithm.go\<close>), sends the digest through the API client
  (\<open>client.go\<close>) with what is known of the host (\<open>signing_context.go\<close>), and reshapes an ECDSA
  signature (\<open>cng/ecdsa.go\<close>). A refusal becomes an approval request, a status of Windows and a
  line of the log (\<open>errors.go\<close>, \<open>logging_windows.go\<close>).

  \<^bold>\<open>The theories.\<close> Records stand for structs, datatypes for error types and for the dynamic types
  a switch tells apart, sums for the pairs of a value and an error.
  \<^item> \<open>Prelude\<close>: bytes, byte order, buffers. \<open>Runtime\<close>: strings, and the two records of parameters:
    \<open>go_rt\<close> (functions of the Go library that are not written out: the PEM, X.509 and URL parsers,
    case mapping and quoting outside ASCII) and \<open>os_env\<close> (environment, files, host, command
    line). \<open>Sample_Runtime\<close>, \<open>Sample\<close> and \<open>Sample_Process\<close> are a runtime, a machine with its server, and
    a process on it, for the witnesses.
  \<^item> The library, written out where the program depends on what it accepts: \<open>Encoding\<close> (base64, path
    escaping), \<open>Utf8\<close>, \<open>Utf16\<close>, \<open>File_Path\<close> (\<open>filepath.Base\<close>), \<open>Nist_Curves\<close>, \<open>Float64\<close> (rounded
    products and quotients), \<open>Json_Text\<close> (the scanner and parser of \<open>encoding/json\<close>, with a writer
    it inverts), \<open>Json_Decode\<close> (the decoding of structs), \<open>Net_Address\<close> (\<open>net.ParseIP\<close>), \<open>Sha256\<close>,
    \<open>Duration\<close> (\<open>parseApprovalDuration\<close>, with \<open>strconv.Atoi\<close> and \<open>time.ParseDuration\<close>).
  \<^item> \<open>Errors\<close>: \<open>errors.go\<close>; \<open>errors.As\<close> searches the chain of \<open>Unwrap\<close>. The locale
    \<open>transparent_wrapper\<close> is interpreted on the four approval outcomes.
  \<^item> \<open>Cng_Algorithm\<close>, \<open>Cng_Ecdsa\<close>, \<open>Cng_Pubkey\<close>: the package \<open>internal/cng\<close>, each with a reference
    reader of the format it writes.
  \<^item> \<open>Command_Line\<close>, \<open>Command_Text\<close>: redaction, rendering and truncation of the command line;
    \<open>Signing_Context\<close>: the rest of \<open>signing_context.go\<close>.
  \<^item> \<open>Config\<close>, \<open>Loading\<close>: \<open>config.go\<close> and what loading establishes.
  \<^item> \<open>Client\<close>: \<open>client.go\<close> over a \<open>world\<close>: the server as a function of the requests sent so far, the
    trace of requests, the clock as the sequence of its readings, and the package variables
    \<open>authFailCache\<close> and \<open>signingCtx\<close>. The locale \<open>api_call\<close> is the contract of a call, interpreted
    on all five.
  \<^item> \<open>Session\<close>: the struct \<open>Session\<close> and its methods; the locale \<open>ttl_cache\<close> is the contract of its
    four caches. \<open>Session_Calls\<close>: what every method keeps (locale \<open>session_op\<close>, interpreted on each).
    \<open>Signing\<close>: the properties of the methods. \<open>Interleaving\<close>: \<open>FindSigner\<close>, \<open>PublicKey\<close> and \<open>Sign\<close>
    as tasks that lock and unlock the mutex of the session, with any schedule of concurrent calls;
    \<open>Concurrent_Calls\<close>: what these return. \<open>Lockout\<close>: a failed login over runs of the calls of
    several sessions (locale \<open>quiet_op\<close>, an extension of \<open>session_op\<close>).
  \<^item> \<open>Handles\<close>: the registry, with the locale \<open>handle_registry\<close>; \<open>Provider\<close>: the state \<open>ksp\<close> of the
    process (world, sessions by reference, registry, logger) and the operations;
    \<open>Status\<close>: statuses, advice, logging; \<open>Key_Properties\<close>; \<open>Bridge\<close>: exported functions and entries.
  \<^item> \<open>Process\<close>: the step relation \<open>ksp_step\<close> of a host that calls the entries in any order with any
    arguments, \<open>reachable\<close> states and their invariant (locale \<open>ksp_op\<close>); \<open>Key_Store\<close>: the abstract
    key store the process refines. \<open>Host_Runs\<close>: a handle over the calls of a host.
    \<open>Function_Table\<close>: \<open>g_FunctionTable\<close>; the steps of a process are the calls through it.
  \<^item> This theory: signing, sizing and opening from the entry to the server and back.

  \<^bold>\<open>What is shown.\<close> Signing, end to end: what is sent, returned and logged (C1, C4, C5, C9). The
  process as a whole: its runs are runs of the abstract key store (C2), which asks the server to sign
  what the host asked for and nothing else (C3); the invariant of the reachable states (C6); every
  request goes out with the settings and credentials of the loaded configuration (C7); opened keys
  and the life of a handle (C11, C12); sizing calls and buffers (C13, C36); when a sign call returns,
  and that its slices are in bounds (C21); statuses, log and key
  properties (C34, C35, C37). Concurrent callers: where results come from (C8), that calls return
  (C18), that their steps are the methods (C19), and that the mutex guards the session (C20).
  Authentication and caches: a failed login is not repeated by any session for ten seconds (C10),
  what is cached is reused until it expires (C32, C33). Formats: round trips with reference readers (C22 to C25, C30), truncation (C31),
  the algorithms of the documentation (C29). Secrets of the command line: C14, C27. Configuration:
  which one loads (C15), round trip (C16), numbers that fit (C17), precedence (C26); approval scope:
  C28.
  Where the code does not do what it means to: an approval window that wraps around (C38), the
  secrets that are not redacted (C39), a token kept longer than it lives (C40). Where it does not do
  what the README or a comment says: the log of a missing approval (C35), white space that is not
  quoted (C30).

  \<^bold>\<open>Bounds.\<close> No definition uses fuel: every loop of the modelled code ends, and recursion is
  structural or has a measure; JSON nests at most 10000 deep, as in the library. \<open>int\<close> has the
  width \<open>rt_int_bits\<close>, durations wrap at 64 bits (\<open>wrap64\<close>), statuses and C lengths are 32-bit
  words, handles are words of any width. A call of a session takes at most twelve steps. Handles are
  never reused before the counter wraps, so the properties of reachable states suppose fewer calls
  than there are handles (\<open>2 ^ LENGTH('w) - 1\<close>). A sign call whose \<open>cbInput\<close> is negative as a C \<open>int\<close>
  panics in \<open>C.GoBytes\<close>; it is the result \<open>None\<close>, and no step. The same value stands for a slice out
  of bounds in \<open>ECDSADERToRaw\<close>, which C21 excludes. Other run-time panics of Go are not
  distinguished: the other index and slice expressions of the modelled code take an index that a
  search returned or a length check bounds. A copy past a buffer in \<open>copyOut\<close> is undefined
  behaviour, marked by \<open>co_overrun\<close>.

  \<^bold>\<open>Not modelled.\<close> The transport below a request (resty, TLS handshakes, the timeout running out):
  a request carries the settings of its client, and a reply is an arbitrary function of the requests.
  The parsers of URLs, PEM and certificates, certificate pools, and the Unicode tables: what they do
  with malformed input depends on the release of Go, so they stay parameters (\<open>go_rt\<close>). Concurrency beyond a session: in \<open>Process\<close> a
  call of the host is one atomic step, and \<open>Interleaving\<close> lets other sessions act on the world between
  any two steps of the calls of one session, where a step is a request with its reply, or an access
  to the caches with its reading of the clock. Changes of the environment during a process, time
  stamps of the log and the creation of its directory, \<open>main_stub.go\<close>, a key blob or
  property of 4 GiB and more, invalid pointers. The texts of the errors of \<open>encoding/asn1\<close>,
  \<open>encoding/base64\<close>, \<open>encoding/json\<close> and of the operating system stand for themselves in shorter form;
  they reach the log only.
\<close>

section \<open>Signing, end to end\<close>

text \<open>C1: A sign call that succeeds returns what the server signed: the key handle was live, the hash
  and padding of the host chose the algorithm, the host's digest went to the signer of that key in
  one request, the server answered with a signature, and the buffer holds that signature, for an
  ECDSA key reshaped to r || s.\<close>

theorem sign_hash_result:
  assumes "GoSignHash G key dwFlags pad pbInput cbInput k = Some ((b, statusSuccess), k')"
  shows "\<exists>ks padding hashName a token s1 w1 ctx status body out sig r.
    let s = k_sessions k ! ks_prov ks; digest = take (unat cbInput) pbInput;
      rq = sign_request (s_client s) token (sg_ID (ks_signer ks)) (sign_params ctx a digest)
    in lookupHandle key (k_registry k) = Some (Key ks) \<and>
      sign_padding dwFlags pad digest = Inr (padding, hashName) \<and>
      Algorithm G (ks_keyType ks) padding hashName = Inr a \<and>
      ensureToken G s (k_world k) = (Inr token, s1, w1) \<and>
      w_server (k_world k) (w_sent w1) rq = HttpReply status body out \<and> status \<le> 399 \<and>
      b64_decode (decode_signature G out) = Some sig \<and>
      (if ks_keyType ks = KeyECDSA then ECDSADERToRaw sig (ks_curveBits ks) else Some (Inr sig)) = Some (Inr r) \<and>
      b = cBytes r \<and> w_sent (k_world k') = w_sent w1 @ [rq]"
  using assms
proof (cases rule: GoSignHash_cases)
  case (asked ks padding hashName a q k1)
  from asked(5) obtain sig r where sig: "q = Inr sig" and r: "cng_signature ks sig = Inr r" "b = cBytes r" "k' = k1"
    by (auto split: sum.splits)
  let ?s = "k_sessions k ! ks_prov ks" and ?digest = "take (unat cbInput) pbInput"
  obtain s' w' where sign: "Sign G (sg_ID (ks_signer ks)) a ?digest ?s (k_world k) = (Inr sig, s', w')"
    and k1: "k_world k1 = w'"
    using asked(4) sig by (auto simp: run_session_def split: prod.splits)
  from sign show ?thesis
  proof (rule Sign_Inr)
    fix token s1 w1 ctx w2 status body out
    assume "ensureToken G ?s (k_world k) = (Inr token, s1, w1)"
      "w_server (k_world k) (w_sent w1) (sign_request (s_client ?s) token (sg_ID (ks_signer ks)) (sign_params ctx a ?digest)) =
         HttpReply status body out" "status \<le> 399" "b64_decode (decode_signature G out) = Some sig"
      "w_sent w' = w_sent w1 @ [sign_request (s_client ?s) token (sg_ID (ks_signer ks)) (sign_params ctx a ?digest)]"
    moreover from r(1) have "(if ks_keyType ks = KeyECDSA then ECDSADERToRaw sig (ks_curveBits ks) else Some (Inr sig)) = Some (Inr r)"
      by (simp add: cng_signature_def ECDSADERToRaw_eq split: if_splits)
    ultimately show ?thesis using asked(1-3) r k1 unfolding Let_def by blast
  qed
qed (simp_all add: status_neq [symmetric])

text \<open>A process in which handle 2 names the key of a signer of the sample server.\<close>

definition sample_key :: "string \<Rightarrow> public_key \<Rightarrow> key_type \<Rightarrow> nat \<Rightarrow> key_state" where
  "sample_key i pub kt bits =
     \<lparr>ks_prov = 0,
      ks_signer = \<lparr>sg_ID = i, sg_Name = ''app'', sg_Status = '''', sg_CertificateID = '''', sg_KeyAlgorithm = '''',
        sg_ApprovalPolicyID = None\<rparr>,
      ks_pub = pub, ks_keyType = kt, ks_curveBits = bits\<rparr>"

definition sample_process :: "key_state \<Rightarrow> 64 ksp" where
  "sample_process ks =
     \<lparr>k_world = sample_world, k_sessions = [sample_session],
      k_registry = \<lparr>rg_handles = (\<lambda>_. None)(1 := Some (Provider 0), 2 := Some (Key ks)), rg_next = 3\<rparr>,
      k_logger = \<lparr>lg_once = True, lg_out = Some ''ksp.log'', lg_prefix = '''', lg_lines = []\<rparr>\<rparr>"

lemma sample_process_simps [simp]:
  "k_world (sample_process ks) = sample_world" "k_sessions (sample_process ks) = [sample_session]"
  "lookupHandle 2 (k_registry (sample_process ks)) = Some (Key ks)"
  "lg_out (k_logger (sample_process ks)) = Some ''ksp.log''"
  "lg_prefix (k_logger (sample_process ks)) = ''''" "lg_lines (k_logger (sample_process ks)) = []"
  by (simp_all add: sample_process_def lookupHandle_def)

lemma sample_key_simps [simp]:
  "ks_prov (sample_key i pub kt bits) = 0" "sg_ID (ks_signer (sample_key i pub kt bits)) = i"
  "ks_keyType (sample_key i pub kt bits) = kt" "ks_curveBits (sample_key i pub kt bits) = bits"
  "ks_pub (sample_key i pub kt bits) = pub"
  by (simp_all add: sample_key_def)

lemma sample_granted:
  "w_server sample_world sent (sign_request (s_client sample_session) token ''s1'' p) =
     HttpReply 200 '''' (Some (JObj [(''signature'', JStr ''MAYCAQECAQI='')]))"
  by (simp add: sample_world_def sample_reply_def sign_request_def signer_path_def PathEscape_def segment_char_def)

lemma sample_signature:
  "b64_decode (decode_signature sample_rt (Some (JObj [(''signature'', JStr ''MAYCAQECAQI='')]))) =
     Some [48, 6, 2, 1, 1, 2, 1, 2]"
  by code_simp

lemma sample_padding: "sign_padding 2 (Some (Some (wide ''SHA256''))) digest = Inr (PaddingPKCS1, ''SHA256'')"
proof -
  have "utf16PtrToString (Some (wide ''SHA256'')) = ''SHA256''"
    by (rule utf16PtrToString_wide) (simp_all add: is_ascii_def)
  moreover have "and (2 :: 32 word) bcryptPadPKCS1 \<noteq> 0" by code_simp
  ultimately show ?thesis by (simp add: sign_padding_def readPaddingHashID_def)
qed

theorem sign_hash_result_witness:
  "let k = sample_process (sample_key ''s1'' (RSAKey 3233 17) KeyRSA 0); digest = replicate 32 7 in
   \<exists>b k'. GoSignHash sample_rt 2 2 (Some (Some (wide ''SHA256''))) digest 32 k = Some ((b, statusSuccess), k') \<and>
     b = cBytes [48, 6, 2, 1, 1, 2, 1, 2] \<and>
     (\<exists>ctx. w_sent (k_world k') =
       [sign_request (s_client sample_session) ''jwt'' ''s1'' (sign_params ctx AlgRSAPKCS1SHA256 digest)])"
proof -
  let ?k = "sample_process (sample_key ''s1'' (RSAKey 3233 17) KeyRSA 0)" and ?digest = "replicate 32 7 :: byte list"
  have take: "take (unat (32 :: 32 word)) ?digest = ?digest" by simp
  have pad: "sign_padding 2 (Some (Some (wide ''SHA256''))) ?digest = Inr (PaddingPKCS1, ''SHA256'')"
    by (simp add: sample_padding)
  have alg: "Algorithm sample_rt KeyRSA PaddingPKCS1 ''SHA256'' = Inr AlgRSAPKCS1SHA256"
    by (simp add: Algorithm_def trim_sha upper_sha)
  obtain ctx w2 where ctx: "current_context sample_rt sample_world = (ctx, w2)"
    by (cases "current_context sample_rt sample_world")
  have "\<exists>s' w'. Sign sample_rt ''s1'' AlgRSAPKCS1SHA256 ?digest sample_session sample_world =
      (Inr [48, 6, 2, 1, 1, 2, 1, 2], s', w')"
    by (simp add: Sign_reply [OF sample_token ctx] sample_granted sample_signature)
  then obtain k' where call: "GoSignHash sample_rt 2 2 (Some (Some (wide ''SHA256''))) ?digest 32 ?k =
      Some ((cBytes [48, 6, 2, 1, 1, 2, 1, 2], statusSuccess), k')"
    by (auto simp: GoSignHash_def keyByHandle_def key_of_def take pad alg signHash_eq run_session_def
        cng_signature_def simp del: replicate.simps take_replicate)
  note sample_rest = sample_token sample_granted sample_signature
  from sign_hash_result [OF call] show ?thesis
    using call unfolding Let_def take
    by (auto simp: pad alg sample_rest sample_world_silent simp del: replicate.simps take_replicate)
qed

text \<open>C5: When the server denies the sign request with HTTP 403, the host gets NTE_PERM and no
  buffer, and the error of the session is what became of the denial: for one that lacks an approval,
  the outcome (already pending, not configured, opened with the ID and status the server gave, or
  failed to open), logged as one line with the advice for that outcome; for any other, the API error,
  logged in two lines, its text and the advice for HTTP 403.\<close>

theorem sign_denied:
  fixes k :: "'w::len ksp" and ks digest
  defines "s \<equiv> k_sessions k ! ks_prov ks"
  assumes "lookupHandle key (k_registry k) = Some (Key ks)" and "0 \<le> sint cbInput"
    and "digest = take (unat cbInput) pbInput"
    and "sign_padding dwFlags pad digest = Inr (padding, hashName)"
    and "Algorithm G (ks_keyType ks) padding hashName = Inr a"
    and "ensureToken G s (k_world k) = (Inr token, s1, w1)" and "current_context G w1 = (ctx, w2)"
    and "rq = sign_request (s_client s) token (sg_ID (ks_signer ks)) (sign_params ctx a digest)"
    and "w_server (k_world k) (w_sent w1) rq = HttpReply 403 body out"
    and "lg_out (k_logger k) \<noteq> None" and "err = newAPIError G ''sign'' 403 body"
  shows "\<exists>e k'. GoSignHash G key dwFlags pad pbInput cbInput k = Some (((None, 0), statusPerm), k') \<and>
    fst (Sign G (sg_ID (ks_signer ks)) a digest s (k_world k)) = Inl e \<and>
    (if denial_code G body = ErrorCodeApprovalRequired
     then e = denied_as err (denial_pending G body) (approval_configured (Approval (s_cfg s)))
         (fst (RequestApproval G (s_client s) token (sg_ID (ks_signer ks))
           (approval_for G (Approval (s_cfg s)) ctx digest) (snd (send rq w2)))) \<and>
       lg_lines (k_logger k') = lg_lines (k_logger k) @
         [lg_prefix (k_logger k) @ ''ERROR SignHash: '' @ adviceForError (Some e)]
     else e = err \<and>
       lg_lines (k_logger k') = lg_lines (k_logger k) @
         [lg_prefix (k_logger k) @ ''ERROR SignHash: '' @ error_text err,
          lg_prefix (k_logger k) @ ''HINT  SignHash: '' @ advice_403])"
proof -
  let ?id = "sg_ID (ks_signer ks)" and ?approval = "denial_code G body = ErrorCodeApprovalRequired"
  obtain e w' where e: "Sign G ?id a digest s (k_world k) = (Inl e, s1, w')"
    and outcome: "e = (if ?approval
      then denied_as err (denial_pending G body) (approval_configured (Approval (s_cfg s)))
        (fst (RequestApproval G (s_client s) token ?id (approval_for G (Approval (s_cfg s)) ctx digest) (snd (send rq w2))))
      else err)"
    using Sign_denied [OF assms(7-9,12,10)] by blast
  obtain api where api: "err = APIError api" "ae_StatusCode api = 403" using as_api_newAPIError assms(12) by blast
  then have as_api: "as_api e = Some api"
    by (simp add: outcome denied_as_def split: sum.splits prod.splits)
  have approval: "IsApprovalOutcome e" if ?approval
    using that by (auto simp: outcome denied_as_def api(1) IsApprovalOutcome_def split: sum.splits prod.splits)
  let ?k1 = "k\<lparr>k_sessions := (k_sessions k)[ks_prov ks := s1], k_world := w'\<rparr>"
  have run: "run_session (ks_prov ks) (Sign G ?id a digest) k = (Inl e, ?k1)"
    by (simp add: run_session_def e [unfolded s_def])
  have status: "statusFromError (Some e) = statusPerm"
    using as_api api(2) as_api_not_bad_handle [OF as_api] by (simp add: statusFromError_def)
  have live: "keyByHandle key k = Inr ks" using assms(2) by (simp add: keyByHandle_Inr)
  have "GoSignHash G key dwFlags pad pbInput cbInput k = Some (((None, 0), statusPerm), log_ksp ''SignHash'' e ?k1)"
    using assms(3,5,6) run status by (simp add: GoSignHash_def live signHash_eq assms(4) Let_def)
  moreover have "lg_lines (k_logger (log_ksp ''SignHash'' e ?k1)) = lg_lines (k_logger k) @
      [lg_prefix (k_logger k) @ ''ERROR SignHash: '' @ adviceForError (Some e)]" if ?approval
    using approval [OF that] assms(11) by (simp add: log_ksp_def logError_outcome [OF as_api] log_printf_def)
  moreover have "lg_lines (k_logger (log_ksp ''SignHash'' e ?k1)) = lg_lines (k_logger k) @
      [lg_prefix (k_logger k) @ ''ERROR SignHash: '' @ error_text err,
       lg_prefix (k_logger k) @ ''HINT  SignHash: '' @ advice_403]" if "\<not> ?approval"
    using that api assms(11) by (simp add: outcome log_ksp_def logError_api_403 log_printf_def)
  ultimately show ?thesis
    using e outcome by (intro exI [of _ e] exI [of _ "log_ksp ''SignHash'' e ?k1"]) simp
qed

theorem sign_denied_witness:
  "\<exists>e k'. GoSignHash sample_rt 2 2 (Some (Some (wide ''SHA256''))) (replicate 32 7) 32
       (sample_process (sample_key ''s2'' (RSAKey 3233 17) KeyRSA 0)) = Some (((None, 0), statusPerm), k') \<and>
     IsApprovalOutcome e \<and> lg_lines (k_logger k') = [''ERROR SignHash: '' @ adviceForError (Some e)]"
proof -
  let ?ks = "sample_key ''s2'' (RSAKey 3233 17) KeyRSA 0" and ?digest = "replicate 32 7 :: byte list"
  have digest: "?digest = take (unat (32 :: 32 word)) ?digest" by simp
  have pad: "sign_padding 2 (Some (Some (wide ''SHA256''))) ?digest = Inr (PaddingPKCS1, ''SHA256'')"
    by (simp add: sample_padding)
  have alg: "Algorithm sample_rt (ks_keyType ?ks) PaddingPKCS1 ''SHA256'' = Inr AlgRSAPKCS1SHA256"
    by (simp add: Algorithm_def trim_sha upper_sha)
  have code: "denial_code sample_rt denied_body = ErrorCodeApprovalRequired"
    by (simp add: denial_code_def sample_denial ErrorCodeApprovalRequired_def)
  have session: "k_sessions (sample_process ?ks) ! ks_prov ?ks = sample_session" by simp
  obtain ctx w2 where ctx: "current_context sample_rt sample_world = (ctx, w2)"
    by (cases "current_context sample_rt sample_world")
  have outcome: "IsApprovalOutcome (denied_as e p c q)" for e p c q
    by (auto simp: denied_as_def IsApprovalOutcome_def split: sum.splits prod.splits)
  show ?thesis
    using sign_denied [of 2 "sample_process ?ks" ?ks 32 ?digest ?digest 2 "Some (Some (wide ''SHA256''))"
        PaddingPKCS1 "''SHA256''" sample_rt AlgRSAPKCS1SHA256 "''jwt''" sample_session sample_world ctx w2 _
        denied_body None, unfolded session, OF _ _ digest pad alg _ ctx refl _ _ refl] code outcome
    by (simp add: sample_token sample_denied) metis
qed

text \<open>C21: A sign call returns a status, whatever the arguments and the server do, except for a live key,
  a buffer and a hash length of 2 GiB or more, where \<open>C.GoBytes\<close> panics on the negative C int. In
  particular neither slice of \<open>ECDSADERToRaw\<close> is ever out of bounds, whatever integers the server
  sent; these are the panics of Go that the model of a sign call distinguishes.\<close>

theorem sign_call_returns:
  "ksp_SignHash G hKey pad pbHashValue cbHashValue pbSignature cbSignature pcbResult dwFlags k = None \<longleftrightarrow>
     pbSignature \<noteq> None \<and> (\<exists>ks. lookupHandle hKey (k_registry k) = Some (Key ks)) \<and> 2 ^ 31 \<le> unat cbHashValue"
proof -
  have negative: "sint cbHashValue < 0 \<longleftrightarrow> 2 ^ 31 \<le> unat cbHashValue"
    by (rule sint_negative)
  have "GoSignHash G hKey dwFlags pad pbHashValue cbHashValue k = None \<longleftrightarrow>
      (\<exists>ks. lookupHandle hKey (k_registry k) = Some (Key ks)) \<and> sint cbHashValue < 0"
  proof (cases "keyByHandle hKey k")
    case (Inl e)
    then have "\<forall>ks. lookupHandle hKey (k_registry k) \<noteq> Some (Key ks)" using keyByHandle_Inl by blast
    with Inl show ?thesis by (simp add: GoSignHash_def)
  next
    case (Inr ks)
    then have "lookupHandle hKey (k_registry k) = Some (Key ks)" using keyByHandle_Inr by blast
    with Inr show ?thesis
      by (auto simp: GoSignHash_def signHash_eq Let_def split: sum.splits prod.splits)
  qed
  then show ?thesis by (auto simp: ksp_SignHash_def negative split: option.splits prod.splits)
qed

section \<open>Keys, end to end\<close>

text \<open>C11: A key opened with success is the signer the host asked for, by name or ID, with the public
  key fetched or cached for that signer; it gets a handle that is not null and named nothing before,
  and every handle that was live still names what it named.\<close>

theorem open_key_faithful:
  assumes "reachable G w n (k :: 'w::len ksp)" and "w_sent w = []" and "Suc n < 2 ^ LENGTH('w) - 1"
    and "GoOpenKey G prov name k = ((h, statusSuccess), k')"
  shows "\<exists>i ks k1 k2. lookupHandle prov (k_registry k) = Some (Provider i) \<and>
    run_session i (FindSigner G (utf16PtrToString name)) k = (Inr (ks_signer ks), k1) \<and>
    utf16PtrToString name \<in> {sg_Name (ks_signer ks), sg_ID (ks_signer ks)} \<and>
    run_session i (PublicKey G (sg_ID (ks_signer ks))) k1 = (Inr (ks_pub ks), k2) \<and>
    ks_prov ks = i \<and> key_ok ks \<and> h \<noteq> 0 \<and> lookupHandle h (k_registry k) = None \<and>
    (\<forall>j. lookupHandle j (k_registry k') = (if j = h then Some (Key ks) else lookupHandle j (k_registry k)))"
proof -
  note inv = reachable_room(1) [OF assms(1-3)] and room = reachable_room(2) [OF assms(1-3)]
  from assms(4) have "openKey G prov (utf16PtrToString name) k = (Inr h, k')"
    by (auto simp: GoOpenKey_def Let_def status_neq [symmetric] split: prod.splits sum.splits)
  then show ?thesis
  proof (cases rule: openKey_cases)
    case (opened i sg k1 pub k2 ks h')
    note key = new_key_state_ok [OF opened(4)]
    have "run_session i (FindSigner G (utf16PtrToString name)) k = (Inr sg, k1) \<Longrightarrow>
        utf16PtrToString name \<in> {sg_Name sg, sg_ID sg}"
      by (auto simp: run_session_def FindSigner_result find_Some_iff split: prod.splits sum.splits option.splits)
    note named = this [OF opened(2)]
    have same: "k_registry k2 = k_registry k"
      using run_session_registry [OF opened(2)] run_session_registry [OF opened(3)] by simp
    note i = live_provider [OF inv opened(1)]
    have inv1: "ksp_inv k1" using find_signer.run_session_inv [OF inv i opened(2)] .
    have inv2: "ksp_inv k2"
      using public_key.run_session_inv [OF inv1 _ opened(3)] i run_session_length [OF opened(2)] by simp
    have "ksp_ok k2" "ksp_room k2" "object_ok (length (k_sessions k2)) (Key ks)"
      using inv2 room same key i run_session_length [OF opened(2)] run_session_length [OF opened(3)]
      by (simp_all add: ksp_inv_def object_ok_def)
    note reg = ksp_ok_register [OF this opened(5)]
    from opened(6) have "h' = h" by simp
    with opened(1-3) key named reg(2,3) same show ?thesis
      by (intro exI [of _ i] exI [of _ ks] exI [of _ k1] exI [of _ k2]) simp
  qed simp_all
qed

theorem open_key_faithful_witness:
  "\<exists>h k'. GoOpenKey sample_rt 1 (Some (wide ''app'')) sample_opened = ((h, statusSuccess), k') \<and> h \<noteq> 0 \<and>
     (\<exists>ks. lookupHandle h (k_registry k') = Some (Key ks) \<and> ''app'' \<in> {sg_Name (ks_signer ks), sg_ID (ks_signer ks)})"
proof -
  have "snd (fst (GoOpenKey sample_rt 1 (Some (wide ''app'')) sample_opened)) = statusSuccess"
    using sample_keyed_status by (auto simp: ksp_OpenKey_def split_beta Let_def statusSuccess_def split: if_splits)
  then obtain h k' where opened: "GoOpenKey sample_rt 1 (Some (wide ''app'')) sample_opened = ((h, statusSuccess), k')"
    by (metis prod.collapse)
  show ?thesis
    using open_key_faithful [OF sample_opened_reachable sample_world_silent _ opened] opened by (auto simp: sample_key_name)
qed

text \<open>A sign call with a buffer, for an ECDSA key: what is written has the length of the raw format.\<close>

lemma sign_call_size:
  assumes "lookupHandle key (k_registry k) = Some (Key ks)" and "ks_keyType ks = KeyECDSA"
    and n: "unat n = 2 * ((ks_curveBits ks + 7) div 8)"
    and run: "ksp_SignHash G key pad hv chv (Some buf) cb (Some p) fl k = Some (r, k')"
  shows "(co_status r = statusSuccess \<longrightarrow> co_result r = Some n \<and> n \<le> cb) \<and>
    (n \<le> cb \<longrightarrow> co_status r \<noteq> NTE_BUFFER_TOO_SMALL)"
proof -
  from run obtain b st where call: "GoSignHash G key fl pad hv chv k = Some ((b, st), k')"
    and r: "r = (if st \<noteq> 0 then call_failed st (Some buf) (Some p) else copyOut b (Some buf) cb (Some p))"
    by (auto simp: ksp_SignHash_def split: option.splits)
  show ?thesis
    using call
  proof (cases rule: GoSignHash_cases)
    case bad
    with r show ?thesis by (simp add: call_failed_def) (simp add: status_defs)
  next
    case (refused ks' e op)
    with r show ?thesis by (auto simp: call_failed_def) (simp_all add: status_defs)
  next
    case (asked ks' padding hashName a q k1)
    with assms(1) have ks': "ks' = ks" by simp
    show ?thesis
    proof (cases "case q of Inl e \<Rightarrow> Inl e | Inr sig \<Rightarrow> cng_signature ks' sig")
      case (Inl e)
      with asked(5) r statusFromError_Some_neq [of e] show ?thesis
        by (simp add: call_failed_def statusSuccess_def [symmetric])
    next
      case (Inr out)
      then obtain sig where "raw_signature sig (ks_curveBits ks) = Inr out"
        using assms(2) by (auto simp: ks' cng_signature_def split: sum.splits)
      then have "length out = unat n" by (auto elim!: raw_signature_Inr simp: curve_size_def n)
      then have "word_of_nat (length out) = n" by simp
      with Inr asked(5) r show ?thesis
        by (auto simp: copyOut_cases statusSuccess_def NTE_BUFFER_TOO_SMALL_def cBytes_def not_less)
    qed
  qed
qed

text \<open>C13: For an ECDSA key the sizing call is exact and local: it changes nothing, sends nothing, and
  reports the number of bytes a sign call that succeeds writes, so a host that allocates what it was
  told never gets a buffer error.\<close>

theorem sizing_call_exact:
  fixes k :: "'w::len ksp"
  assumes "lookupHandle key (k_registry k) = Some (Key ks)" and "key_ok ks" and "ks_keyType ks = KeyECDSA"
    and "ks_curveBits ks < 2 ^ 16"
  shows "\<exists>q size. ksp_SignHash G key pad hv chv None cb (Some p) fl k = Some (q, k) \<and>
    co_status q = statusSuccess \<and> co_result q = Some size \<and> unat size = 2 * ((ks_curveBits ks + 7) div 8) \<and>
    (\<forall>r k'. ksp_SignHash G key pad' hv' chv' (Some buf) cb' (Some p') fl' k = Some (r, k') \<longrightarrow>
      (co_status r = statusSuccess \<longrightarrow> co_result r = Some size \<and> size \<le> cb') \<and>
      (size \<le> cb' \<longrightarrow> co_status r \<noteq> NTE_BUFFER_TOO_SMALL))"
proof -
  let ?n = "2 * ((ks_curveBits ks + 7) div 8)" let ?size = "word_of_nat ?n :: 32 word"
  let ?q = "\<lparr>co_status = statusSuccess, co_output = None, co_result = Some ?size, co_overrun = False\<rparr>"
  have live: "keyByHandle key k = Inr ks" using assms(1) by (simp add: keyByHandle_Inr)
  have bits: "keyLengthBits ks = ks_curveBits ks"
    using assms(2,3) by (auto simp: keyLengthBits_def key_ok_def split: public_key.splits)
  have "?n < 2 ^ 32" using assms(4) by simp
  then have size: "unat ?size = ?n" by (rule unat_length)
  have sizing: "ksp_SignHash G key pad hv chv None cb (Some p) fl k = Some (?q, k)"
    by (simp add: ksp_SignHash_def GoSignatureMaxSize_def live bits assms(3) statusSuccess_def Let_def mult.commute)
  have signed: "(co_status r = statusSuccess \<longrightarrow> co_result r = Some ?size \<and> ?size \<le> cb') \<and>
      (?size \<le> cb' \<longrightarrow> co_status r \<noteq> NTE_BUFFER_TOO_SMALL)"
    if "ksp_SignHash G key pad' hv' chv' (Some buf) cb' (Some p') fl' k = Some (r, k')" for r k'
    by (rule sign_call_size [OF assms(1,3) size that])
  from sizing size signed show ?thesis
    by (intro exI [of _ ?q] exI [of _ ?size]) simp
qed

theorem sizing_call_exact_witness:
  "let k = sample_process (sample_key ''s1'' (ECKey 256 1 2) KeyECDSA 256) in
   \<exists>q size. ksp_SignHash sample_rt 2 None [] 0 None 0 (Some 0) 0 k = Some (q, k) \<and> co_result q = Some size \<and> unat size = 64"
  using sizing_call_exact [of 2 "sample_process (sample_key ''s1'' (ECKey 256 1 2) KeyECDSA 256)"
      "sample_key ''s1'' (ECKey 256 1 2) KeyECDSA 256" sample_rt None "[]" 0 0 0 0 None "[]" 0 "[]" 0 0 0]
  by (simp add: key_ok_def Let_def) blast

end
